theory Spec2Isabelle
  imports Main "HOL-Library.Word" "HOL-Library.Signed_Division" "HOL-Library.Log_Nat" "HOL-Library.Multiset"
begin

section \<open>Numbers of the Go runtime\<close>

subsection \<open>float64\<close>

text \<open>
  A finite \<open>float64\<close> is modelled by its exact rational value. \<open>f64\<close> rounds a rational
  to the nearest number with a 53-bit significand, ties to even, which is what every
  float64 operation of Go does with its exact result. The exponent range is not bounded:
  the values met below lie between \<open>1 / (6 * 10^10)\<close> and \<open>2^63\<close> in magnitude, far
  inside the normal range of the format.
\<close>

type_synonym float64 = rat

definition pow2 :: "int \<Rightarrow> rat" where
  "pow2 e = (if 0 \<le> e then 2 ^ nat e else 1 / 2 ^ nat (- e))"

text \<open>\<open>ilog2 x\<close> is the binary exponent of \<open>x \<noteq> 0\<close>: \<open>2 ^ ilog2 x \<le> \<bar>x\<bar> < 2 ^ (ilog2 x + 1)\<close>.\<close>

definition ilog2 :: "rat \<Rightarrow> int" where
  "ilog2 x = (let (p, q) = quotient_of \<bar>x\<bar>; d = bitlen p - bitlen q
              in if pow2 d \<le> \<bar>x\<bar> then d else d - 1)"

definition round_half_even :: "rat \<Rightarrow> int" where
  "round_half_even y =
     (let f = \<lfloor>y\<rfloor>; r = y - of_int f
      in if r < 1 / 2 then f else if 1 / 2 < r then f + 1 else if even f then f else f + 1)"

definition f64 :: "rat \<Rightarrow> float64" where
  "f64 x = (if x = 0 then 0
            else let u = pow2 (ilog2 x - 52) in of_int (round_half_even (x / u)) * u)"

text \<open>\<open>math.Round\<close>: the nearest integer, halves away from zero; the result is a float64.\<close>

definition math_Round :: "float64 \<Rightarrow> float64" where
  "math_Round x = (if 0 \<le> x then of_int \<lfloor>x + 1 / 2\<rfloor> else - of_int \<lfloor>- x + 1 / 2\<rfloor>)"

text \<open>The conversion of a float64 to an integer type drops the fraction (towards zero).\<close>

definition trunc :: "float64 \<Rightarrow> int" where
  "trunc x = (if 0 \<le> x then \<lfloor>x\<rfloor> else - \<lfloor>- x\<rfloor>)"

subsection \<open>time.Duration\<close>

text \<open>
  \<open>time.Duration\<close> is an \<open>int64\<close> count of nanoseconds: \<open>+\<close> and \<open>*\<close> wrap around,
  \<open>sint\<close> reads the value. Go's \<open>/\<close> and \<open>%\<close> truncate towards zero (\<open>sdiv\<close>, \<open>smod\<close>);
  with the positive divisors used here the quotient never overflows.
  \<open>Minutes\<close> and \<open>Seconds\<close> are the methods of Go's \<open>time\<close> package:
  \<^verbatim>\<open>min := d / Minute; nsec := d % Minute; return float64(min) + float64(nsec)/(60*1e9)\<close>
  \<^verbatim>\<open>sec := d / Second; nsec := d % Second; return float64(sec) + float64(nsec)/1e9\<close>
\<close>

type_synonym Duration = "64 word"

definition Second :: Duration where
  "Second = 1000000000"

definition Minute :: Duration where
  "Minute = 60 * Second"

definition Minutes :: "Duration \<Rightarrow> float64" where
  "Minutes d =
     (let min = sint d sdiv sint Minute; nsec = sint d smod sint Minute
      in f64 (f64 (of_int min) + f64 (f64 (of_int nsec) / 60000000000)))"

definition Seconds :: "Duration \<Rightarrow> float64" where
  "Seconds d =
     (let sec = sint d sdiv sint Second; nsec = sint d smod sint Second
      in f64 (f64 (of_int sec) + f64 (f64 (of_int nsec) / 1000000000)))"

text \<open>\<open>time.Duration(f)\<close> for a float64 \<open>f\<close>.\<close>

definition Duration_of_float :: "float64 \<Rightarrow> Duration" where
  "Duration_of_float f = word_of_int (trunc f)"

text \<open>\<open>int(f)\<close> for a float64 \<open>f\<close>; \<open>int\<close> has 64 bits on the platforms Go builds this for.\<close>

definition int_of_float :: "float64 \<Rightarrow> int" where
  "int_of_float f = sint (word_of_int (trunc f) :: 64 word)"

section \<open>The worklog data model\<close>

record IDNameField =
  ID :: string
  Name :: string

text \<open>
  \<open>worklog.Entry\<close>, with the fields the clients and their tests use. \<open>Start\<close> is an
  instant; only its formatting by the time package is used.
\<close>

record Entry =
  Client :: IDNameField
  Project :: IDNameField
  Task :: IDNameField
  Summary :: string
  Notes :: string
  Start :: int
  BillableDuration :: Duration
  UnbillableDuration :: Duration

text \<open>
  \<open>client.UploadOpts\<close>. Its \<open>ProgressWriter\<close> is only handed on to the progress tracker and
  is left out.
\<close>

record UploadOpts =
  User :: string
  TreatDurationAsBilled :: bool
  RoundToClosestMinute :: bool

text \<open>The fields \<open>ID\<close> and \<open>Key\<close> of \<open>JiraIssue\<close>, and the payload \<open>UploadEntry\<close>.\<close>

record JiraIssue =
  JiraID :: int
  JiraKey :: string

record UploadEntry =
  Comment :: string
  IssueID :: int
  StartDate :: string
  StartTime :: string
  BillableSeconds :: int
  TimeSpentSeconds :: int
  AuthorAccountID :: string

section \<open>The duration policy of tempoClient.UploadEntries\<close>

text \<open>
  The expression of lines 128 and 129:
  \<^verbatim>\<open>time.Second * time.Duration(math.Round(d.Minutes())*60)\<close>
\<close>

definition roundToClosestMinute :: "Duration \<Rightarrow> Duration" where
  "roundToClosestMinute d = Second * Duration_of_float (f64 (math_Round (Minutes d) * 60))"

text \<open>
  Lines 118 to 131: the triple \<open>(billableDuration, unbillableDuration, totalTimeSpent)\<close>
  as it stands when the payload is built.
\<close>

definition durationPolicy :: "UploadOpts \<Rightarrow> Entry \<Rightarrow> Duration \<times> Duration \<times> Duration" where
  "durationPolicy opts entry =
     (let billableDuration = BillableDuration entry;
          unbillableDuration = UnbillableDuration entry;
          totalTimeSpent = billableDuration + unbillableDuration;
          (billableDuration, unbillableDuration) =
            (if TreatDurationAsBilled opts
             then (UnbillableDuration entry + BillableDuration entry, 0)
             else (billableDuration, unbillableDuration))
      in if RoundToClosestMinute opts
         then (let billableDuration = roundToClosestMinute billableDuration;
                   unbillableDuration = roundToClosestMinute unbillableDuration
               in (billableDuration, unbillableDuration, billableDuration + unbillableDuration))
         else (billableDuration, unbillableDuration, totalTimeSpent))"

text \<open>
  Lines 133 to 141. The issue id comes from the Jira lookup; the two date strings are
  produced by the formatting functions of the time package, passed in as \<open>fmtDate\<close> and
  \<open>fmtTime\<close>.
\<close>

definition buildUploadEntry ::
  "(int \<Rightarrow> string) \<Rightarrow> (int \<Rightarrow> string) \<Rightarrow> UploadOpts \<Rightarrow> Entry \<Rightarrow> JiraIssue \<Rightarrow> UploadEntry" where
  "buildUploadEntry fmtDate fmtTime opts entry issue =
     (case durationPolicy opts entry of
        (billableDuration, unbillableDuration, totalTimeSpent) \<Rightarrow>
          \<lparr> Comment = Summary entry,
            IssueID = JiraID issue,
            StartDate = fmtDate (Start entry),
            StartTime = fmtTime (Start entry),
            BillableSeconds = int_of_float (Seconds billableDuration),
            TimeSpentSeconds = int_of_float (Seconds totalTimeSpent),
            AuthorAccountID = User opts \<rparr>)"

text \<open>The number of seconds the payload would carry for a duration.\<close>

definition transmittedSeconds :: "Duration \<Rightarrow> int" where
  "transmittedSeconds d = int_of_float (Seconds d)"

subsection \<open>Auxiliary notions for the proofs about the duration policy\<close>

text \<open>
  The float64 value that \<open>Minutes\<close> computes from the two integer parts of a duration,
  and the rounded number of minutes as an integer.
\<close>

definition minutesFloat :: "int \<Rightarrow> int \<Rightarrow> float64" where
  "minutesFloat mn ns = f64 (f64 (of_int mn) + f64 (f64 (of_int ns) / 60000000000))"

definition roundedMinutes :: "Duration \<Rightarrow> int" where
  "roundedMinutes d = trunc (math_Round (Minutes d))"

section \<open>Task extraction (fetcher.go)\<close>

definition SplitAcrossTasks :: string where
  "SplitAcrossTasks = ''split''"

definition FirstTaskOnly :: string where
  "FirstTaskOnly = ''first-only''"

definition MultipleTaskModes :: "string list" where
  "MultipleTaskModes = [SplitAcrossTasks, FirstTaskOnly]"

text \<open>
  \<open>'r\<close> is the type of a \<open>*regexp.Regexp\<close> value (a pointer, possibly nil).
\<close>

record 'r TaskExtractionOpts =
  TagsAsTasksRegex :: 'r
  TaskInSummaryRegex :: 'r
  TaskInProjectRegex :: 'r
  MultipleTaskMode :: string

text \<open>
  \<open>utils.IsRegexSet\<close> and the three extraction methods of \<open>worklog.Entry\<close> live in
  packages whose code is not available; \<open>ExtractTasks\<close> takes them as parameters.
\<close>

record 'r extractors =
  IsRegexSet :: "'r \<Rightarrow> bool"
  TasksFromSummary :: "Entry \<Rightarrow> 'r \<Rightarrow> IDNameField list"
  TasksFromTags :: "Entry \<Rightarrow> IDNameField list \<Rightarrow> 'r \<Rightarrow> IDNameField list"
  TasksFromProject :: "Entry \<Rightarrow> 'r \<Rightarrow> IDNameField list"

definition ExtractTasks ::
  "'r extractors \<Rightarrow> Entry \<Rightarrow> IDNameField list \<Rightarrow> 'r TaskExtractionOpts \<Rightarrow> IDNameField list" where
  "ExtractTasks lib e tags opts =
     (let tasks = [];
          tasks = (if IsRegexSet lib (TaskInSummaryRegex opts)
                   then tasks @ TasksFromSummary lib e (TaskInSummaryRegex opts)
                   else tasks);
          tasks = (if IsRegexSet lib (TagsAsTasksRegex opts) \<and>
                      (MultipleTaskMode opts = SplitAcrossTasks \<or> length tasks = 0)
                   then tasks @ TasksFromTags lib e tags (TagsAsTasksRegex opts)
                   else tasks);
          tasks = (if IsRegexSet lib (TaskInProjectRegex opts) \<and>
                      (MultipleTaskMode opts = SplitAcrossTasks \<or> length tasks = 0)
                   then tasks @ TasksFromProject lib e (TaskInProjectRegex opts)
                   else tasks);
          tasks = (if MultipleTaskMode opts = FirstTaskOnly \<and> length tasks > 1
                   then take 1 tasks
                   else tasks)
      in tasks)"

text \<open>
  A small instance of the parameters, used to run \<open>ExtractTasks\<close> on concrete inputs: a
  pattern is a set of characters, it is set when it is not empty, and every character of
  the text that belongs to it is a match.
\<close>

definition charTasks :: "string \<Rightarrow> string \<Rightarrow> IDNameField list" where
  "charTasks text r = map (\<lambda>c. \<lparr> ID = [c], Name = [c] \<rparr>) (filter (\<lambda>c. c \<in> set r) text)"

definition charExtractors :: "string extractors" where
  "charExtractors =
     \<lparr> IsRegexSet = (\<lambda>r. r \<noteq> []),
       TasksFromSummary = (\<lambda>e r. charTasks (Summary e) r),
       TasksFromTags = (\<lambda>e tags r. concat (map (\<lambda>t. charTasks (Name t) r) tags)),
       TasksFromProject = (\<lambda>e r. charTasks (Name (Project e)) r) \<rparr>"

definition exampleEntry :: Entry where
  "exampleEntry =
     \<lparr> Client = \<lparr> ID = ''c'', Name = ''client'' \<rparr>,
       Project = \<lparr> ID = ''p'', Name = ''xb'' \<rparr>,
       Task = \<lparr> ID = ''789'', Name = ''CPT-2014'' \<rparr>,
       Summary = ''aab'',
       Notes = '''',
       Start = 0,
       BillableDuration = 500000000,
       UnbillableDuration = 500000000 \<rparr>"

definition exampleTags :: "IDNameField list" where
  "exampleTags = [\<lparr> ID = ''t1'', Name = ''ya'' \<rparr>]"

definition exampleExtraction :: "string \<Rightarrow> string TaskExtractionOpts" where
  "exampleExtraction mode =
     \<lparr> TagsAsTasksRegex = ''a'', TaskInSummaryRegex = ''a'', TaskInProjectRegex = ''b'',
       MultipleTaskMode = mode \<rparr>"

section \<open>Errors\<close>

text \<open>
  A Go \<open>error\<close> value. \<open>ErrUploadEntries\<close> is declared in the client package;
  \<open>ExternalError\<close> stands for the errors of the collaborators (transport, decoding, URL
  parsing). The three \<open>Errorf\<close> constructors are the results of
  \<^verbatim>\<open>fmt.Errorf("%v: %v", a, b)\<close>, \<^verbatim>\<open>fmt.Errorf("%v: %v: %v", a, key, b)\<close> and
  \<^verbatim>\<open>fmt.Errorf("%v: %+v: %v", a, payload, b)\<close>.
\<close>

datatype error =
    ErrNoTargetImplementation
  | ErrFetchEntries
  | ErrUploadEntries
  | ExternalError string
  | Errorf2 error error
  | Errorf3 error string error
  | ErrorfPayload error UploadEntry error

section \<open>Clients and their options\<close>

record BasicAuth =
  Username :: string
  Password :: string

record TokenAuth =
  Header :: string
  TokenName :: string
  Token :: string

record BaseClientOpts =
  Timeout :: Duration

record tempo_ClientOpts =
  tempo_BaseClientOpts :: BaseClientOpts
  tempo_BasicAuth :: BasicAuth
  tempo_BaseURL :: string

record ClientOpts =
  ClientOpts_BaseClientOpts :: BaseClientOpts
  TempoAuth :: TokenAuth
  JiraAuth :: BasicAuth
  TempoBaseURL :: string
  JiraBaseURL :: string

text \<open>A parsed \<open>*url.URL\<close> and a \<open>client.Authenticator\<close>, as built by the collaborators.\<close>

datatype URL = URL string

datatype Authenticator = Authenticator string

record HTTPClient =
  BaseURL :: URL

record tempoClient =
  tempoClient_BaseClientOpts :: BaseClientOpts
  tempoHttpClient :: HTTPClient
  jiraHttpClient :: HTTPClient
  tempoAuthenticator :: Authenticator
  jiraAuthenticator :: Authenticator

record HTTPRequestOpts =
  Method :: string
  Url :: string
  Auth :: Authenticator
  RequestTimeout :: Duration
  Data :: "UploadEntry option"
  Headers :: "(string \<times> string) list"

text \<open>
  The functions of Go's library and of the client package that the tempocloud client
  calls. \<open>'w\<close> is the state of the outside world (servers, network, the cancellation
  context). \<open>url.Parse\<close>, \<open>HTTPClient.URL\<close>, \<open>json.Unmarshal\<close> and the formatting of a time
  compute a value from their arguments. The constructors of the authenticators belong
  to the client package, whose code is not available, and an HTTP call reaches the
  network: they read the world and leave a new one. A call returns the response body
  or an error.
\<close>

record 'w collaborators =
  url_Parse :: "string \<Rightarrow> error + URL"
  NewTokenAuth :: "'w \<Rightarrow> string \<Rightarrow> string \<Rightarrow> string \<Rightarrow> (error + Authenticator) \<times> 'w"
  NewBasicAuth :: "'w \<Rightarrow> string \<Rightarrow> string \<Rightarrow> (error + Authenticator) \<times> 'w"
  HTTPClient_URL :: "HTTPClient \<Rightarrow> string \<Rightarrow> (string \<times> string) list \<Rightarrow> error + string"
  HTTPClient_Call :: "'w \<Rightarrow> HTTPClient \<Rightarrow> HTTPRequestOpts \<Rightarrow> (error + string) \<times> 'w"
  json_Unmarshal :: "string \<Rightarrow> error + JiraIssue"
  formatDate :: "int \<Rightarrow> string"
  formatTime :: "int \<Rightarrow> string"

text \<open>
  A \<open>client.Uploader\<close> interface value that is not nil: the provider it belongs to and
  the value it holds. The tempocloud constructor converts a \<open>*tempoClient\<close>, which is
  nil when the construction failed. The code of the tempo provider is not available;
  \<open>'t\<close> is the type of its clients.
\<close>

datatype 't Uploader = TempoUploader 't | TempoCloudUploader "tempoClient option"

section \<open>What the program does, in order\<close>

text \<open>
  What a run leaves behind, in order: the keys read from the configuration, the calls of
  \<open>url.Parse\<close> and of the constructors, the calls of the progress tracker
  (\<open>StartTracking\<close>, \<open>StopTracking\<close> of the embedded \<open>DefaultUploader\<close>), the HTTP requests
  issued, each with what the call returned, and the values sent on \<open>errChan\<close>. The
  receiver of \<open>errChan\<close> is taken to be draining it, so a send never blocks for ever, and
  each HTTP call returns.
\<close>

datatype event =
    GetString string
  | Parse string
  | NewTokenAuthCall string string string
  | NewBasicAuthCall string string
  | TempoNewUploaderCall tempo_ClientOpts
  | StartTracking Entry
  | StopTracking Entry "error option"
  | Called HTTPRequestOpts "error + string"
  | Publish "error option"

record 'w state =
  world :: 'w
  events :: "event list"

definition emit :: "event \<Rightarrow> 'w state \<Rightarrow> 'w state" where
  "emit ev s = s\<lparr> events := events s @ [ev] \<rparr>"

fun sent :: "event \<Rightarrow> error option list" where
  "sent (Publish r) = [r]"
| "sent _ = []"

text \<open>The values sent on \<open>errChan\<close> so far.\<close>

definition published :: "'w state \<Rightarrow> error option list" where
  "published s = concat (map sent (events s))"

fun started :: "event \<Rightarrow> Entry list" where
  "started (StartTracking e) = [e]"
| "started _ = []"

text \<open>The entries whose processing has begun so far.\<close>

definition attempted :: "'w state \<Rightarrow> Entry list" where
  "attempted s = concat (map started (events s))"

fun reported :: "event \<Rightarrow> (Entry \<times> error option) list" where
  "reported (StopTracking e r) = [(e, r)]"
| "reported _ = []"

text \<open>The entries whose processing has ended so far, each with the outcome handed to the tracker.\<close>

definition results :: "'w state \<Rightarrow> (Entry \<times> error option) list" where
  "results s = concat (map reported (events s))"

fun requested :: "event \<Rightarrow> (HTTPRequestOpts \<times> (error + string)) list" where
  "requested (Called req r) = [(req, r)]"
| "requested _ = []"

text \<open>The HTTP requests issued so far, each with what the call returned.\<close>

definition calls :: "'w state \<Rightarrow> (HTTPRequestOpts \<times> (error + string)) list" where
  "calls s = concat (map requested (events s))"

section \<open>The constructor of the tempocloud client\<close>

definition parse :: "'w collaborators \<Rightarrow> string \<Rightarrow> 'w state \<Rightarrow> (error + URL) \<times> 'w state" where
  "parse lib rawURL s = (url_Parse lib rawURL, emit (Parse rawURL) s)"

definition newTokenAuth ::
  "'w collaborators \<Rightarrow> string \<Rightarrow> string \<Rightarrow> string \<Rightarrow> 'w state \<Rightarrow> (error + Authenticator) \<times> 'w state" where
  "newTokenAuth lib header tokenName token s =
     (case NewTokenAuth lib (world s) header tokenName token of
        (r, w) \<Rightarrow> (r, s\<lparr> world := w, events := events s @ [NewTokenAuthCall header tokenName token] \<rparr>))"

definition newBasicAuth ::
  "'w collaborators \<Rightarrow> string \<Rightarrow> string \<Rightarrow> 'w state \<Rightarrow> (error + Authenticator) \<times> 'w state" where
  "newBasicAuth lib username password s =
     (case NewBasicAuth lib (world s) username password of
        (r, w) \<Rightarrow> (r, s\<lparr> world := w, events := events s @ [NewBasicAuthCall username password] \<rparr>))"

text \<open>\<open>newClient\<close>, lines 165 to 193, and \<open>NewUploader\<close>, lines 196 to 198.\<close>

definition newClient ::
  "'w collaborators \<Rightarrow> ClientOpts \<Rightarrow> 'w state \<Rightarrow> (tempoClient option \<times> error option) \<times> 'w state" where
  "newClient lib opts s =
     (case parse lib (TempoBaseURL opts) s of
        (Inl err, s) \<Rightarrow> ((None, Some err), s)
      | (Inr tempoBaseURL, s) \<Rightarrow>
     (case parse lib (JiraBaseURL opts) s of
        (Inl err, s) \<Rightarrow> ((None, Some err), s)
      | (Inr jiraBaseURL, s) \<Rightarrow>
     (case newTokenAuth lib (Header (TempoAuth opts)) (TokenName (TempoAuth opts)) (Token (TempoAuth opts)) s of
        (Inl err, s) \<Rightarrow> ((None, Some err), s)
      | (Inr tempoAuthenticator', s) \<Rightarrow>
     (case newBasicAuth lib (Username (JiraAuth opts)) (Password (JiraAuth opts)) s of
        (Inl err, s) \<Rightarrow> ((None, Some err), s)
      | (Inr jiraAuthenticator', s) \<Rightarrow>
          ((Some \<lparr> tempoClient_BaseClientOpts = ClientOpts_BaseClientOpts opts,
                   tempoHttpClient = \<lparr> BaseURL = tempoBaseURL \<rparr>,
                   jiraHttpClient = \<lparr> BaseURL = jiraBaseURL \<rparr>,
                   tempoAuthenticator = tempoAuthenticator',
                   jiraAuthenticator = jiraAuthenticator' \<rparr>,
            None), s)))))"

definition NewUploader ::
  "'w collaborators \<Rightarrow> ClientOpts \<Rightarrow> 'w state \<Rightarrow> ('t Uploader option \<times> error option) \<times> 'w state" where
  "NewUploader lib opts s =
     (case newClient lib opts s of ((c, err), s) \<Rightarrow> ((Some (TempoCloudUploader c), err), s))"

section \<open>Choosing the uploader (package root)\<close>

text \<open>
  \<open>viper.GetString\<close> reads the configuration, a function from keys to strings, which
  \<open>getUploader\<close> does not change. \<open>tempo.NewUploader\<close> and \<open>client.DefaultRequestTimeout\<close>
  are declared in packages whose code is not available and are parameters; what
  \<open>tempo.NewUploader\<close> does to the outside world is its own affair.
\<close>

definition viper_GetString :: "(string \<Rightarrow> string) \<Rightarrow> string \<Rightarrow> 'w state \<Rightarrow> string \<times> 'w state" where
  "viper_GetString config key s = (config key, emit (GetString key) s)"

definition tempo_NewUploader ::
  "('w \<Rightarrow> tempo_ClientOpts \<Rightarrow> ('t Uploader option \<times> error option) \<times> 'w) \<Rightarrow> tempo_ClientOpts \<Rightarrow>
   'w state \<Rightarrow> ('t Uploader option \<times> error option) \<times> 'w state" where
  "tempo_NewUploader tempo opts s =
     (case tempo (world s) opts of
        (r, w) \<Rightarrow> (r, s\<lparr> world := w, events := events s @ [TempoNewUploaderCall opts] \<rparr>))"

text \<open>
  \<open>getUploader\<close>, lines 16 to 48. The fields of a composite literal are evaluated in the
  order in which they are written.
\<close>

definition getUploader ::
  "('w \<Rightarrow> tempo_ClientOpts \<Rightarrow> ('t Uploader option \<times> error option) \<times> 'w) \<Rightarrow> 'w collaborators \<Rightarrow> Duration \<Rightarrow>
   (string \<Rightarrow> string) \<Rightarrow> 'w state \<Rightarrow> ('t Uploader option \<times> error option) \<times> 'w state" where
  "getUploader tempo lib DefaultRequestTimeout config s =
     (case viper_GetString config ''target'' s of (target, s) \<Rightarrow>
      if target = ''tempo'' then
        (case viper_GetString config ''tempo-username'' s of (username, s) \<Rightarrow>
         case viper_GetString config ''tempo-password'' s of (password, s) \<Rightarrow>
         case viper_GetString config ''tempo-url'' s of (baseURL, s) \<Rightarrow>
           tempo_NewUploader tempo
             \<lparr> tempo_BaseClientOpts = \<lparr> Timeout = DefaultRequestTimeout \<rparr>,
               tempo_BasicAuth = \<lparr> Username = username, Password = password \<rparr>,
               tempo_BaseURL = baseURL \<rparr> s)
      else if target = ''tempo-cloud'' then
        (case viper_GetString config ''tempo-api-key'' s of (token, s) \<Rightarrow>
         case viper_GetString config ''jira-username'' s of (username, s) \<Rightarrow>
         case viper_GetString config ''jira-api-key'' s of (password, s) \<Rightarrow>
         case viper_GetString config ''tempo-cloud-url'' s of (tempoBaseURL, s) \<Rightarrow>
         case viper_GetString config ''jira-url'' s of (jiraBaseURL, s) \<Rightarrow>
           NewUploader lib
             \<lparr> ClientOpts_BaseClientOpts = \<lparr> Timeout = DefaultRequestTimeout \<rparr>,
               TempoAuth = \<lparr> Header = [], TokenName = ''Bearer'', Token = token \<rparr>,
               JiraAuth = \<lparr> Username = username, Password = password \<rparr>,
               TempoBaseURL = tempoBaseURL,
               JiraBaseURL = jiraBaseURL \<rparr> s)
      else ((None, Some ErrNoTargetImplementation), s))"

section \<open>Uploading entries (package tempocloud)\<close>

definition TempoPathWorklogCreate :: string where
  "TempoPathWorklogCreate = ''/4/worklogs''"

definition JiraPathIssue :: string where
  "JiraPathIssue = ''/rest/api/3/issue/''"

definition call :: "'w collaborators \<Rightarrow> HTTPClient \<Rightarrow> HTTPRequestOpts \<Rightarrow> 'w state \<Rightarrow> (error + string) \<times> 'w state" where
  "call lib hc req s =
     (case HTTPClient_Call lib (world s) hc req of
        (r, w) \<Rightarrow> (r, s\<lparr> world := w, events := events s @ [Called req r] \<rparr>))"

text \<open>The body of the inner loop, lines 87 to 159, for one entry.\<close>

definition loopBody ::
  "'w collaborators \<Rightarrow> tempoClient \<Rightarrow> UploadOpts \<Rightarrow> string \<Rightarrow> string \<Rightarrow> 'w state \<Rightarrow> Entry \<Rightarrow> 'w state" where
  "loopBody lib c opts createURL getIssueURL s entry =
     (let s = emit (StartTracking entry) s;
          issueKey = Name (Task entry)
      in case call lib (jiraHttpClient c)
                \<lparr> Method = ''GET'', Url = getIssueURL @ issueKey, Auth = jiraAuthenticator c,
                  RequestTimeout = Timeout (tempoClient_BaseClientOpts c), Data = None,
                  Headers = [(''Content-Type'', ''application/json'')] \<rparr> s of
           (Inl err, s) \<Rightarrow>
             (let err = Errorf3 ErrUploadEntries issueKey err
              in emit (Publish (Some err)) (emit (StopTracking entry (Some err)) s))
         | (Inr resp, s) \<Rightarrow>
             (case json_Unmarshal lib resp of
                Inl err \<Rightarrow>
                  (let err = Errorf2 ErrFetchEntries err
                   in emit (Publish (Some err)) (emit (StopTracking entry (Some err)) s))
              | Inr issue \<Rightarrow>
                  (let uploadEntry = buildUploadEntry (formatDate lib) (formatTime lib) opts entry issue
                   in case call lib (tempoHttpClient c)
                             \<lparr> Method = ''POST'', Url = createURL, Auth = tempoAuthenticator c,
                               RequestTimeout = Timeout (tempoClient_BaseClientOpts c),
                               Data = Some uploadEntry,
                               Headers = [(''Content-Type'', ''application/json'')] \<rparr> s of
                        (r, s) \<Rightarrow>
                          (let err = (case r of
                                        Inl err \<Rightarrow> Some (ErrorfPayload ErrUploadEntries uploadEntry err)
                                      | Inr _ \<Rightarrow> None)
                           in emit (Publish err) (emit (StopTracking entry err) s)))))"

text \<open>The goroutine started for one group: the inner loop over the entries of the group.\<close>

fun groupTask ::
  "'w collaborators \<Rightarrow> tempoClient \<Rightarrow> UploadOpts \<Rightarrow> string \<Rightarrow> string \<Rightarrow> 'w state \<Rightarrow> Entry list \<Rightarrow> 'w state" where
  "groupTask lib c opts createURL getIssueURL s [] = s"
| "groupTask lib c opts createURL getIssueURL s (entry # entries) =
     groupTask lib c opts createURL getIssueURL (loopBody lib c opts createURL getIssueURL s entry) entries"

text \<open>
  Modelled from the spec: \<open>Entries.GroupByTask\<close> of the worklog package, whose code is
  not available. The spec (4.3) makes it a partition of the entries into groups keyed
  by the task identifier, each group keeping the order of its entries, every entry in
  exactly one group. The order of the groups is of no account: Go ranges over them in
  an unspecified order and each group gets a goroutine of its own.
\<close>

fun insertGroup :: "Entry \<Rightarrow> (string \<times> Entry list) list \<Rightarrow> (string \<times> Entry list) list" where
  "insertGroup e [] = [(ID (Task e), [e])]"
| "insertGroup e ((k, es) # groups) =
     (if k = ID (Task e) then (k, es @ [e]) # groups else (k, es) # insertGroup e groups)"

definition GroupByTask :: "Entry list \<Rightarrow> (string \<times> Entry list) list" where
  "GroupByTask entries = foldl (\<lambda>groups e. insertGroup e groups) [] entries"

text \<open>
  The two requests of the loop body, lines 90 to 98 and 143 to 152.
\<close>

definition getIssueRequest :: "tempoClient \<Rightarrow> string \<Rightarrow> Entry \<Rightarrow> HTTPRequestOpts" where
  "getIssueRequest c getIssueURL entry =
     \<lparr> Method = ''GET'', Url = getIssueURL @ Name (Task entry), Auth = jiraAuthenticator c,
       RequestTimeout = Timeout (tempoClient_BaseClientOpts c), Data = None,
       Headers = [(''Content-Type'', ''application/json'')] \<rparr>"

definition createRequest :: "tempoClient \<Rightarrow> string \<Rightarrow> UploadEntry \<Rightarrow> HTTPRequestOpts" where
  "createRequest c createURL uploadEntry =
     \<lparr> Method = ''POST'', Url = createURL, Auth = tempoAuthenticator c,
       RequestTimeout = Timeout (tempoClient_BaseClientOpts c), Data = Some uploadEntry,
       Headers = [(''Content-Type'', ''application/json'')] \<rparr>"

text \<open>
  Where a goroutine stands in its loop, with its local variables: at the head of the
  loop (line 86), before the lookup of the issue (line 90, \<open>StartTracking\<close> done), before
  the upload request (line 143, with the response \<open>resp\<close> of the lookup and the payload
  built from it), before \<open>StopTracking\<close> (lines 102, 113 and 158) and before the send on
  \<open>errChan\<close> (lines 103, 114 and 159). From \<open>StopTracking\<close> on, the position keeps, next
  to \<open>err\<close>, what the lookup and the upload request of the entry returned (\<open>None\<close> for an
  upload request that was not made).
\<close>

datatype position =
    LoopHead
  | BeforeLookup Entry
  | BeforeUpload Entry string UploadEntry
  | BeforeStopTracking Entry "error + string" "(error + string) option" "error option"
  | BeforeSend Entry "error + string" "(error + string) option" "error option"

text \<open>
  A goroutine that has been started: the two URLs captured by its closure, the entries
  its loop has still to take up, and where it stands.
\<close>

record goroutine =
  createURL_of :: string
  getIssueURL_of :: string
  pending :: "Entry list"
  position :: position

text \<open>
  \<open>UploadEntries\<close>, lines 72 to 163: the state when the call returns and the goroutines
  it has started. A goroutine started early may run while the later ones are being
  started; as starting a goroutine touches nothing the others see, this is the same as
  its running after the call has returned.
\<close>

definition UploadEntries ::
  "'w collaborators \<Rightarrow> tempoClient \<Rightarrow> Entry list \<Rightarrow> UploadOpts \<Rightarrow> 'w state \<Rightarrow> 'w state \<times> goroutine list" where
  "UploadEntries lib c entries opts s =
     (case HTTPClient_URL lib (tempoHttpClient c) TempoPathWorklogCreate [] of
        Inl err \<Rightarrow> (emit (Publish (Some (Errorf2 ErrUploadEntries err))) s, [])
      | Inr createURL \<Rightarrow>
     (case HTTPClient_URL lib (jiraHttpClient c) JiraPathIssue [] of
        Inl err \<Rightarrow> (emit (Publish (Some (Errorf2 ErrUploadEntries err))) s, [])
      | Inr getIssueURL \<Rightarrow>
          (s, map (\<lambda>(key, groupEntries).
                     \<lparr> createURL_of = createURL, getIssueURL_of = getIssueURL, pending = groupEntries,
                       position = LoopHead \<rparr>)
                (GroupByTask entries))))"

text \<open>
  One step of a goroutine: the next thing it does that the others can see
  (\<open>StartTracking\<close>, an HTTP call, \<open>StopTracking\<close>, the send on \<open>errChan\<close>), together with
  the computation on its own variables that follows, up to the next such thing. A
  goroutine at the head of its loop with no entry left has returned and does nothing.
  An HTTP call is one step: the world answers the calls one at a time, in some order.
\<close>

definition step ::
  "'w collaborators \<Rightarrow> tempoClient \<Rightarrow> UploadOpts \<Rightarrow> goroutine \<Rightarrow> 'w state \<Rightarrow> 'w state \<times> goroutine" where
  "step lib c opts g s =
     (case position g of
        LoopHead \<Rightarrow>
          (case pending g of
             [] \<Rightarrow> (s, g)
           | entry # rest \<Rightarrow>
               (emit (StartTracking entry) s, g\<lparr> pending := rest, position := BeforeLookup entry \<rparr>))
      | BeforeLookup entry \<Rightarrow>
          (let issueKey = Name (Task entry)
           in case call lib (jiraHttpClient c) (getIssueRequest c (getIssueURL_of g) entry) s of
                (Inl err, s) \<Rightarrow>
                  (s, g\<lparr> position := BeforeStopTracking entry (Inl err) None
                                       (Some (Errorf3 ErrUploadEntries issueKey err)) \<rparr>)
              | (Inr resp, s) \<Rightarrow>
                  (case json_Unmarshal lib resp of
                     Inl err \<Rightarrow>
                       (s, g\<lparr> position := BeforeStopTracking entry (Inr resp) None
                                            (Some (Errorf2 ErrFetchEntries err)) \<rparr>)
                   | Inr issue \<Rightarrow>
                       (s, g\<lparr> position := BeforeUpload entry resp
                                            (buildUploadEntry (formatDate lib) (formatTime lib) opts entry issue) \<rparr>)))
      | BeforeUpload entry resp uploadEntry \<Rightarrow>
          (case call lib (tempoHttpClient c) (createRequest c (createURL_of g) uploadEntry) s of
             (r, s) \<Rightarrow>
               (s, g\<lparr> position := BeforeStopTracking entry (Inr resp) (Some r)
                                    (case r of
                                       Inl err \<Rightarrow> Some (ErrorfPayload ErrUploadEntries uploadEntry err)
                                     | Inr _ \<Rightarrow> None) \<rparr>))
      | BeforeStopTracking entry got posted err \<Rightarrow>
          (emit (StopTracking entry err) s, g\<lparr> position := BeforeSend entry got posted err \<rparr>)
      | BeforeSend entry got posted err \<Rightarrow>
          (emit (Publish err) s, g\<lparr> position := LoopHead \<rparr>))"

text \<open>
  The goroutines run concurrently. A schedule is the order in which they get to take
  their steps: the number \<open>i\<close> lets goroutine \<open>i\<close> take its next step (and does nothing
  when that goroutine does not exist). Every interleaving of the steps of the
  goroutines is the run of some schedule.
\<close>

fun run ::
  "'w collaborators \<Rightarrow> tempoClient \<Rightarrow> UploadOpts \<Rightarrow> nat list \<Rightarrow> 'w state \<times> goroutine list \<Rightarrow>
   'w state \<times> goroutine list" where
  "run lib c opts [] cfg = cfg"
| "run lib c opts (i # schedule) (s, gs) =
     (if i < length gs then
        (case step lib c opts (gs ! i) s of
           (s', g') \<Rightarrow> run lib c opts schedule (s', gs[i := g']))
      else run lib c opts schedule (s, gs))"

text \<open>All the goroutines have returned.\<close>

definition finished :: "goroutine list \<Rightarrow> bool" where
  "finished gs = list_all (\<lambda>g. pending g = [] \<and> position g = LoopHead) gs"

section \<open>The course of one entry\<close>

text \<open>
  What happened to one entry: the entry, what its lookup returned and what its upload
  request returned (\<open>None\<close> when the request was not made).
\<close>

type_synonym history = "Entry \<times> (error + string) \<times> (error + string) option"

text \<open>The payload built for an entry from what its lookup returned, when the issue could be decoded.\<close>

definition uploadEntryOf :: "'w collaborators \<Rightarrow> UploadOpts \<Rightarrow> Entry \<Rightarrow> error + string \<Rightarrow> UploadEntry option" where
  "uploadEntryOf lib opts entry got =
     (case got of
        Inl err \<Rightarrow> None
      | Inr resp \<Rightarrow>
          (case json_Unmarshal lib resp of
             Inl err \<Rightarrow> None
           | Inr issue \<Rightarrow> Some (buildUploadEntry (formatDate lib) (formatTime lib) opts entry issue)))"

text \<open>The upload request was made if and only if there was a payload to send.\<close>

definition wellFormed :: "'w collaborators \<Rightarrow> UploadOpts \<Rightarrow> history \<Rightarrow> bool" where
  "wellFormed lib opts h =
     (case h of (entry, got, posted) \<Rightarrow> (posted = None) = (uploadEntryOf lib opts entry got = None))"

text \<open>The value that the loop body hands to the tracker and sends on \<open>errChan\<close>.\<close>

definition verdict :: "'w collaborators \<Rightarrow> UploadOpts \<Rightarrow> history \<Rightarrow> error option" where
  "verdict lib opts h =
     (case h of (entry, got, posted) \<Rightarrow>
        (case got of
           Inl err \<Rightarrow> Some (Errorf3 ErrUploadEntries (Name (Task entry)) err)
         | Inr resp \<Rightarrow>
             (case json_Unmarshal lib resp of
                Inl err \<Rightarrow> Some (Errorf2 ErrFetchEntries err)
              | Inr issue \<Rightarrow>
                  (case posted of
                     Some (Inl err) \<Rightarrow>
                       Some (ErrorfPayload ErrUploadEntries
                               (buildUploadEntry (formatDate lib) (formatTime lib) opts entry issue) err)
                   | _ \<Rightarrow> None))))"

text \<open>The lookup, the decoding and the upload request of the entry all went well.\<close>

definition succeeded :: "'w collaborators \<Rightarrow> history \<Rightarrow> bool" where
  "succeeded lib h =
     (case h of (entry, got, posted) \<Rightarrow>
        (case got of
           Inl err \<Rightarrow> False
         | Inr resp \<Rightarrow>
             (case json_Unmarshal lib resp of
                Inl err \<Rightarrow> False
              | Inr issue \<Rightarrow> (case posted of Some (Inr body) \<Rightarrow> True | _ \<Rightarrow> False))))"

text \<open>The events of an entry, in the order of the loop body.\<close>

definition uploadEvents ::
  "'w collaborators \<Rightarrow> tempoClient \<Rightarrow> UploadOpts \<Rightarrow> string \<Rightarrow> history \<Rightarrow> event list" where
  "uploadEvents lib c opts createURL h =
     (case h of (entry, got, posted) \<Rightarrow>
        (case (uploadEntryOf lib opts entry got, posted) of
           (Some uploadEntry, Some r) \<Rightarrow> [Called (createRequest c createURL uploadEntry) r]
         | _ \<Rightarrow> []))"

definition trace ::
  "'w collaborators \<Rightarrow> tempoClient \<Rightarrow> UploadOpts \<Rightarrow> string \<Rightarrow> string \<Rightarrow> history \<Rightarrow> event list" where
  "trace lib c opts createURL getIssueURL h =
     (case h of (entry, got, posted) \<Rightarrow>
        [StartTracking entry, Called (getIssueRequest c getIssueURL entry) got] @
        uploadEvents lib c opts createURL h @
        [StopTracking entry (verdict lib opts h), Publish (verdict lib opts h)])"

section \<open>Counting the work left\<close>

text \<open>The entry a goroutine is busy with, if any.\<close>

fun busy :: "position \<Rightarrow> Entry list" where
  "busy LoopHead = []"
| "busy (BeforeLookup entry) = [entry]"
| "busy (BeforeUpload entry resp uploadEntry) = [entry]"
| "busy (BeforeStopTracking entry got posted err) = [entry]"
| "busy (BeforeSend entry got posted err) = [entry]"

text \<open>The entries the goroutines have still to finish: those not taken up yet and those in the works.\<close>

definition unfinished :: "goroutine list \<Rightarrow> Entry multiset" where
  "unfinished gs = mset (concat (map (\<lambda>g. busy (position g) @ pending g) gs))"

text \<open>The events a goroutine has left behind for the entry it is busy with.\<close>

definition underway ::
  "'w collaborators \<Rightarrow> tempoClient \<Rightarrow> UploadOpts \<Rightarrow> goroutine \<Rightarrow> event list" where
  "underway lib c opts g =
     (case position g of
        LoopHead \<Rightarrow> []
      | BeforeLookup entry \<Rightarrow> [StartTracking entry]
      | BeforeUpload entry resp uploadEntry \<Rightarrow>
          [StartTracking entry, Called (getIssueRequest c (getIssueURL_of g) entry) (Inr resp)]
      | BeforeStopTracking entry got posted err \<Rightarrow>
          [StartTracking entry, Called (getIssueRequest c (getIssueURL_of g) entry) got] @
          uploadEvents lib c opts (createURL_of g) (entry, got, posted)
      | BeforeSend entry got posted err \<Rightarrow>
          [StartTracking entry, Called (getIssueRequest c (getIssueURL_of g) entry) got] @
          uploadEvents lib c opts (createURL_of g) (entry, got, posted) @
          [StopTracking entry err])"

text \<open>What the position of a goroutine says about its local variables.\<close>

definition coherent :: "'w collaborators \<Rightarrow> UploadOpts \<Rightarrow> goroutine \<Rightarrow> bool" where
  "coherent lib opts g =
     (case position g of
        LoopHead \<Rightarrow> True
      | BeforeLookup entry \<Rightarrow> True
      | BeforeUpload entry resp uploadEntry \<Rightarrow> uploadEntryOf lib opts entry (Inr resp) = Some uploadEntry
      | BeforeStopTracking entry got posted err \<Rightarrow>
          wellFormed lib opts (entry, got, posted) \<and> err = verdict lib opts (entry, got, posted)
      | BeforeSend entry got posted err \<Rightarrow>
          wellFormed lib opts (entry, got, posted) \<and> err = verdict lib opts (entry, got, posted))"

text \<open>The number of steps the goroutines have still to take.\<close>

fun stepsLeft :: "position \<Rightarrow> nat" where
  "stepsLeft LoopHead = 0"
| "stepsLeft (BeforeLookup entry) = 4"
| "stepsLeft (BeforeUpload entry resp uploadEntry) = 3"
| "stepsLeft (BeforeStopTracking entry got posted err) = 2"
| "stepsLeft (BeforeSend entry got posted err) = 1"

definition remaining :: "goroutine list \<Rightarrow> nat" where
  "remaining gs = sum_list (map (\<lambda>g. 5 * length (pending g) + stepsLeft (position g)) gs)"

section \<open>Concrete inputs\<close>

text \<open>
  Stand-ins for the collaborators, to run the definitions on concrete inputs. The world
  is a counter of the HTTP calls made so far; every third call fails. Building a URL
  fails for a client whose base URL is empty. The constructors of the authenticators
  leave the world alone.
\<close>

definition exampleLib :: "nat collaborators" where
  "exampleLib =
     \<lparr> url_Parse = (\<lambda>u. if u = [] then Inl (ExternalError ''empty url'') else Inr (URL u)),
       NewTokenAuth = (\<lambda>w header name token. (Inr (Authenticator (name @ '' '' @ token)), w)),
       NewBasicAuth = (\<lambda>w user password. (Inr (Authenticator (user @ '':'' @ password)), w)),
       HTTPClient_URL = (\<lambda>hc path params.
          case BaseURL hc of URL b \<Rightarrow> if b = [] then Inl (ExternalError ''no base URL'') else Inr (b @ path)),
       HTTPClient_Call = (\<lambda>w hc req.
          (if w mod 3 = 2 then Inl (ExternalError ''timeout'') else Inr ''{}'', Suc w)),
       json_Unmarshal = (\<lambda>resp.
          if resp = ''{}'' then Inr \<lparr> JiraID = 10001, JiraKey = ''CPT'' \<rparr>
          else Inl (ExternalError ''unexpected end of JSON input'')),
       formatDate = (\<lambda>t. ''2021-10-02''),
       formatTime = (\<lambda>t. ''00:00:00'') \<rparr>"

definition exampleClient :: tempoClient where
  "exampleClient =
     \<lparr> tempoClient_BaseClientOpts = \<lparr> Timeout = 30 * Second \<rparr>,
       tempoHttpClient = \<lparr> BaseURL = URL ''https://api.tempo.io'' \<rparr>,
       jiraHttpClient = \<lparr> BaseURL = URL ''https://jira.example.com'' \<rparr>,
       tempoAuthenticator = Authenticator ''Bearer token'',
       jiraAuthenticator = Authenticator ''thor:secret'' \<rparr>"

text \<open>A client for which no URL can be built: its base URLs are empty.\<close>

definition brokenClient :: tempoClient where
  "brokenClient =
     exampleClient\<lparr> tempoHttpClient := \<lparr> BaseURL = URL [] \<rparr>, jiraHttpClient := \<lparr> BaseURL = URL [] \<rparr> \<rparr>"

definition exampleOpts :: UploadOpts where
  "exampleOpts = \<lparr> User = ''steve-rogers'', TreatDurationAsBilled = False, RoundToClosestMinute = False \<rparr>"

text \<open>Three entries, two of them on the task of \<open>exampleEntry\<close> and one on another task.\<close>

definition exampleEntries :: "Entry list" where
  "exampleEntries =
     [exampleEntry,
      exampleEntry\<lparr> Task := \<lparr> ID = ''790'', Name = ''CPT-2015'' \<rparr> \<rparr>,
      exampleEntry\<lparr> Notes := ''again'' \<rparr>]"

definition exampleState :: "nat state" where
  "exampleState = \<lparr> world = 0, events = [] \<rparr>"

definition exampleIssue :: JiraIssue where
  "exampleIssue = \<lparr> JiraID = 10001, JiraKey = ''CPT'' \<rparr>"

definition exampleConfig :: "string \<Rightarrow> string \<Rightarrow> string" where
  "exampleConfig target key = (if key = ''target'' then target else key)"

text \<open>A stand-in for \<open>tempo.NewUploader\<close> that reaches the network once.\<close>

definition exampleTempoNewUploader ::
  "nat \<Rightarrow> tempo_ClientOpts \<Rightarrow> (string Uploader option \<times> error option) \<times> nat" where
  "exampleTempoNewUploader w opts = ((Some (TempoUploader (tempo_BaseURL opts)), None), Suc w)"

section \<open>Facts about the float64 model\<close>

text \<open>
  Rounding to 53 bits never crosses a number that is itself representable at the
  precision of the argument: this gives the exactness of integers below \<open>2^53\<close> and
  the bounds used for the minute rounding.
\<close>

lemma pow2_powi: "pow2 e = 2 powi e"
  by (simp add: pow2_def power_int_def inverse_eq_divide power_one_over)

lemma pow2_pos: "0 < pow2 e"
  by (simp add: pow2_powi)

lemma pow2_nat: "0 \<le> e \<Longrightarrow> pow2 e = of_int (2 ^ nat e)"
  by (simp add: pow2_def)

lemma pow2_diff: "pow2 (a - b) = pow2 a / pow2 b"
  by (simp add: pow2_powi power_int_diff)

lemma pow2_mono: "a \<le> b \<Longrightarrow> pow2 a \<le> pow2 b"
  by (simp add: pow2_powi power_int_increasing)

lemma pow2_less_cancel: "pow2 a < pow2 b \<Longrightarrow> a < b"
  using pow2_mono [of b a] by (cases "a < b") auto

lemma quotient_of_abs:
  assumes "x \<noteq> 0" "quotient_of \<bar>x\<bar> = (p, q)"
  shows "0 < p" "0 < q" "\<bar>x\<bar> = of_int p / of_int q"
proof -
  show q: "0 < q" using assms(2) by (rule quotient_of_denom_pos)
  show eq: "\<bar>x\<bar> = of_int p / of_int q" using assms(2) by (rule quotient_of_div)
  have "0 < \<bar>x\<bar>" using assms(1) by simp
  then have "0 < (of_int p :: rat) / of_int q" using eq by simp
  then show "0 < p" using q by (simp add: zero_less_divide_iff)
qed

lemma pow2_ilog2_le:
  assumes "x \<noteq> 0"
  shows "pow2 (ilog2 x) \<le> \<bar>x\<bar>"
proof -
  obtain p q where pq: "quotient_of \<bar>x\<bar> = (p, q)" by (cases "quotient_of \<bar>x\<bar>")
  note f = quotient_of_abs [OF assms pq]
  let ?d = "bitlen p - bitlen q"
  show ?thesis
  proof (cases "pow2 ?d \<le> \<bar>x\<bar>")
    case True
    then show ?thesis by (simp add: ilog2_def pq)
  next
    case False
    then have il: "ilog2 x = ?d - 1" by (simp add: ilog2_def pq)
    have bp: "2 ^ nat (bitlen p - 1) \<le> p" using bitlen_bounds [OF f(1)] by simp
    have bq: "q < 2 ^ nat (bitlen q)" using bitlen_bounds [OF f(2)] by simp
    have p1: "1 \<le> bitlen p" using f(1) bitlen_nonneg [of p] bitlen_eq_zero_iff [of p] by force
    have "pow2 (?d - 1) = pow2 (bitlen p - 1) / pow2 (bitlen q)"
      using pow2_diff [of "bitlen p - 1" "bitlen q"] by (simp add: algebra_simps)
    also have "\<dots> = of_int (2 ^ nat (bitlen p - 1)) / of_int (2 ^ nat (bitlen q))"
      using p1 bitlen_nonneg [of q] by (simp add: pow2_nat)
    also have "\<dots> \<le> of_int p / of_int q"
    proof (rule frac_le)
      show "(0::rat) \<le> of_int p" using f(1) by simp
      show "(of_int (2 ^ nat (bitlen p - 1)) :: rat) \<le> of_int p" using bp by (simp only: of_int_le_iff)
      show "(0::rat) < of_int q" using f(2) by simp
      show "(of_int q :: rat) \<le> of_int (2 ^ nat (bitlen q))" using bq by (simp only: of_int_le_iff)
    qed
    finally show ?thesis using il f(3) by simp
  qed
qed

lemma ilog2_le: "x \<noteq> 0 \<Longrightarrow> \<bar>x\<bar> < pow2 (e + 1) \<Longrightarrow> ilog2 x \<le> e"
  using pow2_ilog2_le [of x] pow2_less_cancel [of "ilog2 x" "e + 1"] by simp

lemma round_half_even_le: "y \<le> of_int m \<Longrightarrow> round_half_even y \<le> m"
  unfolding round_half_even_def Let_def
  by (auto split: if_splits; linarith)

lemma round_half_even_ge: "of_int m \<le> y \<Longrightarrow> m \<le> round_half_even y"
  unfolding round_half_even_def Let_def
  by (auto split: if_splits; linarith)


lemma pow2_int_multiple:
  assumes "j \<le> k"
  shows "of_int m * pow2 k / pow2 j = of_int (m * 2 ^ nat (k - j))"
proof -
  have "of_int m * pow2 k / pow2 j = of_int m * pow2 (k - j)"
    by (simp add: pow2_diff)
  also have "\<dots> = of_int (m * 2 ^ nat (k - j))"
    using assms by (simp add: pow2_nat)
  finally show ?thesis .
qed

lemma pow2_int_multiple':
  assumes "j \<le> k"
  shows "of_int (m * 2 ^ nat (k - j)) * pow2 j = of_int m * pow2 k"
proof -
  have "pow2 k = pow2 (k - j) * pow2 j"
    using pow2_pos [of j] by (simp add: pow2_diff)
  then show ?thesis using assms by (simp add: pow2_nat)
qed

lemma f64_le:
  assumes le: "x \<le> of_int m * pow2 k" and mag: "\<bar>x\<bar> < pow2 (e + 1)" and ek: "e - 52 \<le> k"
  shows "f64 x \<le> of_int m * pow2 k"
proof (cases "x = 0")
  case True
  then show ?thesis using le by (simp add: f64_def)
next
  case False
  let ?j = "ilog2 x - 52"
  have j: "?j \<le> k" using ilog2_le [OF False mag] ek by simp
  have "x / pow2 ?j \<le> of_int m * pow2 k / pow2 ?j"
    using le pow2_pos [of ?j] by (simp add: divide_right_mono)
  then have "x / pow2 ?j \<le> of_int (m * 2 ^ nat (k - ?j))"
    by (simp only: pow2_int_multiple [OF j])
  then have "round_half_even (x / pow2 ?j) \<le> m * 2 ^ nat (k - ?j)"
    by (rule round_half_even_le)
  then have "(of_int (round_half_even (x / pow2 ?j)) :: rat) \<le> of_int (m * 2 ^ nat (k - ?j))"
    by (simp only: of_int_le_iff)
  then have "of_int (round_half_even (x / pow2 ?j)) * pow2 ?j \<le> of_int (m * 2 ^ nat (k - ?j)) * pow2 ?j"
    using pow2_pos [of ?j] by (simp add: mult_right_mono)
  also have "of_int (m * 2 ^ nat (k - ?j)) * pow2 ?j = of_int m * pow2 k"
    by (rule pow2_int_multiple' [OF j])
  finally show ?thesis using False by (simp add: f64_def Let_def)
qed

lemma f64_ge:
  assumes le: "of_int m * pow2 k \<le> x" and mag: "\<bar>x\<bar> < pow2 (e + 1)" and ek: "e - 52 \<le> k"
  shows "of_int m * pow2 k \<le> f64 x"
proof (cases "x = 0")
  case True
  then show ?thesis using le by (simp add: f64_def)
next
  case False
  let ?j = "ilog2 x - 52"
  have j: "?j \<le> k" using ilog2_le [OF False mag] ek by simp
  have "of_int m * pow2 k / pow2 ?j \<le> x / pow2 ?j"
    using le pow2_pos [of ?j] by (simp add: divide_right_mono)
  then have "of_int (m * 2 ^ nat (k - ?j)) \<le> x / pow2 ?j"
    by (simp only: pow2_int_multiple [OF j])
  then have "m * 2 ^ nat (k - ?j) \<le> round_half_even (x / pow2 ?j)"
    by (rule round_half_even_ge)
  then have "(of_int (m * 2 ^ nat (k - ?j)) :: rat) \<le> of_int (round_half_even (x / pow2 ?j))"
    by (simp only: of_int_le_iff)
  then have "of_int (m * 2 ^ nat (k - ?j)) * pow2 ?j \<le> of_int (round_half_even (x / pow2 ?j)) * pow2 ?j"
    using pow2_pos [of ?j] by (simp add: mult_right_mono)
  then have "of_int m * pow2 k \<le> of_int (round_half_even (x / pow2 ?j)) * pow2 ?j"
    by (simp only: pow2_int_multiple' [OF j])
  then show ?thesis using False by (simp add: f64_def Let_def)
qed

lemma f64_of_int:
  assumes "\<bar>n\<bar> < 2 ^ 53"
  shows "f64 (of_int n) = of_int n"
proof -
  have mag: "\<bar>of_int n :: rat\<bar> < pow2 (52 + 1)"
  proof -
    have "(of_int \<bar>n\<bar> :: rat) < of_int (2 ^ 53)" using assms by (simp only: of_int_less_iff)
    then show ?thesis by (simp add: pow2_def)
  qed
  have "f64 (of_int n) \<le> of_int n * pow2 0"
    by (rule f64_le [OF _ mag]) (simp_all add: pow2_def)
  moreover have "of_int n * pow2 0 \<le> f64 (of_int n)"
    by (rule f64_ge [OF _ mag]) (simp_all add: pow2_def)
  ultimately show ?thesis by (simp add: pow2_def)
qed

text \<open>
  The model is the rounding of the format: \<open>ilog2\<close> is the binary exponent, and \<open>f64 x\<close>
  has a significand of 53 bits and lies within half a unit in the last place of \<open>x\<close>.
\<close>

lemma ilog2_less:
  assumes "x \<noteq> 0"
  shows "\<bar>x\<bar> < pow2 (ilog2 x + 1)"
proof -
  obtain p q where pq: "quotient_of \<bar>x\<bar> = (p, q)" by (cases "quotient_of \<bar>x\<bar>")
  note f = quotient_of_abs [OF assms pq]
  let ?d = "bitlen p - bitlen q"
  show ?thesis
  proof (cases "pow2 ?d \<le> \<bar>x\<bar>")
    case False
    then show ?thesis by (simp add: ilog2_def pq)
  next
    case True
    then have il: "ilog2 x = ?d" by (simp add: ilog2_def pq)
    have bp: "p < 2 ^ nat (bitlen p)" using bitlen_bounds [OF f(1)] by simp
    have bq: "2 ^ nat (bitlen q - 1) \<le> q" using bitlen_bounds [OF f(2)] by simp
    have q1: "1 \<le> bitlen q" using f(2) bitlen_nonneg [of q] bitlen_eq_zero_iff [of q] by force
    have "of_int p / of_int q < (of_int (2 ^ nat (bitlen p)) :: rat) / of_int (2 ^ nat (bitlen q - 1))"
    proof (rule frac_less)
      show "(0::rat) \<le> of_int p" using f(1) by simp
      show "(of_int p :: rat) < of_int (2 ^ nat (bitlen p))" using bp by (simp only: of_int_less_iff)
      show "(0::rat) < of_int (2 ^ nat (bitlen q - 1))" by simp
      show "(of_int (2 ^ nat (bitlen q - 1)) :: rat) \<le> of_int q" using bq by (simp only: of_int_le_iff)
    qed
    also have "\<dots> = pow2 (bitlen p) / pow2 (bitlen q - 1)"
      using q1 bitlen_nonneg [of p] by (simp add: pow2_nat)
    also have "\<dots> = pow2 (?d + 1)"
      using pow2_diff [of "bitlen p" "bitlen q - 1"] by (simp add: algebra_simps)
    finally show ?thesis using il f(3) by simp
  qed
qed

lemma round_half_even_near: "\<bar>of_int (round_half_even y) - y\<bar> \<le> 1 / 2"
proof -
  have "of_int \<lfloor>y\<rfloor> \<le> y" "y < of_int \<lfloor>y\<rfloor> + 1" by linarith+
  then show ?thesis
    unfolding round_half_even_def Let_def by (auto simp: abs_le_iff)
qed

lemma f64_nearest:
  assumes "x \<noteq> 0"
  defines "u \<equiv> pow2 (ilog2 x - 52)"
  shows "\<exists>m. f64 x = of_int m * u \<and> 2 ^ 52 \<le> \<bar>m\<bar> \<and> \<bar>m\<bar> \<le> 2 ^ 53 \<and> \<bar>f64 x - x\<bar> \<le> u / 2"
proof -
  let ?m = "round_half_even (x / u)"
  have u: "0 < u" unfolding u_def by (rule pow2_pos)
  have "pow2 (ilog2 x) = pow2 52 * u"
    using pow2_diff [of "ilog2 x" 52] pow2_pos [of 52] unfolding u_def by (simp add: field_simps)
  then have lo: "of_int (2 ^ 52) * u \<le> \<bar>x\<bar>"
    using pow2_ilog2_le [OF assms(1)] by (simp add: pow2_def)
  have "pow2 (ilog2 x + 1) = pow2 53 * u"
    using pow2_diff [of "ilog2 x + 1" 53] pow2_pos [of 53] unfolding u_def by (simp add: field_simps)
  then have hi: "\<bar>x\<bar> < of_int (2 ^ 53) * u"
    using ilog2_less [OF assms(1)] by (simp add: pow2_def)
  have a: "\<bar>x / u\<bar> = \<bar>x\<bar> / u" using u by simp
  have lo': "of_int (2 ^ 52) \<le> \<bar>x / u\<bar>" unfolding a using lo u by (simp add: field_simps)
  have hi': "\<bar>x / u\<bar> \<le> of_int (2 ^ 53)" unfolding a using hi u by (simp add: field_simps)
  have m_lo: "2 ^ 52 \<le> \<bar>?m\<bar>"
  proof (cases "0 \<le> x / u")
    case True
    then have "of_int (2 ^ 52) \<le> x / u" using lo' by simp
    then have "2 ^ 52 \<le> ?m" by (rule round_half_even_ge)
    then show ?thesis by simp
  next
    case False
    then have "x / u \<le> of_int (- (2 ^ 52))" using lo' by simp
    then have "?m \<le> - (2 ^ 52)" by (rule round_half_even_le)
    then show ?thesis by simp
  qed
  have m_hi: "\<bar>?m\<bar> \<le> 2 ^ 53"
  proof -
    have h1: "x / u \<le> of_int (2 ^ 53)" using hi' by (rule abs_le_D1)
    have "- (x / u) \<le> of_int (2 ^ 53)" using hi' by (rule abs_le_D2)
    then have h2: "of_int (- (2 ^ 53)) \<le> x / u" by simp
    have "?m \<le> 2 ^ 53" using h1 by (rule round_half_even_le)
    moreover have "- (2 ^ 53) \<le> ?m" using h2 by (rule round_half_even_ge)
    ultimately have "?m \<le> 2 ^ 53" "- (2 ^ 53) \<le> ?m" by simp_all
    then show ?thesis by simp
  qed
  have "\<bar>of_int ?m - x / u\<bar> \<le> 1 / 2" by (rule round_half_even_near)
  then have "\<bar>of_int ?m - x / u\<bar> * u \<le> 1 / 2 * u" using u by (simp add: mult_right_mono)
  moreover have "\<bar>of_int ?m - x / u\<bar> * u = \<bar>of_int ?m * u - x\<bar>"
  proof -
    have "\<bar>of_int ?m - x / u\<bar> * u = \<bar>of_int ?m - x / u\<bar> * \<bar>u\<bar>" using u by simp
    also have "\<dots> = \<bar>(of_int ?m - x / u) * u\<bar>" by (simp only: abs_mult)
    also have "(of_int ?m - x / u) * u = of_int ?m * u - x" using u by (simp add: field_simps)
    finally show ?thesis .
  qed
  ultimately have near: "\<bar>of_int ?m * u - x\<bar> \<le> u / 2" by simp
  have "f64 x = of_int ?m * u" using assms(1) by (simp add: f64_def Let_def u_def)
  then show ?thesis using m_lo m_hi near by auto
qed

section \<open>Facts about durations and the minute rounding\<close>

lemma sint_Second: "sint Second = 1000000000"
  by (simp add: Second_def)

lemma sint_Minute: "sint Minute = 60000000000"
  by (simp add: Minute_def Second_def)

lemma pow2_neg: "pow2 (- int j) = 1 / 2 ^ j"
  by (simp add: pow2_def)

lemma pow2_28: "pow2 28 = 268435456"
  by (simp add: pow2_def)

lemma pow2_1: "pow2 1 = 2"
  by (simp add: pow2_def)

text \<open>
  Bounds on \<open>Minutes\<close> by numbers \<open>mn + c / 2^j\<close>: they are representable next to any
  number of minutes a duration can hold as long as \<open>j \<le> 25\<close>, so the two roundings of
  \<open>Minutes\<close> cannot cross them.
\<close>

lemma minutesFloat_upper:
  assumes mn: "\<bar>mn\<bar> \<le> 153722867" and ns: "\<bar>ns\<bar> < 60000000000"
    and j: "j \<le> 25" and c: "2 ^ j * ns \<le> c * 60000000000" "\<bar>c\<bar> \<le> 2 ^ j"
  shows "minutesFloat mn ns \<le> of_int mn + of_int c / 2 ^ j"
proof -
  have fm: "f64 (of_int mn) = of_int mn" using mn by (intro f64_of_int) simp
  have fn: "f64 (of_int ns) = of_int ns" using ns by (intro f64_of_int) simp
  let ?x = "(of_int ns :: rat) / 60000000000"
  have "(of_int (2 ^ j * ns) :: rat) \<le> of_int (c * 60000000000)" using c(1) by (simp only: of_int_le_iff)
  then have x_le: "?x \<le> of_int c * pow2 (- int j)" by (simp add: pow2_neg field_simps)
  have "(of_int \<bar>ns\<bar> :: rat) < of_int 60000000000" using ns by (simp only: of_int_less_iff)
  then have x_one: "\<bar>?x\<bar> < 1" by (simp add: field_simps)
  then have x_mag: "\<bar>?x\<bar> < pow2 (0 + 1)" by (simp add: pow2_1)
  have q_le: "f64 ?x \<le> of_int c * pow2 (- int j)"
    using j by (intro f64_le [OF x_le x_mag]) simp
  have "(of_int (- 1) :: rat) * pow2 0 \<le> ?x" using x_one by (simp add: pow2_def abs_less_iff)
  then have "(of_int (- 1) :: rat) * pow2 0 \<le> f64 ?x" using x_mag by (rule f64_ge) simp
  then have q_ge: "- 1 \<le> f64 ?x" by (simp add: pow2_def)
  let ?y = "of_int mn + f64 ?x"
  have y_le: "?y \<le> of_int (2 ^ j * mn + c) * pow2 (- int j)" using q_le by (simp add: pow2_neg field_simps)
  have "(of_int \<bar>c\<bar> :: rat) \<le> of_int (2 ^ j)" using c(2) by (simp only: of_int_le_iff)
  then have "of_int c * pow2 (- int j) \<le> 1" by (simp add: pow2_neg field_simps abs_le_iff)
  then have "f64 ?x \<le> 1" using q_le by simp
  moreover have "(of_int \<bar>mn\<bar> :: rat) \<le> of_int 153722867" using mn by (simp only: of_int_le_iff)
  ultimately have y_mag: "\<bar>?y\<bar> < pow2 (27 + 1)" using q_ge by (simp add: pow2_28 abs_less_iff abs_le_iff)
  have "f64 ?y \<le> of_int (2 ^ j * mn + c) * pow2 (- int j)"
    using j by (intro f64_le [OF y_le y_mag]) simp
  then show ?thesis by (simp add: minutesFloat_def fm fn pow2_neg field_simps)
qed

lemma minutesFloat_lower:
  assumes mn: "\<bar>mn\<bar> \<le> 153722867" and ns: "\<bar>ns\<bar> < 60000000000"
    and j: "j \<le> 25" and c: "c * 60000000000 \<le> 2 ^ j * ns" "\<bar>c\<bar> \<le> 2 ^ j"
  shows "of_int mn + of_int c / 2 ^ j \<le> minutesFloat mn ns"
proof -
  have fm: "f64 (of_int mn) = of_int mn" using mn by (intro f64_of_int) simp
  have fn: "f64 (of_int ns) = of_int ns" using ns by (intro f64_of_int) simp
  let ?x = "(of_int ns :: rat) / 60000000000"
  have "(of_int (c * 60000000000) :: rat) \<le> of_int (2 ^ j * ns)" using c(1) by (simp only: of_int_le_iff)
  then have x_ge: "of_int c * pow2 (- int j) \<le> ?x" by (simp add: pow2_neg field_simps)
  have "(of_int \<bar>ns\<bar> :: rat) < of_int 60000000000" using ns by (simp only: of_int_less_iff)
  then have x_one: "\<bar>?x\<bar> < 1" by (simp add: field_simps)
  then have x_mag: "\<bar>?x\<bar> < pow2 (0 + 1)" by (simp add: pow2_1)
  have q_ge: "of_int c * pow2 (- int j) \<le> f64 ?x"
    using j by (intro f64_ge [OF x_ge x_mag]) simp
  have "?x \<le> (of_int 1 :: rat) * pow2 0" using x_one by (simp add: pow2_def abs_less_iff)
  then have "f64 ?x \<le> (of_int 1 :: rat) * pow2 0" using x_mag by (rule f64_le) simp
  then have q_le: "f64 ?x \<le> 1" by (simp add: pow2_def)
  let ?y = "of_int mn + f64 ?x"
  have y_ge: "of_int (2 ^ j * mn + c) * pow2 (- int j) \<le> ?y" using q_ge by (simp add: pow2_neg field_simps)
  have "(of_int \<bar>c\<bar> :: rat) \<le> of_int (2 ^ j)" using c(2) by (simp only: of_int_le_iff)
  then have "- 1 \<le> of_int c * pow2 (- int j)" by (simp add: pow2_neg field_simps abs_le_iff)
  then have "- 1 \<le> f64 ?x" using q_ge by simp
  moreover have "(of_int \<bar>mn\<bar> :: rat) \<le> of_int 153722867" using mn by (simp only: of_int_le_iff)
  ultimately have y_mag: "\<bar>?y\<bar> < pow2 (27 + 1)" using q_le by (simp add: pow2_28 abs_less_iff abs_le_iff)
  have "of_int (2 ^ j * mn + c) * pow2 (- int j) \<le> f64 ?y"
    using j by (intro f64_ge [OF y_ge y_mag]) simp
  then show ?thesis by (simp add: minutesFloat_def fm fn pow2_neg field_simps)
qed

lemma trunc_of_int: "trunc (of_int k) = k"
  by (simp add: trunc_def)

lemma math_Round_integral: "math_Round x = of_int (trunc (math_Round x))"
  by (simp add: math_Round_def trunc_def)

lemma math_Round_of_int: "math_Round (of_int k) = of_int k"
  unfolding math_Round_def by (simp; linarith)

lemma math_Round_le: "x < of_int b + 1 / 2 \<Longrightarrow> trunc (math_Round x) \<le> b"
  unfolding math_Round_def trunc_def by (auto split: if_splits; linarith)

lemma math_Round_ge: "of_int a - 1 / 2 < x \<Longrightarrow> a \<le> trunc (math_Round x)"
  unfolding math_Round_def trunc_def by (auto split: if_splits; linarith)

lemma math_Round_half_up: "of_int a + 1 / 2 \<le> x \<Longrightarrow> 0 \<le> x \<Longrightarrow> a + 1 \<le> trunc (math_Round x)"
  unfolding math_Round_def trunc_def by (auto split: if_splits; linarith)

lemma math_Round_half_down: "x \<le> of_int a - 1 / 2 \<Longrightarrow> x < 0 \<Longrightarrow> trunc (math_Round x) \<le> a - 1"
  unfolding math_Round_def trunc_def by (auto split: if_splits; linarith)

lemma sdiv_smod_pos:
  fixes a b :: int
  assumes "0 < b"
  shows "a = (a sdiv b) * b + a smod b" "\<bar>a smod b\<bar> < b" "\<bar>a sdiv b\<bar> = \<bar>a\<bar> div b"
    "0 \<le> a \<Longrightarrow> 0 \<le> a smod b" "a \<le> 0 \<Longrightarrow> a smod b \<le> 0"
    "0 \<le> a \<Longrightarrow> 0 \<le> a sdiv b" "a \<le> 0 \<Longrightarrow> a sdiv b \<le> 0"
proof -
  show "a = (a sdiv b) * b + a smod b" by (simp add: sdiv_mult_smod_eq)
  show "\<bar>a smod b\<bar> < b" using assms by (simp add: signed_modulo_int_def abs_mult abs_sgn_eq)
  show "\<bar>a sdiv b\<bar> = \<bar>a\<bar> div b" using assms
    by (cases "a = 0") (simp_all add: signed_divide_int_def abs_mult abs_sgn_eq pos_imp_zdiv_nonneg_iff)
  show "0 \<le> a \<Longrightarrow> 0 \<le> a smod b" using assms by (auto simp: signed_modulo_int_def sgn_if)
  show "a \<le> 0 \<Longrightarrow> a smod b \<le> 0" using assms by (auto simp: signed_modulo_int_def sgn_if)
  show "0 \<le> a \<Longrightarrow> 0 \<le> a sdiv b" using assms by (auto simp: signed_divide_int_def sgn_if pos_imp_zdiv_nonneg_iff)
  show "a \<le> 0 \<Longrightarrow> a sdiv b \<le> 0" using assms by (auto simp: signed_divide_int_def sgn_if pos_imp_zdiv_nonneg_iff)
qed

lemma sint_bounds64: "- 9223372036854775808 \<le> sint (d :: 64 word)" "sint (d :: 64 word) < 9223372036854775808"
  using sint_ge [of d] sint_lt [of d] by simp_all

lemma minute_parts:
  fixes d :: Duration
  defines "mn \<equiv> sint d sdiv 60000000000" and "ns \<equiv> sint d smod 60000000000"
  shows "sint d = mn * 60000000000 + ns" "\<bar>ns\<bar> < 60000000000" "\<bar>mn\<bar> \<le> 153722867"
proof -
  show "sint d = mn * 60000000000 + ns" unfolding mn_def ns_def by (rule sdiv_smod_pos(1)) simp
  show "\<bar>ns\<bar> < 60000000000" unfolding ns_def by (rule sdiv_smod_pos(2)) simp
  have "\<bar>mn\<bar> = \<bar>sint d\<bar> div 60000000000" unfolding mn_def by (rule sdiv_smod_pos(3)) simp
  moreover have "\<bar>sint d\<bar> \<le> 9223372036854775808" using sint_bounds64 [of d] by simp
  ultimately show "\<bar>mn\<bar> \<le> 153722867" by simp
qed

lemma Minutes_minutesFloat:
  "Minutes d = minutesFloat (sint d sdiv 60000000000) (sint d smod 60000000000)"
  by (simp add: Minutes_def minutesFloat_def sint_Minute)


lemma roundedMinutes_coarse:
  "sint d sdiv 60000000000 - 1 \<le> roundedMinutes d" "roundedMinutes d \<le> sint d sdiv 60000000000 + 1"
proof -
  let ?mn = "sint d sdiv 60000000000" and ?ns = "sint d smod 60000000000"
  note p = minute_parts [of d]
  have "of_int ?mn + of_int (- 1) / 2 ^ 0 \<le> minutesFloat ?mn ?ns"
    using p by (intro minutesFloat_lower) simp_all
  then have "of_int (?mn - 1) - 1 / 2 < Minutes d" by (simp add: Minutes_minutesFloat)
  then show "?mn - 1 \<le> roundedMinutes d" unfolding roundedMinutes_def by (rule math_Round_ge)
  have "minutesFloat ?mn ?ns \<le> of_int ?mn + of_int 1 / 2 ^ 0"
    using p by (intro minutesFloat_upper) simp_all
  then have "Minutes d < of_int (?mn + 1) + 1 / 2" by (simp add: Minutes_minutesFloat)
  then show "roundedMinutes d \<le> ?mn + 1" unfolding roundedMinutes_def by (rule math_Round_le)
qed

lemma Minutes_nonneg:
  assumes "0 \<le> sint d"
  shows "of_int (sint d sdiv 60000000000) \<le> Minutes d"
proof -
  let ?mn = "sint d sdiv 60000000000" and ?ns = "sint d smod 60000000000"
  note p = minute_parts [of d]
  have ns: "0 \<le> ?ns" using assms by (intro sdiv_smod_pos(4)) simp_all
  have "of_int ?mn + of_int 0 / 2 ^ 0 \<le> minutesFloat ?mn ?ns"
    using p ns by (intro minutesFloat_lower) simp_all
  then show ?thesis by (simp add: Minutes_minutesFloat)
qed

lemma Minutes_nonpos:
  assumes "sint d \<le> 0"
  shows "Minutes d \<le> of_int (sint d sdiv 60000000000)"
proof -
  let ?mn = "sint d sdiv 60000000000" and ?ns = "sint d smod 60000000000"
  note p = minute_parts [of d]
  have ns: "?ns \<le> 0" using assms by (intro sdiv_smod_pos(5)) simp_all
  have "minutesFloat ?mn ?ns \<le> of_int ?mn + of_int 0 / 2 ^ 0"
    using p ns by (intro minutesFloat_upper) simp_all
  then show ?thesis by (simp add: Minutes_minutesFloat)
qed

lemma roundedMinutes_nonneg:
  assumes "0 \<le> sint d"
  shows "0 \<le> roundedMinutes d"
proof -
  let ?mn = "sint d sdiv 60000000000"
  have mn: "0 \<le> ?mn" using assms by (intro sdiv_smod_pos(6)) simp_all
  have "of_int ?mn - 1 / 2 < Minutes d" using Minutes_nonneg [OF assms] by simp
  then have "?mn \<le> roundedMinutes d" unfolding roundedMinutes_def by (rule math_Round_ge)
  then show ?thesis using mn by simp
qed

lemma roundedMinutes_upper_fine:
  assumes "sint d smod 60000000000 \<le> 29062500000"
  shows "roundedMinutes d \<le> sint d sdiv 60000000000"
proof -
  let ?mn = "sint d sdiv 60000000000" and ?ns = "sint d smod 60000000000"
  note p = minute_parts [of d]
  have "minutesFloat ?mn ?ns \<le> of_int ?mn + of_int 31 / 2 ^ 6"
    using p assms by (intro minutesFloat_upper) simp_all
  then have "Minutes d < of_int ?mn + 1 / 2" by (simp add: Minutes_minutesFloat)
  then show ?thesis unfolding roundedMinutes_def by (rule math_Round_le)
qed

lemma roundedMinutes_lower_fine:
  assumes "- 29062500000 \<le> sint d smod 60000000000"
  shows "sint d sdiv 60000000000 \<le> roundedMinutes d"
proof -
  let ?mn = "sint d sdiv 60000000000" and ?ns = "sint d smod 60000000000"
  note p = minute_parts [of d]
  have "of_int ?mn + of_int (- 31) / 2 ^ 6 \<le> minutesFloat ?mn ?ns"
    using p assms by (intro minutesFloat_lower) simp_all
  then have "of_int ?mn - 1 / 2 < Minutes d" by (simp add: Minutes_minutesFloat)
  then show ?thesis unfolding roundedMinutes_def by (rule math_Round_ge)
qed

lemma roundedMinutes_half_up:
  assumes "0 \<le> sint d" "30000000000 \<le> sint d smod 60000000000"
  shows "sint d sdiv 60000000000 + 1 \<le> roundedMinutes d"
proof -
  let ?mn = "sint d sdiv 60000000000" and ?ns = "sint d smod 60000000000"
  note p = minute_parts [of d]
  have mn: "0 \<le> ?mn" using assms(1) by (intro sdiv_smod_pos(6)) simp_all
  have "of_int ?mn + of_int 1 / 2 ^ 1 \<le> minutesFloat ?mn ?ns"
    using p assms(2) by (intro minutesFloat_lower) simp_all
  then have h: "of_int ?mn + 1 / 2 \<le> Minutes d" by (simp add: Minutes_minutesFloat)
  moreover have "(0::rat) \<le> of_int ?mn" using mn by simp
  ultimately have "0 \<le> Minutes d" by linarith
  with h show ?thesis unfolding roundedMinutes_def by (rule math_Round_half_up)
qed

lemma roundedMinutes_half_down:
  assumes "sint d \<le> 0" "sint d smod 60000000000 \<le> - 30000000000"
  shows "roundedMinutes d \<le> sint d sdiv 60000000000 - 1"
proof -
  let ?mn = "sint d sdiv 60000000000" and ?ns = "sint d smod 60000000000"
  note p = minute_parts [of d]
  have mn: "?mn \<le> 0" using assms(1) by (intro sdiv_smod_pos(7)) simp_all
  have "minutesFloat ?mn ?ns \<le> of_int ?mn + of_int (- 1) / 2 ^ 1"
    using p assms(2) by (intro minutesFloat_upper) simp_all
  then have h: "Minutes d \<le> of_int ?mn - 1 / 2" by (simp add: Minutes_minutesFloat)
  moreover have "(of_int ?mn :: rat) \<le> 0" using mn by simp
  ultimately have "Minutes d < 0" by linarith
  with h show ?thesis unfolding roundedMinutes_def by (rule math_Round_half_down)
qed

text \<open>
  For a duration of a whole number of seconds the rounding is exactly to the nearest
  minute, halves away from zero.
\<close>

lemma smod_eq_0_iff_dvd:
  fixes a b :: int
  shows "a smod b = 0 \<longleftrightarrow> b dvd a"
proof -
  have "a smod b = 0 \<longleftrightarrow> \<bar>a\<bar> mod \<bar>b\<bar> = 0"
    by (cases "a = 0") (simp_all add: signed_modulo_int_def sgn_if)
  also have "\<dots> \<longleftrightarrow> \<bar>b\<bar> dvd \<bar>a\<bar>"
    by (simp only: dvd_eq_mod_eq_0)
  also have "\<dots> \<longleftrightarrow> b dvd a"
    by simp
  finally show ?thesis .
qed

lemma roundedMinutes_whole_seconds:
  assumes "sint d smod 1000000000 = 0"
  shows "roundedMinutes d =
           sint d sdiv 60000000000 +
           (if 30000000000 \<le> sint d smod 60000000000 then 1
            else if sint d smod 60000000000 \<le> - 30000000000 then - 1 else 0)"
proof -
  let ?mn = "sint d sdiv 60000000000" and ?ns = "sint d smod 60000000000"
  note p = minute_parts [of d] and c = roundedMinutes_coarse [of d]
  have "1000000000 dvd sint d" using assms by (simp add: smod_eq_0_iff_dvd)
  moreover have "(1000000000::int) dvd ?mn * 60000000000" by simp
  ultimately have "1000000000 dvd sint d - ?mn * 60000000000" by (rule dvd_diff)
  moreover have "sint d - ?mn * 60000000000 = ?ns" using p(1) by linarith
  ultimately have dv: "1000000000 dvd ?ns" by (simp only:)
  consider (up) "30000000000 \<le> ?ns" | (down) "?ns \<le> - 30000000000"
    | (mid) "- 30000000000 < ?ns" "?ns < 30000000000" by linarith
  then show ?thesis
  proof cases
    case up
    then have "0 \<le> sint d" using sdiv_smod_pos(5) [of 60000000000 "sint d"] by (cases "0 \<le> sint d") simp_all
    then have "?mn + 1 \<le> roundedMinutes d" using up by (rule roundedMinutes_half_up)
    then show ?thesis using c up by simp
  next
    case down
    then have "sint d \<le> 0" using sdiv_smod_pos(4) [of 60000000000 "sint d"] by (cases "sint d \<le> 0") simp_all
    then have "roundedMinutes d \<le> ?mn - 1" using down by (rule roundedMinutes_half_down)
    then show ?thesis using c down by simp
  next
    case mid
    from dv obtain k where k: "?ns = 1000000000 * k" by (auto simp: dvd_def)
    have "- 29 \<le> k" "k \<le> 29" using mid unfolding k by simp_all
    then have "- 29062500000 \<le> ?ns" "?ns \<le> 29062500000" unfolding k by simp_all
    then have "?mn \<le> roundedMinutes d" "roundedMinutes d \<le> ?mn"
      by (simp_all add: roundedMinutes_lower_fine roundedMinutes_upper_fine)
    then show ?thesis using mid by simp
  qed
qed

lemma roundedMinutes_bound: "\<bar>roundedMinutes d\<bar> \<le> 153722867"
proof -
  let ?mn = "sint d sdiv 60000000000" and ?ns = "sint d smod 60000000000"
  note p = minute_parts [of d] and c = roundedMinutes_coarse [of d] and b = sint_bounds64 [of d]
  consider "\<bar>?mn\<bar> \<le> 153722866" | "?mn = 153722867" | "?mn = - 153722867"
    using p(3) by linarith
  then show ?thesis
  proof cases
    case 1
    then show ?thesis using c by linarith
  next
    case 2
    then have "?ns \<le> 29062500000" using p(1) b by linarith
    then have "roundedMinutes d \<le> ?mn" by (rule roundedMinutes_upper_fine)
    then show ?thesis using c 2 by linarith
  next
    case 3
    then have "- 29062500000 \<le> ?ns" using p(1) b by linarith
    then have "?mn \<le> roundedMinutes d" by (rule roundedMinutes_lower_fine)
    then show ?thesis using c 3 by linarith
  qed
qed

lemma roundToClosestMinute_word: "roundToClosestMinute d = word_of_int (60000000000 * roundedMinutes d)"
proof -
  have "\<bar>roundedMinutes d * 60\<bar> < 2 ^ 53" using roundedMinutes_bound [of d] by simp
  then have "f64 (of_int (roundedMinutes d * 60)) = of_int (roundedMinutes d * 60)" by (rule f64_of_int)
  moreover have "math_Round (Minutes d) * 60 = of_int (roundedMinutes d * 60)"
    using math_Round_integral [of "Minutes d"] by (simp add: roundedMinutes_def)
  ultimately have "trunc (f64 (math_Round (Minutes d) * 60)) = roundedMinutes d * 60"
    by (simp only: trunc_of_int)
  then have "roundToClosestMinute d = Second * word_of_int (roundedMinutes d * 60)"
    by (simp only: roundToClosestMinute_def Duration_of_float_def)
  also have "\<dots> = word_of_int (60000000000 * roundedMinutes d)"
    by (simp add: Second_def)
  finally show ?thesis .
qed

lemma sint_roundToClosestMinute: "sint (roundToClosestMinute d) = 60000000000 * roundedMinutes d"
proof -
  have "- (2 ^ 63) \<le> 60000000000 * roundedMinutes d" "60000000000 * roundedMinutes d < 2 ^ 63"
    using roundedMinutes_bound [of d] by simp_all
  then have "signed_take_bit 63 (60000000000 * roundedMinutes d) = 60000000000 * roundedMinutes d"
    by (rule signed_take_bit_int_eq_self)
  moreover have "sint (word_of_int k :: 64 word) = signed_take_bit 63 k" for k
    by (simp add: sint_sbintrunc')
  ultimately show ?thesis by (simp only: roundToClosestMinute_word)
qed

lemma roundedMinutes_whole:
  assumes "sint d smod 60000000000 = 0"
  shows "roundedMinutes d = sint d sdiv 60000000000"
  using roundedMinutes_upper_fine [of d] roundedMinutes_lower_fine [of d] assms by simp

lemma roundToClosestMinute_whole:
  assumes "sint d smod 60000000000 = 0"
  shows "roundToClosestMinute d = d"
proof -
  have "sint d = 60000000000 * roundedMinutes d"
    using minute_parts(1) [of d] assms by (simp add: roundedMinutes_whole)
  then have "roundToClosestMinute d = word_of_int (sint d)"
    by (simp only: roundToClosestMinute_word)
  then show ?thesis by simp
qed

lemma roundToClosestMinute_aligned: "sint (roundToClosestMinute d) smod 60000000000 = 0"
  by (simp add: sint_roundToClosestMinute signed_modulo_int_def abs_mult)

lemma second_parts:
  fixes d :: Duration
  shows "\<bar>sint d sdiv 1000000000\<bar> \<le> 9223372036"
proof -
  have "\<bar>sint d sdiv 1000000000\<bar> = \<bar>sint d\<bar> div 1000000000" by (rule sdiv_smod_pos(3)) simp
  moreover have "\<bar>sint d\<bar> \<le> 9223372036854775808" using sint_bounds64 [of d] by simp
  ultimately show ?thesis by simp
qed

lemma f64_0: "f64 0 = 0"
  by (simp add: f64_def)

lemma transmittedSeconds_whole:
  assumes "sint d smod 1000000000 = 0"
  shows "transmittedSeconds d = sint d sdiv 1000000000"
proof -
  let ?sec = "sint d sdiv 1000000000"
  have b: "\<bar>?sec\<bar> \<le> 9223372036" by (rule second_parts)
  then have "f64 (of_int ?sec) = of_int ?sec" by (intro f64_of_int) simp
  then have "Seconds d = of_int ?sec"
    using assms by (simp add: Seconds_def sint_Second f64_0)
  then have "transmittedSeconds d = sint (word_of_int ?sec :: 64 word)"
    by (simp add: transmittedSeconds_def int_of_float_def trunc_of_int)
  also have "\<dots> = signed_take_bit 63 ?sec" by (simp add: sint_sbintrunc')
  also have "\<dots> = ?sec" using b by (intro signed_take_bit_int_eq_self) simp_all
  finally show ?thesis .
qed

lemma transmittedSeconds_0: "transmittedSeconds 0 = 0"
  using transmittedSeconds_whole [of 0] by simp

lemma roundToClosestMinute_0: "roundToClosestMinute 0 = 0"
  using roundToClosestMinute_whole [of 0] by simp

lemma transmittedSeconds_rounded: "transmittedSeconds (roundToClosestMinute d) = 60 * roundedMinutes d"
proof -
  have "sint (roundToClosestMinute d) smod 1000000000 = 0"
    by (simp add: sint_roundToClosestMinute signed_modulo_int_def abs_mult)
  then have "transmittedSeconds (roundToClosestMinute d) = sint (roundToClosestMinute d) sdiv 1000000000"
    by (rule transmittedSeconds_whole)
  also have "\<dots> = 60 * roundedMinutes d"
    by (simp add: sint_roundToClosestMinute signed_divide_int_def abs_mult sgn_mult sgn_mult_abs)
  finally show ?thesis .
qed

lemma sint_add_no_wrap:
  fixes a b :: Duration
  assumes "0 \<le> sint a" "0 \<le> sint b" "sint a + sint b < 9223372036854775808"
  shows "sint (a + b) = sint a + sint b"
proof -
  have "sint (a + b) = signed_take_bit 63 (sint a + sint b)"
    by (simp add: sint_word_ariths)
  also have "\<dots> = sint a + sint b"
    using assms by (intro signed_take_bit_int_eq_self) simp_all
  finally show ?thesis .
qed

lemma sdiv_smod_nonneg:
  fixes a m :: int
  assumes "0 \<le> a" "0 < m"
  shows "a sdiv m = a div m" "a smod m = a mod m"
  using assms by (auto simp: signed_divide_int_def signed_modulo_int_def sgn_if)

lemma smod_add_whole:
  fixes a b m :: int
  assumes "0 < m" "0 \<le> a" "0 \<le> b" "a smod m = 0" "b smod m = 0"
  shows "(a + b) smod m = 0" "(a + b) sdiv m = a sdiv m + b sdiv m"
proof -
  have a: "a mod m = 0" and b: "b mod m = 0"
    using assms by (simp_all add: sdiv_smod_nonneg)
  have "(a + b) mod m = 0" using a b by (simp add: mod_add_eq [symmetric])
  then show "(a + b) smod m = 0" using assms by (simp add: sdiv_smod_nonneg)
  have "(a + b) div m = a div m + b div m" using a b by (simp add: div_add1_eq)
  then show "(a + b) sdiv m = a sdiv m + b sdiv m" using assms by (simp add: sdiv_smod_nonneg)
qed

lemma sum_whole_seconds:
  fixes a b :: Duration
  assumes "0 \<le> sint a" "0 \<le> sint b" "sint a + sint b < 9223372036854775808"
    and "sint a smod 1000000000 = 0" "sint b smod 1000000000 = 0"
  shows "transmittedSeconds (a + b) = transmittedSeconds a + transmittedSeconds b"
proof -
  note s = sint_add_no_wrap [OF assms(1-3)]
  have "sint (a + b) smod 1000000000 = 0"
    unfolding s using assms by (intro smod_add_whole(1)) simp_all
  then have "transmittedSeconds (a + b) = (sint a + sint b) sdiv 1000000000"
    by (simp add: transmittedSeconds_whole s)
  also have "\<dots> = sint a sdiv 1000000000 + sint b sdiv 1000000000"
    using assms by (intro smod_add_whole(2)) simp_all
  finally show ?thesis using assms by (simp add: transmittedSeconds_whole)
qed

lemma rounded_step:
  assumes "0 \<le> sint d"
  shows "0 \<le> sint (roundToClosestMinute d)" "sint (roundToClosestMinute d) \<le> sint d + 60000000000"
    "sint (roundToClosestMinute d) smod 1000000000 = 0"
proof -
  have "0 \<le> roundedMinutes d" using assms by (rule roundedMinutes_nonneg)
  then show "0 \<le> sint (roundToClosestMinute d)" by (simp add: sint_roundToClosestMinute)
  have ns: "0 \<le> sint d smod 60000000000" using assms by (intro sdiv_smod_pos(4)) simp_all
  have "roundedMinutes d \<le> sint d sdiv 60000000000 + 1" by (rule roundedMinutes_coarse)
  then show "sint (roundToClosestMinute d) \<le> sint d + 60000000000"
    using minute_parts(1) [of d] ns by (simp add: sint_roundToClosestMinute)
  show "sint (roundToClosestMinute d) smod 1000000000 = 0"
    by (simp add: sint_roundToClosestMinute signed_modulo_int_def abs_mult)
qed

text \<open>The error of the rounding to float64, and the whole seconds of a duration below \<open>2^24\<close> seconds.\<close>

lemma f64_error:
  assumes "\<bar>x\<bar> < pow2 (e + 1)"
  shows "\<bar>f64 x - x\<bar> \<le> pow2 (e - 53)"
proof (cases "x = 0")
  case True
  then show ?thesis using pow2_pos [of "e - 53"] by (simp add: f64_def)
next
  case False
  have "\<bar>f64 x - x\<bar> \<le> pow2 (ilog2 x - 52) / 2"
    using f64_nearest [OF False] by blast
  moreover have "pow2 (ilog2 x - 52) / 2 = pow2 (ilog2 x - 53)"
    using pow2_diff [of "ilog2 x - 52" 1] by (simp add: pow2_1)
  moreover have "pow2 (ilog2 x - 53) \<le> pow2 (e - 53)"
    using ilog2_le [OF False assms] by (intro pow2_mono) simp
  ultimately show ?thesis by simp
qed

lemma pow2_consts: "pow2 (- 54) = 1 / 18014398509481984" "pow2 (- 30) = 1 / 1073741824"
  "pow2 24 = 16777216" "pow2 0 = 1"
  by (simp_all add: pow2_def)

text \<open>
  Below \<open>2^24\<close> seconds \<open>int(d.Seconds())\<close> is the number of whole seconds of a non-negative
  duration, whatever its fraction.
\<close>

lemma transmittedSeconds_floor:
  assumes "0 \<le> sint d" "sint d < 16777216000000000"
  shows "transmittedSeconds d = sint d div 1000000000"
proof -
  let ?sec = "sint d div 1000000000" and ?ns = "sint d mod 1000000000"
  have parts: "sint d sdiv 1000000000 = ?sec" "sint d smod 1000000000 = ?ns"
    using assms(1) by (simp_all add: sdiv_smod_nonneg)
  have sec: "0 \<le> ?sec" "?sec \<le> 16777215" using assms by simp_all
  have ns: "0 \<le> ?ns" "?ns \<le> 999999999" by simp_all
  have fs: "f64 (of_int ?sec) = of_int ?sec" using sec by (intro f64_of_int) simp
  have fn: "f64 (of_int ?ns) = of_int ?ns" using ns by (intro f64_of_int) simp
  let ?q = "(of_int ?ns :: rat) / 1000000000"
  have "(of_int 0 :: rat) \<le> of_int ?ns" "(of_int ?ns :: rat) \<le> of_int 999999999"
    using ns by (simp_all only: of_int_le_iff)
  then have q: "0 \<le> ?q" "?q \<le> 999999999 / 1000000000" by (simp_all add: field_simps)
  then have q_mag: "\<bar>?q\<bar> < pow2 (- 1 + 1)" by (simp add: pow2_consts)
  have q_err: "\<bar>f64 ?q - ?q\<bar> \<le> pow2 (- 54)"
    using f64_error [OF q_mag] by simp
  let ?x = "of_int ?sec + f64 ?q"
  have "(of_int 0 :: rat) \<le> of_int ?sec" "(of_int ?sec :: rat) \<le> of_int 16777215"
    using sec by (simp_all only: of_int_le_iff)
  then have s: "(0::rat) \<le> of_int ?sec" "(of_int ?sec :: rat) \<le> 16777215" by simp_all
  have fq: "- pow2 (- 54) \<le> f64 ?q - ?q" "f64 ?q - ?q \<le> pow2 (- 54)"
    using q_err by (simp_all add: abs_le_iff)
  have x_lo: "of_int ?sec - 1 / 18014398509481984 \<le> ?x"
    using fq(1) q(1) by (simp add: pow2_consts)
  have x_hi: "?x \<le> of_int ?sec + 999999999 / 1000000000 + 1 / 18014398509481984"
    using fq(2) q(2) by (simp add: pow2_consts)
  have x_mag: "\<bar>?x\<bar> < pow2 (23 + 1)"
    using x_lo x_hi s by (simp add: pow2_consts abs_less_iff)
  have x_err: "\<bar>f64 ?x - ?x\<bar> \<le> pow2 (- 30)"
    using f64_error [OF x_mag] by simp
  have "(of_int 0 :: rat) * pow2 0 \<le> ?q" using q(1) by simp
  then have "(of_int 0 :: rat) * pow2 0 \<le> f64 ?q"
    using q_mag by (rule f64_ge) simp
  then have "of_int ?sec * pow2 0 \<le> ?x" by (simp add: pow2_consts)
  then have "of_int ?sec * pow2 0 \<le> f64 ?x"
    using x_mag by (rule f64_ge) simp
  then have lo: "of_int ?sec \<le> f64 ?x" by (simp add: pow2_consts)
  have "f64 ?x - ?x \<le> pow2 (- 30)" using x_err by (rule abs_le_D1)
  then have "f64 ?x - ?x \<le> 1 / 1073741824" by (simp only: pow2_consts)
  then have hi: "f64 ?x < of_int ?sec + 1" using x_hi by linarith
  have "Seconds d = f64 ?x"
    by (simp add: Seconds_def sint_Second parts fs fn Let_def)
  moreover have "\<lfloor>f64 ?x\<rfloor> = ?sec" using lo hi by linarith
  moreover have "0 \<le> f64 ?x" using lo s(1) by linarith
  ultimately have "trunc (Seconds d) = ?sec" by (simp add: trunc_def)
  then have "transmittedSeconds d = sint (word_of_int ?sec :: 64 word)"
    by (simp add: transmittedSeconds_def int_of_float_def)
  also have "\<dots> = signed_take_bit 63 ?sec" by (simp add: sint_sbintrunc')
  also have "\<dots> = ?sec" using sec by (intro signed_take_bit_int_eq_self) simp_all
  finally show ?thesis .
qed

lemma div_add_no_carry:
  fixes a b m :: int
  assumes "0 < m" "0 \<le> a" "0 \<le> b"
  shows "(a + b) div m = a div m + b div m \<longleftrightarrow> a mod m + b mod m < m"
proof -
  have "(a + b) div m = a div m + b div m + (a mod m + b mod m) div m"
    by (rule div_add1_eq)
  moreover have "0 \<le> a mod m + b mod m" using assms(1) by simp
  ultimately show ?thesis
    using assms(1) by (auto simp: zdiv_eq_0_iff)
qed

lemma payload_seconds:
  assumes "durationPolicy opts entry = (billable', unbillable', total')"
  shows "TimeSpentSeconds (buildUploadEntry fmtDate fmtTime opts entry issue) = transmittedSeconds total'"
    "BillableSeconds (buildUploadEntry fmtDate fmtTime opts entry issue) = transmittedSeconds billable'"
  by (simp_all add: buildUploadEntry_def assms transmittedSeconds_def)

section \<open>Facts about the loop of one goroutine\<close>

lemma published_emit: "published (emit ev s) = published s @ sent ev"
  by (simp add: published_def emit_def)

lemma attempted_emit: "attempted (emit ev s) = attempted s @ started ev"
  by (simp add: attempted_def emit_def)

lemma results_emit: "results (emit ev s) = results s @ reported ev"
  by (simp add: results_def emit_def)

lemma calls_emit: "calls (emit ev s) = calls s @ requested ev"
  by (simp add: calls_def emit_def)

lemma published_call: "call lib hc req s = (r, s') \<Longrightarrow> published s' = published s"
  by (auto simp: call_def published_def split: prod.splits)

lemma attempted_call: "call lib hc req s = (r, s') \<Longrightarrow> attempted s' = attempted s"
  by (auto simp: call_def attempted_def split: prod.splits)

lemma call_keeps:
  "call lib hc req s = (r, s') \<Longrightarrow> results s' = results s \<and> published s' = published s"
  by (auto simp: call_def results_def published_def split: prod.splits)

lemma call_events:
  "call lib hc req s = (r, s') \<Longrightarrow> events s' = events s @ [Called req r]"
  by (auto simp: call_def split: prod.splits)

lemma loopBody_published:
  "\<exists>r. published (loopBody lib c opts createURL getIssueURL s entry) = published s @ [r]"
  by (auto simp: loopBody_def Let_def published_emit dest!: published_call
      split: prod.splits sum.splits)

lemma loopBody_attempted:
  "attempted (loopBody lib c opts createURL getIssueURL s entry) = attempted s @ [entry]"
  by (auto simp: loopBody_def Let_def attempted_emit dest!: attempted_call
      split: prod.splits sum.splits)

lemma loopBody_length:
  "length (published (loopBody lib c opts createURL getIssueURL s entry)) = Suc (length (published s))"
  using loopBody_published [of lib c opts createURL getIssueURL s entry] by auto

lemma loopBody_results:
  "\<exists>r. results (loopBody lib c opts createURL getIssueURL s entry) = results s @ [(entry, r)] \<and>
       published (loopBody lib c opts createURL getIssueURL s entry) = published s @ [r]"
  by (auto simp: loopBody_def Let_def results_emit published_emit
      dest!: call_keeps split: prod.splits sum.splits)

lemma groupTask_append:
  "groupTask lib c opts createURL getIssueURL s (xs @ ys) =
   groupTask lib c opts createURL getIssueURL (groupTask lib c opts createURL getIssueURL s xs) ys"
  by (induction xs arbitrary: s) simp_all

lemma groupTask_length:
  "length (published (groupTask lib c opts createURL getIssueURL s entries)) =
   length (published s) + length entries"
  by (induction entries arbitrary: s) (simp_all add: loopBody_length)

lemma groupTask_attempted:
  "attempted (groupTask lib c opts createURL getIssueURL s entries) = attempted s @ entries"
  by (induction entries arbitrary: s) (simp_all add: loopBody_attempted)

lemma groupTask_results:
  "\<exists>rs. map fst rs = entries \<and>
     results (groupTask lib c opts createURL getIssueURL s entries) = results s @ rs \<and>
     published (groupTask lib c opts createURL getIssueURL s entries) = published s @ map snd rs"
proof (induction entries arbitrary: s)
  case Nil
  then show ?case by simp
next
  case (Cons entry entries)
  let ?s = "loopBody lib c opts createURL getIssueURL s entry"
  obtain r where r: "results ?s = results s @ [(entry, r)]" "published ?s = published s @ [r]"
    using loopBody_results by blast
  obtain rs where rs: "map fst rs = entries"
    "results (groupTask lib c opts createURL getIssueURL ?s entries) = results ?s @ rs"
    "published (groupTask lib c opts createURL getIssueURL ?s entries) = published ?s @ map snd rs"
    using Cons.IH by blast
  have "map fst ((entry, r) # rs) = entry # entries" using rs(1) by simp
  moreover have "results (groupTask lib c opts createURL getIssueURL s (entry # entries)) =
      results s @ (entry, r) # rs" using r(1) rs(2) by simp
  moreover have "published (groupTask lib c opts createURL getIssueURL s (entry # entries)) =
      published s @ map snd ((entry, r) # rs)" using r(2) rs(3) by simp
  ultimately show ?case by (intro exI [of _ "(entry, r) # rs"] conjI)
qed

section \<open>Facts about the grouping\<close>

lemma insertGroup_mset:
  "mset (concat (map snd (insertGroup e groups))) = add_mset e (mset (concat (map snd groups)))"
  by (induction e groups rule: insertGroup.induct) simp_all

lemma foldl_insertGroup_mset:
  "mset (concat (map snd (foldl (\<lambda>groups e. insertGroup e groups) groups entries))) =
   mset (concat (map snd groups)) + mset entries"
  by (induction entries arbitrary: groups) (simp_all add: insertGroup_mset)

lemma GroupByTask_mset: "mset (concat (map snd (GroupByTask entries))) = mset entries"
  by (simp add: GroupByTask_def foldl_insertGroup_mset)

section \<open>Facts about the steps of the goroutines\<close>

lemma run_append:
  "run lib c opts (xs @ ys) cfg = run lib c opts ys (run lib c opts xs cfg)"
proof (induction xs arbitrary: cfg)
  case Nil
  then show ?case by simp
next
  case (Cons i xs)
  then show ?case by (cases cfg) (simp split: prod.splits)
qed

text \<open>Replacing one goroutine changes a sum over the goroutines by the share of that goroutine.\<close>

lemma mset_concat_update:
  assumes "i < length gs"
  shows "mset (concat (map f (gs[i := g]))) + mset (f (gs ! i)) = mset (concat (map f gs)) + mset (f g)"
  using assms
proof (induction gs arbitrary: i)
  case Nil
  then show ?case by simp
next
  case (Cons a gs)
  then show ?case by (cases i) simp_all
qed

lemma sum_list_update:
  fixes f :: "'a \<Rightarrow> nat"
  assumes "i < length gs"
  shows "sum_list (map f (gs[i := g])) + f (gs ! i) = sum_list (map f gs) + f g"
  using assms
proof (induction gs arbitrary: i)
  case Nil
  then show ?case by simp
next
  case (Cons a gs)
  then show ?case by (cases i) simp_all
qed

text \<open>
  One step of a goroutine: what it adds to the events, which entry it finishes, and
  that it keeps the position in line with the local variables.
\<close>

lemma step_effect:
  assumes "step lib c opts g s = (s', g')" "coherent lib opts g"
  shows "\<exists>fin. coherent lib opts g' \<and>
           createURL_of g' = createURL_of g \<and> getIssueURL_of g' = getIssueURL_of g \<and>
           list_all (wellFormed lib opts) fin \<and>
           mset (events s') + mset (underway lib c opts g) =
             mset (events s) + mset (underway lib c opts g') +
             mset (concat (map (trace lib c opts (createURL_of g) (getIssueURL_of g)) fin)) \<and>
           mset (map fst fin) + mset (busy (position g') @ pending g') = mset (busy (position g) @ pending g)"
proof (cases "position g")
  case LoopHead
  show ?thesis
  proof (cases "pending g")
    case Nil
    then have "s' = s" "g' = g" using assms(1) LoopHead by (simp_all add: step_def)
    then show ?thesis using assms(2) by (intro exI [of _ "[]"]) simp
  next
    case (Cons entry rest)
    then have s': "s' = emit (StartTracking entry) s"
      and g': "g' = g\<lparr> pending := rest, position := BeforeLookup entry \<rparr>"
      using assms(1) LoopHead by (simp_all add: step_def)
    show ?thesis
      unfolding s' g' using LoopHead Cons
      by (intro exI [of _ "[]"]) (simp add: coherent_def underway_def emit_def)
  qed
next
  case (BeforeLookup entry)
  obtain r s1 where c: "call lib (jiraHttpClient c) (getIssueRequest c (getIssueURL_of g) entry) s = (r, s1)"
    by (cases "call lib (jiraHttpClient c) (getIssueRequest c (getIssueURL_of g) entry) s")
  note ev = call_events [OF c]
  show ?thesis
  proof (cases r)
    case (Inl err)
    then have s': "s' = s1"
      and g': "g' = g\<lparr> position := BeforeStopTracking entry (Inl err) None
          (Some (Errorf3 ErrUploadEntries (Name (Task entry)) err)) \<rparr>"
      using assms(1) BeforeLookup c by (simp_all add: step_def Let_def)
    show ?thesis
      unfolding s' g' using BeforeLookup ev Inl
      by (intro exI [of _ "[]"])
         (simp add: coherent_def underway_def wellFormed_def verdict_def uploadEntryOf_def uploadEvents_def)
  next
    case (Inr resp)
    show ?thesis
    proof (cases "json_Unmarshal lib resp")
      case (Inl err)
      then have s': "s' = s1"
        and g': "g' = g\<lparr> position := BeforeStopTracking entry (Inr resp) None
            (Some (Errorf2 ErrFetchEntries err)) \<rparr>"
        using assms(1) BeforeLookup c Inr by (simp_all add: step_def Let_def)
      show ?thesis
        unfolding s' g' using BeforeLookup ev Inl Inr
        by (intro exI [of _ "[]"])
           (simp add: coherent_def underway_def wellFormed_def verdict_def uploadEntryOf_def uploadEvents_def)
    next
      case issue: (Inr issue)
      then have s': "s' = s1"
        and g': "g' = g\<lparr> position := BeforeUpload entry resp
            (buildUploadEntry (formatDate lib) (formatTime lib) opts entry issue) \<rparr>"
        using assms(1) BeforeLookup c Inr by (simp_all add: step_def Let_def)
      show ?thesis
        unfolding s' g' using BeforeLookup ev issue Inr
        by (intro exI [of _ "[]"])
           (simp add: coherent_def underway_def uploadEntryOf_def)
    qed
  qed
next
  case (BeforeUpload entry resp uploadEntry)
  obtain r s1 where c: "call lib (tempoHttpClient c) (createRequest c (createURL_of g) uploadEntry) s = (r, s1)"
    by (cases "call lib (tempoHttpClient c) (createRequest c (createURL_of g) uploadEntry) s")
  note ev = call_events [OF c]
  have u: "uploadEntryOf lib opts entry (Inr resp) = Some uploadEntry"
    using assms(2) BeforeUpload by (simp add: coherent_def)
  have s': "s' = s1"
    and g': "g' = g\<lparr> position := BeforeStopTracking entry (Inr resp) (Some r)
        (case r of Inl err \<Rightarrow> Some (ErrorfPayload ErrUploadEntries uploadEntry err) | Inr _ \<Rightarrow> None) \<rparr>"
    using assms(1) BeforeUpload c by (simp_all add: step_def)
  have v: "verdict lib opts (entry, Inr resp, Some r) =
      (case r of Inl err \<Rightarrow> Some (ErrorfPayload ErrUploadEntries uploadEntry err) | Inr _ \<Rightarrow> None)"
    using u by (auto simp: verdict_def uploadEntryOf_def split: sum.splits)
  show ?thesis
    unfolding s' g' using BeforeUpload ev u v
    by (intro exI [of _ "[]"])
       (simp add: coherent_def underway_def wellFormed_def uploadEvents_def)
next
  case (BeforeStopTracking entry got posted err)
  then have s': "s' = emit (StopTracking entry err) s"
    and g': "g' = g\<lparr> position := BeforeSend entry got posted err \<rparr>"
    using assms(1) by (simp_all add: step_def)
  show ?thesis
    unfolding s' g' using BeforeStopTracking assms(2)
    by (intro exI [of _ "[]"]) (simp add: coherent_def underway_def emit_def)
next
  case (BeforeSend entry got posted err)
  then have s': "s' = emit (Publish err) s"
    and g': "g' = g\<lparr> position := LoopHead \<rparr>"
    using assms(1) by (simp_all add: step_def)
  have co: "wellFormed lib opts (entry, got, posted)" "err = verdict lib opts (entry, got, posted)"
    using assms(2) BeforeSend by (simp_all add: coherent_def)
  show ?thesis
    unfolding s' g' using BeforeSend co
    by (intro exI [of _ "[(entry, got, posted)]"])
       (simp add: coherent_def underway_def emit_def trace_def)
qed

text \<open>Sums of multisets, to put the steps of a run together.\<close>

lemma mset_lift:
  fixes E0 :: "'a multiset"
  assumes "E1 + a = E0 + b + T" "V1 + a = V0 + b"
  shows "E1 + V0 = E0 + V1 + T"
proof (rule multiset_eqI)
  fix x
  have "count (E1 + a) x = count (E0 + b + T) x" "count (V1 + a) x = count (V0 + b) x"
    using assms by simp_all
  then show "count (E1 + V0) x = count (E0 + V1 + T) x" by simp
qed

lemma mset_chain:
  fixes E0 :: "'a multiset"
  assumes "E1 + U0 = E0 + U1 + T1" "E2 + U1 = E1 + U2 + T2"
  shows "E2 + U0 = E0 + U2 + (T1 + T2)"
proof (rule multiset_eqI)
  fix x
  have "count (E1 + U0) x = count (E0 + U1 + T1) x" "count (E2 + U1) x = count (E1 + U2 + T2) x"
    using assms by simp_all
  then show "count (E2 + U0) x = count (E0 + U2 + (T1 + T2)) x" by simp
qed

lemma mset_done:
  fixes W0 :: "'a multiset"
  assumes "F1 + w1 = w0" "W1 + w0 = W0 + w1"
  shows "F1 + W1 = W0"
proof (rule multiset_eqI)
  fix x
  have "count (F1 + w1) x = count w0 x" "count (W1 + w0) x = count (W0 + w1) x"
    using assms by simp_all
  then show "count (F1 + W1) x = count W0 x" by simp
qed

lemma list_all_update:
  assumes "list_all P gs" "P g"
  shows "list_all P (gs[i := g])"
  using assms set_update_subset_insert [of gs i g] by (auto simp: list_all_iff)

text \<open>
  A run: what it adds to the events and which entries it finishes, whatever the
  schedule.
\<close>

lemma run_effect:
  assumes "run lib c opts schedule (s, gs) = (s', gs')"
    and "list_all (coherent lib opts) gs"
    and "list_all (\<lambda>g. createURL_of g = createURL \<and> getIssueURL_of g = getIssueURL) gs"
  shows "\<exists>fin. list_all (coherent lib opts) gs' \<and>
           list_all (\<lambda>g. createURL_of g = createURL \<and> getIssueURL_of g = getIssueURL) gs' \<and>
           list_all (wellFormed lib opts) fin \<and>
           mset (events s') + mset (concat (map (underway lib c opts) gs)) =
             mset (events s) + mset (concat (map (underway lib c opts) gs')) +
             mset (concat (map (trace lib c opts createURL getIssueURL) fin)) \<and>
           mset (map fst fin) + unfinished gs' = unfinished gs"
  using assms
proof (induction schedule arbitrary: s gs)
  case Nil
  then show ?case by (intro exI [of _ "[]"]) simp
next
  case (Cons i schedule)
  show ?case
  proof (cases "i < length gs")
    case False
    then have "run lib c opts schedule (s, gs) = (s', gs')" using Cons.prems(1) by simp
    then show ?thesis using Cons.IH Cons.prems(2,3) by blast
  next
    case True
    let ?g = "gs ! i"
    obtain s1 g1 where st: "step lib c opts ?g s = (s1, g1)"
      by (cases "step lib c opts ?g s")
    let ?gs = "gs[i := g1]"
    have g: "coherent lib opts ?g" "createURL_of ?g = createURL" "getIssueURL_of ?g = getIssueURL"
      using Cons.prems(2,3) True by (simp_all add: list_all_length)
    obtain fin1 where f1: "coherent lib opts g1" "createURL_of g1 = createURL" "getIssueURL_of g1 = getIssueURL"
      "list_all (wellFormed lib opts) fin1"
      "mset (events s1) + mset (underway lib c opts ?g) =
         mset (events s) + mset (underway lib c opts g1) +
         mset (concat (map (trace lib c opts createURL getIssueURL) fin1))"
      "mset (map fst fin1) + mset (busy (position g1) @ pending g1) = mset (busy (position ?g) @ pending ?g)"
      using step_effect [OF st g(1)] unfolding g(2,3) by blast
    have co: "list_all (coherent lib opts) ?gs"
      using Cons.prems(2) f1(1) by (rule list_all_update)
    have ur: "list_all (\<lambda>g. createURL_of g = createURL \<and> getIssueURL_of g = getIssueURL) ?gs"
      using Cons.prems(3) f1(2,3) by (intro list_all_update) simp_all
    have "run lib c opts schedule (s1, ?gs) = (s', gs')"
      using Cons.prems(1) True st by simp
    then obtain fin2 where f2: "list_all (coherent lib opts) gs'"
      "list_all (\<lambda>g. createURL_of g = createURL \<and> getIssueURL_of g = getIssueURL) gs'"
      "list_all (wellFormed lib opts) fin2"
      "mset (events s') + mset (concat (map (underway lib c opts) ?gs)) =
         mset (events s1) + mset (concat (map (underway lib c opts) gs')) +
         mset (concat (map (trace lib c opts createURL getIssueURL) fin2))"
      "mset (map fst fin2) + unfinished gs' = unfinished ?gs"
      using Cons.IH [OF _ co ur] by blast
    have e1: "mset (events s1) + mset (concat (map (underway lib c opts) gs)) =
        mset (events s) + mset (concat (map (underway lib c opts) ?gs)) +
        mset (concat (map (trace lib c opts createURL getIssueURL) fin1))"
      using f1(5) mset_concat_update [OF True, of "underway lib c opts" g1] by (rule mset_lift)
    have e: "mset (events s') + mset (concat (map (underway lib c opts) gs)) =
        mset (events s) + mset (concat (map (underway lib c opts) gs')) +
        (mset (concat (map (trace lib c opts createURL getIssueURL) fin1)) +
         mset (concat (map (trace lib c opts createURL getIssueURL) fin2)))"
      using e1 f2(4) by (rule mset_chain)
    have w1: "mset (map fst fin1) + unfinished ?gs = unfinished gs"
      unfolding unfinished_def
      using f1(6) mset_concat_update [OF True, of "\<lambda>g. busy (position g) @ pending g" g1]
      by (rule mset_done)
    have "mset (map fst fin1) + (mset (map fst fin2) + unfinished gs') = unfinished gs"
      unfolding f2(5) by (rule w1)
    then have w: "mset (map fst (fin1 @ fin2)) + unfinished gs' = unfinished gs"
      by (simp add: ac_simps)
    show ?thesis
      using f2(1,2) f1(4) f2(3) e w by (intro exI [of _ "fin1 @ fin2"]) simp
  qed
qed

text \<open>The goroutines that \<open>UploadEntries\<close> starts, and finished goroutines.\<close>

lemma spawned:
  "list_all (coherent lib opts)
     (map (\<lambda>(key, groupEntries).
        \<lparr> createURL_of = cu, getIssueURL_of = gu, pending = groupEntries, position = LoopHead \<rparr>) groups)"
  "list_all (\<lambda>g. createURL_of g = cu \<and> getIssueURL_of g = gu)
     (map (\<lambda>(key, groupEntries).
        \<lparr> createURL_of = cu, getIssueURL_of = gu, pending = groupEntries, position = LoopHead \<rparr>) groups)"
  "concat (map (underway lib c opts)
     (map (\<lambda>(key, groupEntries).
        \<lparr> createURL_of = cu, getIssueURL_of = gu, pending = groupEntries, position = LoopHead \<rparr>) groups)) = []"
  "unfinished
     (map (\<lambda>(key, groupEntries).
        \<lparr> createURL_of = cu, getIssueURL_of = gu, pending = groupEntries, position = LoopHead \<rparr>) groups) =
   mset (concat (map snd groups))"
  by (induction groups) (auto simp: coherent_def underway_def unfinished_def)

lemma finished_underway:
  assumes "finished gs"
  shows "concat (map (underway lib c opts) gs) = []" "unfinished gs = {#}"
  using assms by (induction gs) (auto simp: finished_def underway_def unfinished_def)

text \<open>Every step of a goroutine that has not returned brings it closer to its return.\<close>

lemma step_remaining:
  assumes "step lib c opts g s = (s', g')" "pending g \<noteq> [] \<or> position g \<noteq> LoopHead"
  shows "5 * length (pending g') + stepsLeft (position g') < 5 * length (pending g) + stepsLeft (position g)"
  using assms
  by (cases "position g")
     (auto simp: step_def Let_def split: list.splits prod.splits sum.splits)

lemma unfinished_index:
  assumes "\<not> finished gs"
  shows "\<exists>i. i < length gs \<and> (pending (gs ! i) \<noteq> [] \<or> position (gs ! i) \<noteq> LoopHead)"
proof -
  from assms obtain g where "g \<in> set gs" "pending g \<noteq> [] \<or> position g \<noteq> LoopHead"
    by (auto simp: finished_def list_all_iff)
  then show ?thesis by (auto simp: in_set_conv_nth)
qed

lemma run_can_finish:
  "\<exists>schedule. finished (snd (run lib c opts schedule (s, gs)))"
proof (induction "remaining gs" arbitrary: s gs rule: less_induct)
  case less
  show ?case
  proof (cases "finished gs")
    case True
    then have "finished (snd (run lib c opts [] (s, gs)))" by simp
    then show ?thesis by blast
  next
    case False
    then obtain i where i: "i < length gs" "pending (gs ! i) \<noteq> [] \<or> position (gs ! i) \<noteq> LoopHead"
      using unfinished_index by blast
    obtain s1 g1 where st: "step lib c opts (gs ! i) s = (s1, g1)"
      by (cases "step lib c opts (gs ! i) s")
    have "remaining (gs[i := g1]) < remaining gs"
      unfolding remaining_def
      using step_remaining [OF st i(2)]
        sum_list_update [OF i(1), of "\<lambda>g. 5 * length (pending g) + stepsLeft (position g)" g1]
      by linarith
    then obtain schedule where "finished (snd (run lib c opts schedule (s1, gs[i := g1])))"
      using less by blast
    then have "finished (snd (run lib c opts (i # schedule) (s, gs)))" using i(1) st by simp
    then show ?thesis by blast
  qed
qed

text \<open>What is published, reported and requested depends on the events only, not on their order.\<close>

lemma mset_concat_map:
  "mset (concat (map f xs)) = (\<Sum>x\<in>#mset xs. mset (f x))"
  by (induction xs) simp_all

lemma mset_concat_cong:
  assumes "mset xs = mset ys"
  shows "mset (concat (map f xs)) = mset (concat (map f ys))"
  by (simp only: mset_concat_map assms)

lemma sent_underway: "concat (map sent (underway lib c opts g)) = []"
  by (cases "position g") (auto simp: underway_def uploadEvents_def split: option.splits)

lemma sent_trace: "concat (map sent (trace lib c opts createURL getIssueURL h)) = [verdict lib opts h]"
  by (cases h) (auto simp: trace_def uploadEvents_def split: option.splits)

lemma sent_underway_all: "concat (map sent (concat (map (underway lib c opts) gs))) = []"
  by (induction gs) (simp_all add: sent_underway)

lemma sent_trace_all:
  "concat (map sent (concat (map (trace lib c opts createURL getIssueURL) fin))) = map (verdict lib opts) fin"
  by (induction fin) (simp_all add: sent_trace)

text \<open>\<open>nil\<close> is sent for an entry exactly when its lookup, its decoding and its upload request went well.\<close>

lemma verdict_None:
  assumes "wellFormed lib opts h"
  shows "(verdict lib opts h = None) = succeeded lib h"
  using assms
  by (cases h) (auto simp: wellFormed_def verdict_def succeeded_def uploadEntryOf_def split: sum.splits option.splits)

lemma verdict_None_all:
  assumes "list_all (wellFormed lib opts) fin"
  shows "list_all (\<lambda>h. (verdict lib opts h = None) = succeeded lib h) fin"
  using assms by (induction fin) (simp_all add: verdict_None)

text \<open>A goroutine that the others leave alone does what the loop body says.\<close>

lemma alone_loopBody:
  "\<exists>schedule.
     run lib c opts schedule
       (s, [\<lparr> createURL_of = cu, getIssueURL_of = gu, pending = entry # rest, position = LoopHead \<rparr>]) =
     (loopBody lib c opts cu gu s entry,
      [\<lparr> createURL_of = cu, getIssueURL_of = gu, pending = rest, position = LoopHead \<rparr>])"
proof -
  let ?get = "\<lparr> Method = ''GET'', Url = gu @ Name (Task entry), Auth = jiraAuthenticator c,
       RequestTimeout = Timeout (tempoClient_BaseClientOpts c), Data = None,
       Headers = [(''Content-Type'', ''application/json'')] \<rparr>"
  let ?s0 = "emit (StartTracking entry) s"
  obtain r s1 where c1: "call lib (jiraHttpClient c) ?get ?s0 = (r, s1)"
    by (cases "call lib (jiraHttpClient c) ?get ?s0")
  show ?thesis
  proof (cases r)
    case (Inl err)
    then have "run lib c opts [0, 0, 0, 0]
       (s, [\<lparr> createURL_of = cu, getIssueURL_of = gu, pending = entry # rest, position = LoopHead \<rparr>]) =
      (loopBody lib c opts cu gu s entry,
       [\<lparr> createURL_of = cu, getIssueURL_of = gu, pending = rest, position = LoopHead \<rparr>])"
      using c1 by (simp add: step_def loopBody_def Let_def getIssueRequest_def)
    then show ?thesis by blast
  next
    case (Inr resp)
    show ?thesis
    proof (cases "json_Unmarshal lib resp")
      case (Inl err)
      then have "run lib c opts [0, 0, 0, 0]
         (s, [\<lparr> createURL_of = cu, getIssueURL_of = gu, pending = entry # rest, position = LoopHead \<rparr>]) =
        (loopBody lib c opts cu gu s entry,
         [\<lparr> createURL_of = cu, getIssueURL_of = gu, pending = rest, position = LoopHead \<rparr>])"
        using c1 Inr by (simp add: step_def loopBody_def Let_def getIssueRequest_def)
      then show ?thesis by blast
    next
      case issue: (Inr issue)
      let ?post = "\<lparr> Method = ''POST'', Url = cu, Auth = tempoAuthenticator c,
           RequestTimeout = Timeout (tempoClient_BaseClientOpts c),
           Data = Some (buildUploadEntry (formatDate lib) (formatTime lib) opts entry issue),
           Headers = [(''Content-Type'', ''application/json'')] \<rparr>"
      obtain r2 s2 where c2: "call lib (tempoHttpClient c) ?post s1 = (r2, s2)"
        by (cases "call lib (tempoHttpClient c) ?post s1")
      have "run lib c opts [0, 0, 0, 0, 0]
         (s, [\<lparr> createURL_of = cu, getIssueURL_of = gu, pending = entry # rest, position = LoopHead \<rparr>]) =
        (loopBody lib c opts cu gu s entry,
         [\<lparr> createURL_of = cu, getIssueURL_of = gu, pending = rest, position = LoopHead \<rparr>])"
        using c1 c2 Inr issue
        by (simp add: step_def loopBody_def Let_def getIssueRequest_def createRequest_def)
      then show ?thesis by blast
    qed
  qed
qed

lemma alone_groupTask:
  "\<exists>schedule.
     run lib c opts schedule
       (s, [\<lparr> createURL_of = cu, getIssueURL_of = gu, pending = entries @ rest, position = LoopHead \<rparr>]) =
     (groupTask lib c opts cu gu s entries,
      [\<lparr> createURL_of = cu, getIssueURL_of = gu, pending = rest, position = LoopHead \<rparr>])"
proof (induction entries arbitrary: s)
  case Nil
  have "run lib c opts []
       (s, [\<lparr> createURL_of = cu, getIssueURL_of = gu, pending = [] @ rest, position = LoopHead \<rparr>]) =
     (groupTask lib c opts cu gu s [],
      [\<lparr> createURL_of = cu, getIssueURL_of = gu, pending = rest, position = LoopHead \<rparr>])"
    by simp
  then show ?case by blast
next
  case (Cons entry entries)
  obtain one where one: "run lib c opts one
       (s, [\<lparr> createURL_of = cu, getIssueURL_of = gu, pending = entry # entries @ rest, position = LoopHead \<rparr>]) =
     (loopBody lib c opts cu gu s entry,
      [\<lparr> createURL_of = cu, getIssueURL_of = gu, pending = entries @ rest, position = LoopHead \<rparr>])"
    using alone_loopBody by blast
  obtain more where more: "run lib c opts more
       (loopBody lib c opts cu gu s entry,
        [\<lparr> createURL_of = cu, getIssueURL_of = gu, pending = entries @ rest, position = LoopHead \<rparr>]) =
     (groupTask lib c opts cu gu (loopBody lib c opts cu gu s entry) entries,
      [\<lparr> createURL_of = cu, getIssueURL_of = gu, pending = rest, position = LoopHead \<rparr>])"
    using Cons.IH by blast
  have "run lib c opts (one @ more)
       (s, [\<lparr> createURL_of = cu, getIssueURL_of = gu, pending = (entry # entries) @ rest, position = LoopHead \<rparr>]) =
     (groupTask lib c opts cu gu s (entry # entries),
      [\<lparr> createURL_of = cu, getIssueURL_of = gu, pending = rest, position = LoopHead \<rparr>])"
    by (simp add: run_append one more)
  then show ?case by blast
qed

section \<open>Facts about the constructors\<close>

lemma calls_parse: "parse lib u s = (r, s') \<Longrightarrow> calls s' = calls s"
  by (auto simp: parse_def calls_emit)

lemma calls_newTokenAuth: "newTokenAuth lib h n t s = (r, s') \<Longrightarrow> calls s' = calls s"
  by (auto simp: newTokenAuth_def calls_def split: prod.splits)

lemma calls_newBasicAuth: "newBasicAuth lib u p s = (r, s') \<Longrightarrow> calls s' = calls s"
  by (auto simp: newBasicAuth_def calls_def split: prod.splits)

lemma calls_newClient: "calls (snd (newClient lib opts s)) = calls s"
  by (auto simp: newClient_def split: prod.splits sum.splits
      dest!: calls_parse calls_newTokenAuth calls_newBasicAuth)

lemma calls_NewUploader: "calls (snd (NewUploader lib opts s)) = calls s"
  using calls_newClient [of lib opts s] by (auto simp: NewUploader_def split: prod.splits)

lemma calls_tempo_NewUploader: "calls (snd (tempo_NewUploader tempo opts s)) = calls s"
  by (simp add: tempo_NewUploader_def calls_def split: prod.splits)

lemma calls_viper_GetString: "calls (snd (viper_GetString config key s)) = calls s"
  by (simp add: viper_GetString_def calls_emit)

text \<open>
  The uploader that \<open>tempocloud.NewUploader\<close> returns is an interface value holding a
  \<open>*tempoClient\<close>; the pointer is not nil when no error comes with it.
\<close>

lemma newClient_Some:
  "snd (fst (newClient lib opts s)) = None \<Longrightarrow> fst (fst (newClient lib opts s)) \<noteq> None"
  by (auto simp: newClient_def split: prod.splits sum.splits)

lemma NewUploader_not_nil:
  "\<exists>client. fst (fst (NewUploader lib opts s)) = Some (TempoCloudUploader client) \<and>
     (snd (fst (NewUploader lib opts s)) = None \<longrightarrow> client \<noteq> None)"
  using newClient_Some [of lib opts s] by (auto simp: NewUploader_def split: prod.splits)

section \<open>The claims about the duration policy\<close>

text \<open>
  Claim C2. With both \<open>TreatDurationAsBilled\<close> and \<open>RoundToClosestMinute\<close> set, the policy
  folds before it rounds, for every entry: the billable duration is the rounding of the
  sum of the two durations of the entry, the unbillable duration is 0, and the payload
  carries the seconds of that rounded sum in both fields. For 29 billable and 30
  unbillable seconds the sum of 59 s is rounded to 60 s and both fields are 60. For 20
  and 20 seconds both fields are 60 as well, while each component rounded on its own
  would give 0.
\<close>

theorem fold_then_round:
  assumes "TreatDurationAsBilled opts" and "RoundToClosestMinute opts"
  shows "durationPolicy opts entry =
           (roundToClosestMinute (UnbillableDuration entry + BillableDuration entry), 0,
            roundToClosestMinute (UnbillableDuration entry + BillableDuration entry)) \<and>
         BillableSeconds (buildUploadEntry fmtDate fmtTime opts entry issue) =
           transmittedSeconds (roundToClosestMinute (UnbillableDuration entry + BillableDuration entry)) \<and>
         TimeSpentSeconds (buildUploadEntry fmtDate fmtTime opts entry issue) =
           transmittedSeconds (roundToClosestMinute (UnbillableDuration entry + BillableDuration entry)) \<and>
         (BillableDuration entry = 29 * Second \<and> UnbillableDuration entry = 30 * Second \<longrightarrow>
            durationPolicy opts entry = (60 * Second, 0, 60 * Second) \<and>
            BillableSeconds (buildUploadEntry fmtDate fmtTime opts entry issue) = 60 \<and>
            TimeSpentSeconds (buildUploadEntry fmtDate fmtTime opts entry issue) = 60) \<and>
         (BillableDuration entry = 20 * Second \<and> UnbillableDuration entry = 20 * Second \<longrightarrow>
            durationPolicy opts entry = (60 * Second, 0, 60 * Second) \<and>
            BillableSeconds (buildUploadEntry fmtDate fmtTime opts entry issue) = 60 \<and>
            TimeSpentSeconds (buildUploadEntry fmtDate fmtTime opts entry issue) = 60 \<and>
            roundToClosestMinute (BillableDuration entry) + roundToClosestMinute (UnbillableDuration entry) = 0)"
proof -
  let ?sum = "UnbillableDuration entry + BillableDuration entry"
  have pol: "durationPolicy opts entry = (roundToClosestMinute ?sum, 0, roundToClosestMinute ?sum)"
    using assms by (simp add: durationPolicy_def Let_def roundToClosestMinute_0)
  have payload: "BillableSeconds (buildUploadEntry fmtDate fmtTime opts entry issue) =
        transmittedSeconds (roundToClosestMinute ?sum)"
    "TimeSpentSeconds (buildUploadEntry fmtDate fmtTime opts entry issue) =
        transmittedSeconds (roundToClosestMinute ?sum)"
    by (simp_all add: buildUploadEntry_def pol transmittedSeconds_def)
  have r59: "roundToClosestMinute (59 * Second) = 60 * Second"
    by code_simp
  have r40: "roundToClosestMinute (40 * Second) = 60 * Second"
    by code_simp
  have r20: "roundToClosestMinute (20 * Second) = 0"
    by code_simp
  have s60: "transmittedSeconds (60 * Second) = 60"
    by code_simp
  have a: "30 * Second + 29 * Second = 59 * Second" "20 * Second + 20 * Second = 40 * Second"
    by (simp_all add: Second_def)
  have i1: "BillableDuration entry = 29 * Second \<and> UnbillableDuration entry = 30 * Second \<longrightarrow>
            durationPolicy opts entry = (60 * Second, 0, 60 * Second) \<and>
            BillableSeconds (buildUploadEntry fmtDate fmtTime opts entry issue) = 60 \<and>
            TimeSpentSeconds (buildUploadEntry fmtDate fmtTime opts entry issue) = 60"
    by (simp add: pol payload a r59 s60)
  have i2: "BillableDuration entry = 20 * Second \<and> UnbillableDuration entry = 20 * Second \<longrightarrow>
            durationPolicy opts entry = (60 * Second, 0, 60 * Second) \<and>
            BillableSeconds (buildUploadEntry fmtDate fmtTime opts entry issue) = 60 \<and>
            TimeSpentSeconds (buildUploadEntry fmtDate fmtTime opts entry issue) = 60 \<and>
            roundToClosestMinute (BillableDuration entry) + roundToClosestMinute (UnbillableDuration entry) = 0"
    by (simp add: pol payload a r40 r20 s60)
  show ?thesis
    using pol payload i1 i2 by (intro conjI)
qed

theorem fold_then_round_witness:
  "TreatDurationAsBilled (exampleOpts\<lparr> TreatDurationAsBilled := True, RoundToClosestMinute := True \<rparr>) \<and>
   RoundToClosestMinute (exampleOpts\<lparr> TreatDurationAsBilled := True, RoundToClosestMinute := True \<rparr>) \<and>
   BillableDuration (exampleEntry\<lparr> BillableDuration := 29 * Second, UnbillableDuration := 30 * Second \<rparr>) = 29 * Second \<and>
   UnbillableDuration (exampleEntry\<lparr> BillableDuration := 29 * Second, UnbillableDuration := 30 * Second \<rparr>) = 30 * Second \<and>
   BillableSeconds
     (buildUploadEntry (formatDate exampleLib) (formatTime exampleLib)
        (exampleOpts\<lparr> TreatDurationAsBilled := True, RoundToClosestMinute := True \<rparr>)
        (exampleEntry\<lparr> BillableDuration := 29 * Second, UnbillableDuration := 30 * Second \<rparr>) exampleIssue) = 60 \<and>
   TimeSpentSeconds
     (buildUploadEntry (formatDate exampleLib) (formatTime exampleLib)
        (exampleOpts\<lparr> TreatDurationAsBilled := True, RoundToClosestMinute := True \<rparr>)
        (exampleEntry\<lparr> BillableDuration := 29 * Second, UnbillableDuration := 30 * Second \<rparr>) exampleIssue) = 60 \<and>
   BillableSeconds
     (buildUploadEntry (formatDate exampleLib) (formatTime exampleLib)
        (exampleOpts\<lparr> TreatDurationAsBilled := True, RoundToClosestMinute := True \<rparr>)
        (exampleEntry\<lparr> BillableDuration := 20 * Second, UnbillableDuration := 20 * Second \<rparr>) exampleIssue) = 60 \<and>
   roundToClosestMinute (20 * Second) + roundToClosestMinute (20 * Second) = 0"
proof -
  let ?o = "exampleOpts\<lparr> TreatDurationAsBilled := True, RoundToClosestMinute := True \<rparr>"
  have f: "TreatDurationAsBilled ?o" "RoundToClosestMinute ?o" by simp_all
  show ?thesis
    using fold_then_round [OF f, of "exampleEntry\<lparr> BillableDuration := 29 * Second, UnbillableDuration := 30 * Second \<rparr>"
        "formatDate exampleLib" "formatTime exampleLib" exampleIssue]
      fold_then_round [OF f, of "exampleEntry\<lparr> BillableDuration := 20 * Second, UnbillableDuration := 20 * Second \<rparr>"
        "formatDate exampleLib" "formatTime exampleLib" exampleIssue]
    by simp
qed

text \<open>
  Claim C3. With \<open>RoundToClosestMinute\<close> set and \<open>TreatDurationAsBilled\<close> unset, each
  component is rounded to the nearest minute, halves away from zero: a duration of a
  whole number of seconds is transmitted as its number of whole minutes, plus one when
  the seconds left over are 30 or more (minus one when they are -30 or less). So 30
  seconds are transmitted as 60 seconds and 29 seconds as 0 seconds, in the billable
  component and in the total alike.
\<close>

theorem round_half_away_from_zero:
  "(sint d smod sint Second = 0 \<longrightarrow>
      transmittedSeconds (roundToClosestMinute d) =
        60 * (sint d sdiv sint Minute +
              (if 30 * sint Second \<le> sint d smod sint Minute then 1
               else if sint d smod sint Minute \<le> - (30 * sint Second) then - 1 else 0))) \<and>
   BillableSeconds
     (buildUploadEntry fmtDate fmtTime (opts\<lparr> TreatDurationAsBilled := False, RoundToClosestMinute := True \<rparr>)
        (entry\<lparr> BillableDuration := 0, UnbillableDuration := 30 * Second \<rparr>) issue) = 0 \<and>
   TimeSpentSeconds
     (buildUploadEntry fmtDate fmtTime (opts\<lparr> TreatDurationAsBilled := False, RoundToClosestMinute := True \<rparr>)
        (entry\<lparr> BillableDuration := 0, UnbillableDuration := 30 * Second \<rparr>) issue) = 60 \<and>
   TimeSpentSeconds
     (buildUploadEntry fmtDate fmtTime (opts\<lparr> TreatDurationAsBilled := False, RoundToClosestMinute := True \<rparr>)
        (entry\<lparr> BillableDuration := 0, UnbillableDuration := 29 * Second \<rparr>) issue) = 0 \<and>
   BillableSeconds
     (buildUploadEntry fmtDate fmtTime (opts\<lparr> TreatDurationAsBilled := False, RoundToClosestMinute := True \<rparr>)
        (entry\<lparr> BillableDuration := 30 * Second, UnbillableDuration := 0 \<rparr>) issue) = 60 \<and>
   BillableSeconds
     (buildUploadEntry fmtDate fmtTime (opts\<lparr> TreatDurationAsBilled := False, RoundToClosestMinute := True \<rparr>)
        (entry\<lparr> BillableDuration := 29 * Second, UnbillableDuration := 0 \<rparr>) issue) = 0"
proof -
  have r30: "roundToClosestMinute (30 * Second) = 60 * Second"
    by code_simp
  have r29: "roundToClosestMinute (29 * Second) = 0"
    by code_simp
  have s60: "int_of_float (Seconds (60 * Second)) = 60"
    by code_simp
  have s0: "int_of_float (Seconds 0) = 0"
    using transmittedSeconds_0 by (simp add: transmittedSeconds_def)
  have general: "sint d smod sint Second = 0 \<longrightarrow>
      transmittedSeconds (roundToClosestMinute d) =
        60 * (sint d sdiv sint Minute +
              (if 30 * sint Second \<le> sint d smod sint Minute then 1
               else if sint d smod sint Minute \<le> - (30 * sint Second) then - 1 else 0))"
    using roundedMinutes_whole_seconds [of d]
    by (simp add: transmittedSeconds_rounded sint_Second sint_Minute)
  show ?thesis
    by (intro conjI general)
       (simp_all add: buildUploadEntry_def durationPolicy_def Let_def r30 r29 roundToClosestMinute_0 s60 s0)
qed

theorem round_half_away_from_zero_witness:
  "sint (30 * Second) smod sint Second = 0 \<and>
   transmittedSeconds (roundToClosestMinute (30 * Second)) = 60 \<and>
   sint (29 * Second) smod sint Second = 0 \<and>
   transmittedSeconds (roundToClosestMinute (29 * Second)) = 0 \<and>
   sint (- (30 * Second)) smod sint Second = 0 \<and>
   transmittedSeconds (roundToClosestMinute (- (30 * Second))) = - 60"
proof -
  have v: "sint (30 * Second) = 30000000000" "sint (29 * Second) = 29000000000"
    "sint (- (30 * Second)) = - 30000000000"
    by (simp_all add: Second_def)
  show ?thesis
    using round_half_away_from_zero [of "30 * Second"] round_half_away_from_zero [of "29 * Second"]
      round_half_away_from_zero [of "- (30 * Second)"]
    by (simp add: v sint_Second sint_Minute signed_modulo_int_def signed_divide_int_def)
qed

text \<open>
  Claim C4, as the code has it. As durations (nanoseconds, in \<open>int64\<close> arithmetic),
  \<open>totalTimeSpent = billableDuration + unbillableDuration\<close> holds after the policy for
  every entry and every combination of the options. The payload carries
  \<open>int(d.Seconds())\<close> of the billable and of the total duration, each cut to whole
  seconds on its own. \<open>TimeSpentSeconds = BillableSeconds +\<close> the seconds of the unbillable
  duration after the policy
  \<^item> for every entry when \<open>TreatDurationAsBilled\<close> is set, or when one of the two durations
    after the policy is 0;
  \<^item> for non-negative durations whose sum after the policy does not exceed the largest
    \<open>int64\<close>, when \<open>RoundToClosestMinute\<close> is set or both durations are whole numbers of
    seconds;
  \<^item> for non-negative durations with a sum below \<open>2^24\<close> seconds, exactly when their
    fractions of a second add up to less than a second.
\<close>

theorem transmitted_seconds_add_up:
  assumes pol: "durationPolicy opts entry = (billable', unbillable', total')"
  shows "total' = billable' + unbillable' \<and>
         (TreatDurationAsBilled opts \<or> billable' = 0 \<or> unbillable' = 0 \<longrightarrow>
            TimeSpentSeconds (buildUploadEntry fmtDate fmtTime opts entry issue) =
              BillableSeconds (buildUploadEntry fmtDate fmtTime opts entry issue) +
              transmittedSeconds unbillable') \<and>
         (0 \<le> sint billable' \<and> 0 \<le> sint unbillable' \<and> sint billable' + sint unbillable' < 2 ^ 63 \<and>
          sint billable' smod sint Second = 0 \<and> sint unbillable' smod sint Second = 0 \<longrightarrow>
            TimeSpentSeconds (buildUploadEntry fmtDate fmtTime opts entry issue) =
              BillableSeconds (buildUploadEntry fmtDate fmtTime opts entry issue) +
              transmittedSeconds unbillable') \<and>
         (RoundToClosestMinute opts \<and>
          0 \<le> sint (BillableDuration entry) \<and> 0 \<le> sint (UnbillableDuration entry) \<and>
          sint billable' + sint unbillable' < 2 ^ 63 \<longrightarrow>
            TimeSpentSeconds (buildUploadEntry fmtDate fmtTime opts entry issue) =
              BillableSeconds (buildUploadEntry fmtDate fmtTime opts entry issue) +
              transmittedSeconds unbillable') \<and>
         (0 \<le> sint billable' \<and> 0 \<le> sint unbillable' \<and>
          sint billable' + sint unbillable' < 2 ^ 24 * sint Second \<longrightarrow>
            (TimeSpentSeconds (buildUploadEntry fmtDate fmtTime opts entry issue) =
               BillableSeconds (buildUploadEntry fmtDate fmtTime opts entry issue) +
               transmittedSeconds unbillable' \<longleftrightarrow>
             sint billable' smod sint Second + sint unbillable' smod sint Second < sint Second))"
proof -
  let ?b = "BillableDuration entry" and ?u = "UnbillableDuration entry"
  let ?EQ = "TimeSpentSeconds (buildUploadEntry fmtDate fmtTime opts entry issue) =
              BillableSeconds (buildUploadEntry fmtDate fmtTime opts entry issue) +
              transmittedSeconds unbillable'"
  have sum: "total' = billable' + unbillable'"
    using pol by (auto simp: durationPolicy_def Let_def add.commute split: if_splits)
  note payload = payload_seconds [OF pol]
  have eq: "?EQ \<longleftrightarrow> transmittedSeconds (billable' + unbillable') =
      transmittedSeconds billable' + transmittedSeconds unbillable'"
    unfolding payload sum ..
  have treat: "unbillable' = 0" if "TreatDurationAsBilled opts"
    using that pol by (auto simp: durationPolicy_def Let_def roundToClosestMinute_0 split: if_splits)
  have zero: ?EQ if "TreatDurationAsBilled opts \<or> billable' = 0 \<or> unbillable' = 0"
    using that treat unfolding eq by (auto simp: transmittedSeconds_0)
  have whole: ?EQ
    if "0 \<le> sint billable'" "0 \<le> sint unbillable'" "sint billable' + sint unbillable' < 2 ^ 63"
      "sint billable' smod sint Second = 0" "sint unbillable' smod sint Second = 0"
    unfolding eq using that by (intro sum_whole_seconds) (simp_all add: sint_Second)
  have round: ?EQ
    if r: "RoundToClosestMinute opts" and n: "0 \<le> sint ?b" "0 \<le> sint ?u"
      and fit: "sint billable' + sint unbillable' < 2 ^ 63"
  proof (cases "TreatDurationAsBilled opts")
    case True
    then show ?thesis using zero by blast
  next
    case False
    then have bu: "billable' = roundToClosestMinute ?b" "unbillable' = roundToClosestMinute ?u"
      using pol r by (auto simp: durationPolicy_def Let_def)
    show ?thesis
      using rounded_step [OF n(1)] rounded_step [OF n(2)] fit unfolding bu
      by (intro whole [unfolded bu]) (simp_all add: sint_Second)
  qed
  have small: "?EQ \<longleftrightarrow> sint billable' smod sint Second + sint unbillable' smod sint Second < sint Second"
    if n: "0 \<le> sint billable'" "0 \<le> sint unbillable'"
      and fit: "sint billable' + sint unbillable' < 2 ^ 24 * sint Second"
  proof -
    have fit': "sint billable' + sint unbillable' < 16777216000000000"
      using fit by (simp add: sint_Second)
    have s: "sint (billable' + unbillable') = sint billable' + sint unbillable'"
      using n fit' by (intro sint_add_no_wrap) simp_all
    have "transmittedSeconds (billable' + unbillable') = (sint billable' + sint unbillable') div 1000000000"
      using n fit' s transmittedSeconds_floor [of "billable' + unbillable'"] by simp
    moreover have "transmittedSeconds billable' = sint billable' div 1000000000"
      using n fit' by (intro transmittedSeconds_floor) simp_all
    moreover have "transmittedSeconds unbillable' = sint unbillable' div 1000000000"
      using n fit' by (intro transmittedSeconds_floor) simp_all
    moreover have "(sint billable' + sint unbillable') div 1000000000 =
        sint billable' div 1000000000 + sint unbillable' div 1000000000 \<longleftrightarrow>
        sint billable' mod 1000000000 + sint unbillable' mod 1000000000 < 1000000000"
      using n by (intro div_add_no_carry) simp_all
    ultimately show ?thesis
      unfolding eq using n by (simp add: sint_Second sdiv_smod_nonneg)
  qed
  show ?thesis
    using sum zero whole round small by blast
qed

theorem transmitted_seconds_add_up_witness:
  "(durationPolicy exampleOpts
      (exampleEntry\<lparr> BillableDuration := 300000000, UnbillableDuration := 300000000 \<rparr>) =
      (300000000, 300000000, 600000000) \<and>
    sint (300000000 :: Duration) smod sint Second + sint (300000000 :: Duration) smod sint Second < sint Second \<and>
    TimeSpentSeconds
      (buildUploadEntry (formatDate exampleLib) (formatTime exampleLib) exampleOpts
         (exampleEntry\<lparr> BillableDuration := 300000000, UnbillableDuration := 300000000 \<rparr>) exampleIssue) =
    BillableSeconds
      (buildUploadEntry (formatDate exampleLib) (formatTime exampleLib) exampleOpts
         (exampleEntry\<lparr> BillableDuration := 300000000, UnbillableDuration := 300000000 \<rparr>) exampleIssue) +
    transmittedSeconds 300000000) \<and>
   (durationPolicy (exampleOpts\<lparr> RoundToClosestMinute := True \<rparr>)
      (exampleEntry\<lparr> BillableDuration := 29 * Second, UnbillableDuration := 30 * Second \<rparr>) =
      (0, 60 * Second, 60 * Second) \<and>
    RoundToClosestMinute (exampleOpts\<lparr> RoundToClosestMinute := True \<rparr>) \<and>
    TimeSpentSeconds
      (buildUploadEntry (formatDate exampleLib) (formatTime exampleLib) (exampleOpts\<lparr> RoundToClosestMinute := True \<rparr>)
         (exampleEntry\<lparr> BillableDuration := 29 * Second, UnbillableDuration := 30 * Second \<rparr>) exampleIssue) =
    BillableSeconds
      (buildUploadEntry (formatDate exampleLib) (formatTime exampleLib) (exampleOpts\<lparr> RoundToClosestMinute := True \<rparr>)
         (exampleEntry\<lparr> BillableDuration := 29 * Second, UnbillableDuration := 30 * Second \<rparr>) exampleIssue) +
    transmittedSeconds (60 * Second)) \<and>
   (durationPolicy (exampleOpts\<lparr> TreatDurationAsBilled := True \<rparr>) exampleEntry = (1000000000, 0, 1000000000) \<and>
    TreatDurationAsBilled (exampleOpts\<lparr> TreatDurationAsBilled := True \<rparr>) \<and>
    TimeSpentSeconds
      (buildUploadEntry (formatDate exampleLib) (formatTime exampleLib) (exampleOpts\<lparr> TreatDurationAsBilled := True \<rparr>)
         exampleEntry exampleIssue) =
    BillableSeconds
      (buildUploadEntry (formatDate exampleLib) (formatTime exampleLib) (exampleOpts\<lparr> TreatDurationAsBilled := True \<rparr>)
         exampleEntry exampleIssue) +
    transmittedSeconds 0) \<and>
   (durationPolicy exampleOpts
      (exampleEntry\<lparr> BillableDuration := 2 * Second, UnbillableDuration := 3 * Second \<rparr>) =
      (2 * Second, 3 * Second, 5 * Second) \<and>
    sint (2 * Second) smod sint Second = 0 \<and> sint (3 * Second) smod sint Second = 0 \<and>
    TimeSpentSeconds
      (buildUploadEntry (formatDate exampleLib) (formatTime exampleLib) exampleOpts
         (exampleEntry\<lparr> BillableDuration := 2 * Second, UnbillableDuration := 3 * Second \<rparr>) exampleIssue) =
    BillableSeconds
      (buildUploadEntry (formatDate exampleLib) (formatTime exampleLib) exampleOpts
         (exampleEntry\<lparr> BillableDuration := 2 * Second, UnbillableDuration := 3 * Second \<rparr>) exampleIssue) +
    transmittedSeconds (3 * Second))"
proof -
  let ?e1 = "exampleEntry\<lparr> BillableDuration := 300000000, UnbillableDuration := 300000000 \<rparr>"
  let ?e2 = "exampleEntry\<lparr> BillableDuration := 29 * Second, UnbillableDuration := 30 * Second \<rparr>"
  let ?e4 = "exampleEntry\<lparr> BillableDuration := 2 * Second, UnbillableDuration := 3 * Second \<rparr>"
  let ?o2 = "exampleOpts\<lparr> RoundToClosestMinute := True \<rparr>"
  let ?o3 = "exampleOpts\<lparr> TreatDurationAsBilled := True \<rparr>"
  have v: "sint (29 * Second) = 29000000000" "sint (30 * Second) = 30000000000"
    "sint (60 * Second) = 60000000000" "sint (2 * Second) = 2000000000"
    "sint (3 * Second) = 3000000000" "sint (300000000 :: Duration) = 300000000"
    by (simp_all add: Second_def)
  have m: "(300000000 :: int) smod 1000000000 = 300000000" "(2000000000 :: int) smod 1000000000 = 0"
    "(3000000000 :: int) smod 1000000000 = 0"
    by (simp_all add: sdiv_smod_nonneg)
  have r: "roundToClosestMinute (29 * Second) = 0" "roundToClosestMinute (30 * Second) = 60 * Second"
    by code_simp+
  have pol1: "durationPolicy exampleOpts ?e1 = (300000000, 300000000, 600000000)"
    by (simp add: durationPolicy_def Let_def exampleOpts_def)
  have pol2: "durationPolicy ?o2 ?e2 = (0, 60 * Second, 60 * Second)"
    by (simp add: durationPolicy_def Let_def exampleOpts_def r)
  have pol3: "durationPolicy ?o3 exampleEntry = (1000000000, 0, 1000000000)"
    by (simp add: durationPolicy_def Let_def exampleOpts_def exampleEntry_def)
  have pol4: "durationPolicy exampleOpts ?e4 = (2 * Second, 3 * Second, 5 * Second)"
    by (simp add: durationPolicy_def Let_def exampleOpts_def Second_def)
  have h1: "0 \<le> sint (300000000 :: Duration) \<and> 0 \<le> sint (300000000 :: Duration) \<and>
      sint (300000000 :: Duration) + sint (300000000 :: Duration) < 2 ^ 24 * sint Second"
    "sint (300000000 :: Duration) smod sint Second + sint (300000000 :: Duration) smod sint Second < sint Second"
    by (simp_all add: v m sint_Second)
  have h2: "RoundToClosestMinute ?o2 \<and> 0 \<le> sint (BillableDuration ?e2) \<and> 0 \<le> sint (UnbillableDuration ?e2) \<and>
      sint (0 :: Duration) + sint (60 * Second) < 2 ^ 63"
    by (simp add: v)
  have h3: "TreatDurationAsBilled ?o3"
    by simp
  have h4: "0 \<le> sint (2 * Second) \<and> 0 \<le> sint (3 * Second) \<and> sint (2 * Second) + sint (3 * Second) < 2 ^ 63 \<and>
      sint (2 * Second) smod sint Second = 0 \<and> sint (3 * Second) smod sint Second = 0"
    by (simp add: v m sint_Second)
  have e1: "TimeSpentSeconds (buildUploadEntry (formatDate exampleLib) (formatTime exampleLib) exampleOpts ?e1 exampleIssue) =
      BillableSeconds (buildUploadEntry (formatDate exampleLib) (formatTime exampleLib) exampleOpts ?e1 exampleIssue) +
      transmittedSeconds 300000000"
    using transmitted_seconds_add_up [OF pol1] h1 by blast
  have e2: "TimeSpentSeconds (buildUploadEntry (formatDate exampleLib) (formatTime exampleLib) ?o2 ?e2 exampleIssue) =
      BillableSeconds (buildUploadEntry (formatDate exampleLib) (formatTime exampleLib) ?o2 ?e2 exampleIssue) +
      transmittedSeconds (60 * Second)"
    using transmitted_seconds_add_up [OF pol2] h2 by blast
  have e3: "TimeSpentSeconds (buildUploadEntry (formatDate exampleLib) (formatTime exampleLib) ?o3 exampleEntry exampleIssue) =
      BillableSeconds (buildUploadEntry (formatDate exampleLib) (formatTime exampleLib) ?o3 exampleEntry exampleIssue) +
      transmittedSeconds 0"
    using transmitted_seconds_add_up [OF pol3] h3 by blast
  have e4: "TimeSpentSeconds (buildUploadEntry (formatDate exampleLib) (formatTime exampleLib) exampleOpts ?e4 exampleIssue) =
      BillableSeconds (buildUploadEntry (formatDate exampleLib) (formatTime exampleLib) exampleOpts ?e4 exampleIssue) +
      transmittedSeconds (3 * Second)"
    using transmitted_seconds_add_up [OF pol4] h4 by blast
  have o: "RoundToClosestMinute ?o2" "TreatDurationAsBilled ?o3"
    by simp_all
  show ?thesis
    using pol1 pol2 pol3 pol4 h1(2) h4 o e1 e2 e3 e4 by blast
qed

text \<open>
  Claim C4 as stated fails, and none of the conditions above can be dropped. With no
  option set, half a second billable and half a second unbillable are transmitted as
  \<open>BillableSeconds = 0\<close> and \<open>TimeSpentSeconds = 1\<close>: the fractions carry. With no option
  set, 9223372036 seconds and one second add up beyond the largest \<open>int64\<close>, and
  \<open>TimeSpentSeconds\<close> is negative; so it is with \<open>RoundToClosestMinute\<close> for twice 76861434
  minutes. With no option set and no carry, \<open>16777215.999999999\<close> seconds and one second
  are transmitted as \<open>16777215\<close>, \<open>1\<close> and \<open>16777217\<close>: beyond \<open>2^24\<close> seconds the
  division in \<open>Seconds()\<close> rounds the fraction up to the next whole second.
\<close>

theorem transmitted_seconds_counterexample:
  "(sint (BillableDuration exampleEntry) = 500000000 \<and>
    sint (UnbillableDuration exampleEntry) = 500000000 \<and>
    \<not> TreatDurationAsBilled exampleOpts \<and> \<not> RoundToClosestMinute exampleOpts \<and>
    durationPolicy exampleOpts exampleEntry = (500000000, 500000000, 1000000000) \<and>
    TimeSpentSeconds
      (buildUploadEntry (formatDate exampleLib) (formatTime exampleLib) exampleOpts exampleEntry exampleIssue) = 1 \<and>
    BillableSeconds
      (buildUploadEntry (formatDate exampleLib) (formatTime exampleLib) exampleOpts exampleEntry exampleIssue) = 0 \<and>
    transmittedSeconds (fst (snd (durationPolicy exampleOpts exampleEntry))) = 0 \<and>
    TimeSpentSeconds
      (buildUploadEntry (formatDate exampleLib) (formatTime exampleLib) exampleOpts exampleEntry exampleIssue) \<noteq>
    BillableSeconds
      (buildUploadEntry (formatDate exampleLib) (formatTime exampleLib) exampleOpts exampleEntry exampleIssue) +
    transmittedSeconds (fst (snd (durationPolicy exampleOpts exampleEntry)))) \<and>
   (sint (9223372036 * Second) = 9223372036000000000 \<and> sint (1 * Second) = 1000000000 \<and>
    durationPolicy exampleOpts
      (exampleEntry\<lparr> BillableDuration := 9223372036 * Second, UnbillableDuration := 1 * Second \<rparr>) =
      (9223372036 * Second, 1 * Second, 9223372036 * Second + 1 * Second) \<and>
    sint (9223372036 * Second + 1 * Second) = - 9223372036709551616 \<and>
    TimeSpentSeconds
      (buildUploadEntry (formatDate exampleLib) (formatTime exampleLib) exampleOpts
         (exampleEntry\<lparr> BillableDuration := 9223372036 * Second, UnbillableDuration := 1 * Second \<rparr>)
         exampleIssue) = - 9223372036 \<and>
    BillableSeconds
      (buildUploadEntry (formatDate exampleLib) (formatTime exampleLib) exampleOpts
         (exampleEntry\<lparr> BillableDuration := 9223372036 * Second, UnbillableDuration := 1 * Second \<rparr>)
         exampleIssue) = 9223372036 \<and>
    transmittedSeconds (1 * Second) = 1) \<and>
   (sint (76861434 * Minute) = 4611686040000000000 \<and>
    RoundToClosestMinute (exampleOpts\<lparr> RoundToClosestMinute := True \<rparr>) \<and>
    durationPolicy (exampleOpts\<lparr> RoundToClosestMinute := True \<rparr>)
      (exampleEntry\<lparr> BillableDuration := 76861434 * Minute, UnbillableDuration := 76861434 * Minute \<rparr>) =
      (76861434 * Minute, 76861434 * Minute, 76861434 * Minute + 76861434 * Minute) \<and>
    TimeSpentSeconds
      (buildUploadEntry (formatDate exampleLib) (formatTime exampleLib) (exampleOpts\<lparr> RoundToClosestMinute := True \<rparr>)
         (exampleEntry\<lparr> BillableDuration := 76861434 * Minute, UnbillableDuration := 76861434 * Minute \<rparr>)
         exampleIssue) = - 9223371993 \<and>
    BillableSeconds
      (buildUploadEntry (formatDate exampleLib) (formatTime exampleLib) (exampleOpts\<lparr> RoundToClosestMinute := True \<rparr>)
         (exampleEntry\<lparr> BillableDuration := 76861434 * Minute, UnbillableDuration := 76861434 * Minute \<rparr>)
         exampleIssue) = 4611686040 \<and>
    transmittedSeconds (76861434 * Minute) = 4611686040) \<and>
   (sint (16777215999999999 :: Duration) = 16777215999999999 \<and>
    sint (16777215999999999 :: Duration) smod sint Second + sint (1 * Second) smod sint Second < sint Second \<and>
    2 ^ 24 * sint Second \<le> sint (16777215999999999 :: Duration) + sint (1 * Second) \<and>
    durationPolicy exampleOpts
      (exampleEntry\<lparr> BillableDuration := 16777215999999999, UnbillableDuration := 1 * Second \<rparr>) =
      (16777215999999999, 1 * Second, 16777216999999999) \<and>
    TimeSpentSeconds
      (buildUploadEntry (formatDate exampleLib) (formatTime exampleLib) exampleOpts
         (exampleEntry\<lparr> BillableDuration := 16777215999999999, UnbillableDuration := 1 * Second \<rparr>)
         exampleIssue) = 16777217 \<and>
    BillableSeconds
      (buildUploadEntry (formatDate exampleLib) (formatTime exampleLib) exampleOpts
         (exampleEntry\<lparr> BillableDuration := 16777215999999999, UnbillableDuration := 1 * Second \<rparr>)
         exampleIssue) = 16777215)"
  proof -
  let ?e2 = "exampleEntry\<lparr> BillableDuration := 9223372036 * Second, UnbillableDuration := 1 * Second \<rparr>"
  let ?e3 = "exampleEntry\<lparr> BillableDuration := 76861434 * Minute, UnbillableDuration := 76861434 * Minute \<rparr>"
  let ?e4 = "exampleEntry\<lparr> BillableDuration := 16777215999999999, UnbillableDuration := 1 * Second \<rparr>"
  let ?o3 = "exampleOpts\<lparr> RoundToClosestMinute := True \<rparr>"
  have v: "sint (BillableDuration exampleEntry) = 500000000" "sint (UnbillableDuration exampleEntry) = 500000000"
    "sint (9223372036 * Second) = 9223372036000000000" "sint (1 * Second) = 1000000000"
    "sint (9223372036 * Second + 1 * Second) = - 9223372036709551616"
    "sint (76861434 * Minute) = 4611686040000000000"
    "sint (16777215999999999 :: Duration) = 16777215999999999"
    by (simp_all add: exampleEntry_def Minute_def Second_def)
  have m: "(16777215999999999 :: int) smod 1000000000 = 999999999" "(1000000000 :: int) smod 1000000000 = 0"
    by (simp_all add: sdiv_smod_nonneg)
  have r: "roundToClosestMinute (76861434 * Minute) = 76861434 * Minute"
    by code_simp
  have pol1: "durationPolicy exampleOpts exampleEntry = (500000000, 500000000, 1000000000)"
    by (simp add: durationPolicy_def Let_def exampleOpts_def exampleEntry_def)
  have pol2: "durationPolicy exampleOpts ?e2 = (9223372036 * Second, 1 * Second, 9223372036 * Second + 1 * Second)"
    by (simp add: durationPolicy_def Let_def exampleOpts_def)
  have pol3: "durationPolicy ?o3 ?e3 = (76861434 * Minute, 76861434 * Minute, 76861434 * Minute + 76861434 * Minute)"
    by (simp add: durationPolicy_def Let_def exampleOpts_def r)
  have pol4: "durationPolicy exampleOpts ?e4 = (16777215999999999, 1 * Second, 16777216999999999)"
    by (simp add: durationPolicy_def Let_def exampleOpts_def Second_def)
  have t: "transmittedSeconds 1000000000 = 1" "transmittedSeconds 500000000 = 0"
    "transmittedSeconds (9223372036 * Second + 1 * Second) = - 9223372036"
    "transmittedSeconds (9223372036 * Second) = 9223372036"
    "transmittedSeconds (1 * Second) = 1"
    "transmittedSeconds (76861434 * Minute + 76861434 * Minute) = - 9223371993"
    "transmittedSeconds (76861434 * Minute) = 4611686040"
    "transmittedSeconds 16777216999999999 = 16777217"
    "transmittedSeconds 16777215999999999 = 16777215"
    by code_simp+
  have g1: "sint (BillableDuration exampleEntry) = 500000000 \<and>
    sint (UnbillableDuration exampleEntry) = 500000000 \<and>
    \<not> TreatDurationAsBilled exampleOpts \<and> \<not> RoundToClosestMinute exampleOpts \<and>
    durationPolicy exampleOpts exampleEntry = (500000000, 500000000, 1000000000) \<and>
    TimeSpentSeconds
      (buildUploadEntry (formatDate exampleLib) (formatTime exampleLib) exampleOpts exampleEntry exampleIssue) = 1 \<and>
    BillableSeconds
      (buildUploadEntry (formatDate exampleLib) (formatTime exampleLib) exampleOpts exampleEntry exampleIssue) = 0 \<and>
    transmittedSeconds (fst (snd (durationPolicy exampleOpts exampleEntry))) = 0 \<and>
    TimeSpentSeconds
      (buildUploadEntry (formatDate exampleLib) (formatTime exampleLib) exampleOpts exampleEntry exampleIssue) \<noteq>
    BillableSeconds
      (buildUploadEntry (formatDate exampleLib) (formatTime exampleLib) exampleOpts exampleEntry exampleIssue) +
    transmittedSeconds (fst (snd (durationPolicy exampleOpts exampleEntry)))"
    unfolding payload_seconds [OF pol1] pol1 fst_conv snd_conv t v by (simp add: exampleOpts_def)
  have g2: "sint (9223372036 * Second) = 9223372036000000000 \<and> sint (1 * Second) = 1000000000 \<and>
    durationPolicy exampleOpts ?e2 = (9223372036 * Second, 1 * Second, 9223372036 * Second + 1 * Second) \<and>
    sint (9223372036 * Second + 1 * Second) = - 9223372036709551616 \<and>
    TimeSpentSeconds
      (buildUploadEntry (formatDate exampleLib) (formatTime exampleLib) exampleOpts ?e2 exampleIssue) = - 9223372036 \<and>
    BillableSeconds
      (buildUploadEntry (formatDate exampleLib) (formatTime exampleLib) exampleOpts ?e2 exampleIssue) = 9223372036 \<and>
    transmittedSeconds (1 * Second) = 1"
    unfolding payload_seconds [OF pol2] t v using pol2 by simp
  have g3: "sint (76861434 * Minute) = 4611686040000000000 \<and>
    RoundToClosestMinute ?o3 \<and>
    durationPolicy ?o3 ?e3 = (76861434 * Minute, 76861434 * Minute, 76861434 * Minute + 76861434 * Minute) \<and>
    TimeSpentSeconds
      (buildUploadEntry (formatDate exampleLib) (formatTime exampleLib) ?o3 ?e3 exampleIssue) = - 9223371993 \<and>
    BillableSeconds
      (buildUploadEntry (formatDate exampleLib) (formatTime exampleLib) ?o3 ?e3 exampleIssue) = 4611686040 \<and>
    transmittedSeconds (76861434 * Minute) = 4611686040"
    unfolding payload_seconds [OF pol3] t v using pol3 by simp
  have g4: "sint (16777215999999999 :: Duration) = 16777215999999999 \<and>
    sint (16777215999999999 :: Duration) smod sint Second + sint (1 * Second) smod sint Second < sint Second \<and>
    2 ^ 24 * sint Second \<le> sint (16777215999999999 :: Duration) + sint (1 * Second) \<and>
    durationPolicy exampleOpts ?e4 = (16777215999999999, 1 * Second, 16777216999999999) \<and>
    TimeSpentSeconds
      (buildUploadEntry (formatDate exampleLib) (formatTime exampleLib) exampleOpts ?e4 exampleIssue) = 16777217 \<and>
    BillableSeconds
      (buildUploadEntry (formatDate exampleLib) (formatTime exampleLib) exampleOpts ?e4 exampleIssue) = 16777215"
    unfolding payload_seconds [OF pol4] t v sint_Second m using pol4 by simp
  show ?thesis
    using g1 g2 g3 g4 by blast
qed

text \<open>
  Claim C8. Rounding to the closest minute leaves a duration that is a whole number of
  minutes unchanged, whatever its sign. The result of the rounding is always such a
  duration, so rounding twice is rounding once, and so is applying the whole policy
  to its own result.
\<close>

theorem roundToClosestMinute_idempotent:
  "(sint d smod sint Minute = 0 \<longrightarrow> roundToClosestMinute d = d) \<and>
   roundToClosestMinute (roundToClosestMinute d) = roundToClosestMinute d \<and>
   durationPolicy opts
     (entry\<lparr> BillableDuration := fst (durationPolicy opts entry),
             UnbillableDuration := fst (snd (durationPolicy opts entry)) \<rparr>) =
     durationPolicy opts entry"
proof -
  have twice: "roundToClosestMinute (roundToClosestMinute x) = roundToClosestMinute x" for x
    using roundToClosestMinute_aligned [of x] by (rule roundToClosestMinute_whole)
  have "sint d smod sint Minute = 0 \<longrightarrow> roundToClosestMinute d = d"
    using roundToClosestMinute_whole [of d] by (simp add: sint_Minute)
  moreover have "durationPolicy opts
     (entry\<lparr> BillableDuration := fst (durationPolicy opts entry),
             UnbillableDuration := fst (snd (durationPolicy opts entry)) \<rparr>) =
     durationPolicy opts entry"
    by (simp add: durationPolicy_def Let_def twice roundToClosestMinute_0 add.commute)
  ultimately show ?thesis using twice by blast
qed

theorem roundToClosestMinute_idempotent_witness:
  "sint (120000000000 :: Duration) smod sint Minute = 0 \<and>
   roundToClosestMinute 120000000000 = 120000000000"
  using roundToClosestMinute_idempotent [of 120000000000] by (simp add: sint_Minute)


section \<open>The claims about the upload\<close>

text \<open>
  Claim C1, as the code has it. When both URLs are built, \<open>UploadEntries\<close> starts one
  goroutine for each group. However the steps of the goroutines are interleaved and
  whichever lookups, decodings and uploads fail, every value published so far belongs
  to one entry whose course is over: it is the error of the step that failed, and nil
  exactly when the lookup, the decoding and the upload request of that entry went well;
  no entry gets two values, so that at no moment more than \<open>len(entries)\<close> values are
  published. Once the goroutines have returned every entry has got its value: exactly
  \<open>len(entries)\<close> values are published, and the events of the run are those of the
  courses of the entries, one lookup for each entry and one upload request for each
  entry whose issue was decoded. From every moment on the goroutines can return. When
  building one of the two URLs fails, the call publishes that single error, starts no
  goroutine and attempts no entry.
\<close>

theorem UploadEntries_publishes:
  "(HTTPClient_URL lib (tempoHttpClient c) TempoPathWorklogCreate [] = Inr createURL \<and>
    HTTPClient_URL lib (jiraHttpClient c) JiraPathIssue [] = Inr getIssueURL \<longrightarrow>
      (\<forall>schedule. \<exists>fin.
         list_all (wellFormed lib opts) fin \<and>
         list_all (\<lambda>h. (verdict lib opts h = None) = succeeded lib h) fin \<and>
         mset (map fst fin) \<subseteq># mset entries \<and>
         mset (published (fst (run lib c opts schedule (UploadEntries lib c entries opts s)))) =
           mset (published s) + mset (map (verdict lib opts) fin) \<and>
         mset (events s) + mset (concat (map (trace lib c opts createURL getIssueURL) fin)) \<subseteq>#
           mset (events (fst (run lib c opts schedule (UploadEntries lib c entries opts s)))) \<and>
         (finished (snd (run lib c opts schedule (UploadEntries lib c entries opts s))) \<longrightarrow>
            mset (map fst fin) = mset entries \<and>
            mset (events (fst (run lib c opts schedule (UploadEntries lib c entries opts s)))) =
              mset (events s) + mset (concat (map (trace lib c opts createURL getIssueURL) fin)))) \<and>
      (\<forall>schedule.
         length (published (fst (run lib c opts schedule (UploadEntries lib c entries opts s)))) \<le>
           length (published s) + length entries \<and>
         (finished (snd (run lib c opts schedule (UploadEntries lib c entries opts s))) \<longrightarrow>
            length (published (fst (run lib c opts schedule (UploadEntries lib c entries opts s)))) =
              length (published s) + length entries)) \<and>
      (\<forall>schedule. \<exists>more.
         finished (snd (run lib c opts (schedule @ more) (UploadEntries lib c entries opts s))))) \<and>
   (HTTPClient_URL lib (tempoHttpClient c) TempoPathWorklogCreate [] = Inl err \<or>
    HTTPClient_URL lib (tempoHttpClient c) TempoPathWorklogCreate [] = Inr createURL \<and>
    HTTPClient_URL lib (jiraHttpClient c) JiraPathIssue [] = Inl err \<longrightarrow>
      UploadEntries lib c entries opts s = (emit (Publish (Some (Errorf2 ErrUploadEntries err))) s, []) \<and>
      published (fst (UploadEntries lib c entries opts s)) =
        published s @ [Some (Errorf2 ErrUploadEntries err)] \<and>
      attempted (fst (UploadEntries lib c entries opts s)) = attempted s)"
proof (intro conjI impI)
  assume urls: "HTTPClient_URL lib (tempoHttpClient c) TempoPathWorklogCreate [] = Inr createURL \<and>
    HTTPClient_URL lib (jiraHttpClient c) JiraPathIssue [] = Inr getIssueURL"
  let ?gs = "map (\<lambda>(key, groupEntries).
      \<lparr> createURL_of = createURL, getIssueURL_of = getIssueURL, pending = groupEntries,
        position = LoopHead \<rparr>)
      (GroupByTask entries)"
  have start: "UploadEntries lib c entries opts s = (s, ?gs)"
    using urls by (simp add: UploadEntries_def)
  have course: "\<exists>fin.
      list_all (wellFormed lib opts) fin \<and>
      list_all (\<lambda>h. (verdict lib opts h = None) = succeeded lib h) fin \<and>
      mset (map fst fin) \<subseteq># mset entries \<and>
      mset (published s') = mset (published s) + mset (map (verdict lib opts) fin) \<and>
      mset (events s) + mset (concat (map (trace lib c opts createURL getIssueURL) fin)) \<subseteq># mset (events s') \<and>
      (finished gs' \<longrightarrow>
         mset (map fst fin) = mset entries \<and>
         mset (events s') = mset (events s) + mset (concat (map (trace lib c opts createURL getIssueURL) fin)))"
    if r: "run lib c opts schedule (s, ?gs) = (s', gs')" for schedule s' gs'
  proof -
    obtain fin where fin: "list_all (wellFormed lib opts) fin"
      and ev: "mset (events s') + mset (concat (map (underway lib c opts) ?gs)) =
         mset (events s) + mset (concat (map (underway lib c opts) gs')) +
         mset (concat (map (trace lib c opts createURL getIssueURL) fin))"
      and left: "mset (map fst fin) + unfinished gs' = unfinished ?gs"
      using run_effect [OF r spawned(1) spawned(2)] by blast
    have ev': "mset (events s') =
        mset (events s @ concat (map (underway lib c opts) gs') @
              concat (map (trace lib c opts createURL getIssueURL) fin))"
      using ev by (simp only: spawned(3)) simp
    have left': "mset (map fst fin) + unfinished gs' = mset entries"
      using left by (simp only: spawned(4) GroupByTask_mset)
    have sub: "mset (map fst fin) \<subseteq># mset entries"
      using mset_subset_eq_add_left [of "mset (map fst fin)" "unfinished gs'"] by (simp only: left')
    have "mset (published s') =
        mset (concat (map sent (events s @ concat (map (underway lib c opts) gs') @
              concat (map (trace lib c opts createURL getIssueURL) fin))))"
      unfolding published_def using ev' by (rule mset_concat_cong)
    then have pub: "mset (published s') = mset (published s) + mset (map (verdict lib opts) fin)"
      by (simp add: published_def sent_underway_all sent_trace_all)
    have part: "mset (events s) + mset (concat (map (trace lib c opts createURL getIssueURL) fin)) \<subseteq>#
        mset (events s')"
      unfolding ev' by simp
    have whole: "mset (map fst fin) = mset entries \<and>
        mset (events s') = mset (events s) + mset (concat (map (trace lib c opts createURL getIssueURL) fin))"
      if "finished gs'"
      using finished_underway(1) [OF that, of lib c opts] finished_underway(2) [OF that] left' ev' by simp
    show ?thesis
      using fin verdict_None_all [OF fin] sub pub part whole by (intro exI [of _ fin]) simp
  qed
  show "\<forall>schedule. \<exists>fin.
         list_all (wellFormed lib opts) fin \<and>
         list_all (\<lambda>h. (verdict lib opts h = None) = succeeded lib h) fin \<and>
         mset (map fst fin) \<subseteq># mset entries \<and>
         mset (published (fst (run lib c opts schedule (UploadEntries lib c entries opts s)))) =
           mset (published s) + mset (map (verdict lib opts) fin) \<and>
         mset (events s) + mset (concat (map (trace lib c opts createURL getIssueURL) fin)) \<subseteq>#
           mset (events (fst (run lib c opts schedule (UploadEntries lib c entries opts s)))) \<and>
         (finished (snd (run lib c opts schedule (UploadEntries lib c entries opts s))) \<longrightarrow>
            mset (map fst fin) = mset entries \<and>
            mset (events (fst (run lib c opts schedule (UploadEntries lib c entries opts s)))) =
              mset (events s) + mset (concat (map (trace lib c opts createURL getIssueURL) fin)))"
  proof
    fix schedule
    obtain s' gs' where r: "run lib c opts schedule (s, ?gs) = (s', gs')"
      by (cases "run lib c opts schedule (s, ?gs)")
    show "\<exists>fin.
         list_all (wellFormed lib opts) fin \<and>
         list_all (\<lambda>h. (verdict lib opts h = None) = succeeded lib h) fin \<and>
         mset (map fst fin) \<subseteq># mset entries \<and>
         mset (published (fst (run lib c opts schedule (UploadEntries lib c entries opts s)))) =
           mset (published s) + mset (map (verdict lib opts) fin) \<and>
         mset (events s) + mset (concat (map (trace lib c opts createURL getIssueURL) fin)) \<subseteq>#
           mset (events (fst (run lib c opts schedule (UploadEntries lib c entries opts s)))) \<and>
         (finished (snd (run lib c opts schedule (UploadEntries lib c entries opts s))) \<longrightarrow>
            mset (map fst fin) = mset entries \<and>
            mset (events (fst (run lib c opts schedule (UploadEntries lib c entries opts s)))) =
              mset (events s) + mset (concat (map (trace lib c opts createURL getIssueURL) fin)))"
      unfolding start r fst_conv snd_conv by (rule course [OF r])
  qed
  show "\<forall>schedule.
         length (published (fst (run lib c opts schedule (UploadEntries lib c entries opts s)))) \<le>
           length (published s) + length entries \<and>
         (finished (snd (run lib c opts schedule (UploadEntries lib c entries opts s))) \<longrightarrow>
            length (published (fst (run lib c opts schedule (UploadEntries lib c entries opts s)))) =
              length (published s) + length entries)"
  proof
    fix schedule
    obtain s' gs' where r: "run lib c opts schedule (s, ?gs) = (s', gs')"
      by (cases "run lib c opts schedule (s, ?gs)")
    obtain fin where sub: "mset (map fst fin) \<subseteq># mset entries"
      and pub: "mset (published s') = mset (published s) + mset (map (verdict lib opts) fin)"
      and whole: "finished gs' \<longrightarrow> mset (map fst fin) = mset entries"
      using course [OF r] by blast
    have "size (mset (published s')) = size (mset (published s) + mset (map (verdict lib opts) fin))"
      by (simp only: pub)
    then have n: "length (published s') = length (published s) + length fin"
      by simp
    have "size (mset (map fst fin)) \<le> size (mset entries)"
      using sub by (rule size_mset_mono)
    then have le: "length fin \<le> length entries"
      by simp
    have eq: "length fin = length entries" if "finished gs'"
    proof -
      have "size (mset (map fst fin)) = size (mset entries)"
        using whole that by simp
      then show ?thesis by simp
    qed
    show "length (published (fst (run lib c opts schedule (UploadEntries lib c entries opts s)))) \<le>
           length (published s) + length entries \<and>
         (finished (snd (run lib c opts schedule (UploadEntries lib c entries opts s))) \<longrightarrow>
            length (published (fst (run lib c opts schedule (UploadEntries lib c entries opts s)))) =
              length (published s) + length entries)"
      unfolding start r fst_conv snd_conv using n le eq by simp
  qed
  show "\<forall>schedule. \<exists>more.
         finished (snd (run lib c opts (schedule @ more) (UploadEntries lib c entries opts s)))"
  proof
    fix schedule
    obtain s' gs' where r: "run lib c opts schedule (s, ?gs) = (s', gs')"
      by (cases "run lib c opts schedule (s, ?gs)")
    obtain more where "finished (snd (run lib c opts more (s', gs')))"
      using run_can_finish by blast
    then have "finished (snd (run lib c opts (schedule @ more) (UploadEntries lib c entries opts s)))"
      by (simp only: start run_append r)
    then show "\<exists>more. finished (snd (run lib c opts (schedule @ more) (UploadEntries lib c entries opts s)))"
      by blast
  qed
next
  assume "HTTPClient_URL lib (tempoHttpClient c) TempoPathWorklogCreate [] = Inl err \<or>
    HTTPClient_URL lib (tempoHttpClient c) TempoPathWorklogCreate [] = Inr createURL \<and>
    HTTPClient_URL lib (jiraHttpClient c) JiraPathIssue [] = Inl err"
  then have stop: "UploadEntries lib c entries opts s = (emit (Publish (Some (Errorf2 ErrUploadEntries err))) s, [])"
    by (auto simp: UploadEntries_def)
  show "UploadEntries lib c entries opts s = (emit (Publish (Some (Errorf2 ErrUploadEntries err))) s, [])"
    by (rule stop)
  show "published (fst (UploadEntries lib c entries opts s)) =
        published s @ [Some (Errorf2 ErrUploadEntries err)]"
    by (simp add: stop published_emit)
  show "attempted (fst (UploadEntries lib c entries opts s)) = attempted s"
    by (simp add: stop attempted_emit)
qed

text \<open>
  A run of two goroutines whose steps are interleaved: the two lookups go out first, and
  the first upload request is the third call, which times out; so does the sixth. The
  three values come out as upload error, nil, upload error.
\<close>

theorem UploadEntries_publishes_witness:
  "HTTPClient_URL exampleLib (tempoHttpClient exampleClient) TempoPathWorklogCreate [] =
     Inr ''https://api.tempo.io/4/worklogs'' \<and>
   HTTPClient_URL exampleLib (jiraHttpClient exampleClient) JiraPathIssue [] =
     Inr ''https://jira.example.com/rest/api/3/issue/'' \<and>
   finished (snd (run exampleLib exampleClient exampleOpts [0, 1, 0, 1, 0, 1, 0, 0, 1, 1, 0, 0, 0, 0, 0]
     (UploadEntries exampleLib exampleClient exampleEntries exampleOpts exampleState))) \<and>
   published (fst (run exampleLib exampleClient exampleOpts [0, 1, 0, 1, 0, 1, 0, 0, 1, 1, 0, 0, 0, 0, 0]
     (UploadEntries exampleLib exampleClient exampleEntries exampleOpts exampleState))) =
     [Some (ErrorfPayload ErrUploadEntries
        (buildUploadEntry (formatDate exampleLib) (formatTime exampleLib) exampleOpts (exampleEntries ! 0) exampleIssue)
        (ExternalError ''timeout'')),
      None,
      Some (ErrorfPayload ErrUploadEntries
        (buildUploadEntry (formatDate exampleLib) (formatTime exampleLib) exampleOpts (exampleEntries ! 2) exampleIssue)
        (ExternalError ''timeout''))] \<and>
   length (published (fst (run exampleLib exampleClient exampleOpts [0, 1, 0, 1, 0, 1, 0, 0, 1, 1, 0, 0, 0, 0, 0]
     (UploadEntries exampleLib exampleClient exampleEntries exampleOpts exampleState)))) = 3 \<and>
   length exampleEntries = 3 \<and>
   length (published (fst (run exampleLib exampleClient exampleOpts [0, 1, 0, 1, 0, 1, 0]
     (UploadEntries exampleLib exampleClient exampleEntries exampleOpts exampleState)))) \<le> 3 \<and>
   HTTPClient_URL exampleLib (tempoHttpClient brokenClient) TempoPathWorklogCreate [] =
     Inl (ExternalError ''no base URL'') \<and>
   published (fst (UploadEntries exampleLib brokenClient exampleEntries exampleOpts exampleState)) =
     [Some (Errorf2 ErrUploadEntries (ExternalError ''no base URL''))]"
proof -
  let ?run = "run exampleLib exampleClient exampleOpts [0, 1, 0, 1, 0, 1, 0, 0, 1, 1, 0, 0, 0, 0, 0]
     (UploadEntries exampleLib exampleClient exampleEntries exampleOpts exampleState)"
  let ?part = "run exampleLib exampleClient exampleOpts [0, 1, 0, 1, 0, 1, 0]
     (UploadEntries exampleLib exampleClient exampleEntries exampleOpts exampleState)"
  have u1: "HTTPClient_URL exampleLib (tempoHttpClient exampleClient) TempoPathWorklogCreate [] =
     Inr ''https://api.tempo.io/4/worklogs''"
    by (simp add: exampleLib_def exampleClient_def TempoPathWorklogCreate_def)
  have u2: "HTTPClient_URL exampleLib (jiraHttpClient exampleClient) JiraPathIssue [] =
     Inr ''https://jira.example.com/rest/api/3/issue/''"
    by (simp add: exampleLib_def exampleClient_def JiraPathIssue_def)
  have fin: "finished (snd ?run)"
    by code_simp
  have pub: "published (fst ?run) =
     [Some (ErrorfPayload ErrUploadEntries
        (buildUploadEntry (formatDate exampleLib) (formatTime exampleLib) exampleOpts (exampleEntries ! 0) exampleIssue)
        (ExternalError ''timeout'')),
      None,
      Some (ErrorfPayload ErrUploadEntries
        (buildUploadEntry (formatDate exampleLib) (formatTime exampleLib) exampleOpts (exampleEntries ! 2) exampleIssue)
        (ExternalError ''timeout''))]"
    by code_simp
  have u3: "HTTPClient_URL exampleLib (tempoHttpClient brokenClient) TempoPathWorklogCreate [] =
     Inl (ExternalError ''no base URL'')"
    by (simp add: exampleLib_def brokenClient_def exampleClient_def)
  have n: "length exampleEntries = 3" "published exampleState = []"
    by (simp_all add: exampleEntries_def exampleState_def published_def)
  note good = UploadEntries_publishes [of exampleLib exampleClient "''https://api.tempo.io/4/worklogs''"
        "''https://jira.example.com/rest/api/3/issue/''" exampleOpts exampleEntries exampleState
        "ExternalError ''no base URL''"]
  have ok: "length (published (fst ?run)) = length (published exampleState) + length exampleEntries"
    using good u1 u2 fin by blast
  have le: "length (published (fst ?part)) \<le> length (published exampleState) + length exampleEntries"
    using good u1 u2 by blast
  have bad: "published (fst (UploadEntries exampleLib brokenClient exampleEntries exampleOpts exampleState)) =
     published exampleState @ [Some (Errorf2 ErrUploadEntries (ExternalError ''no base URL''))]"
    using UploadEntries_publishes [of exampleLib brokenClient "[]" "[]" exampleOpts exampleEntries exampleState
        "ExternalError ''no base URL''"] u3
    by blast
  show ?thesis
    using ok le bad u1 u2 u3 fin pub n by simp
qed

text \<open>
  Claim C1 as stated fails: for the client whose URLs cannot be built, three entries are
  handed over, one value is published, and nothing is left to run.
\<close>

theorem UploadEntries_publishes_counterexample:
  "length exampleEntries = 3 \<and>
   finished (snd (UploadEntries exampleLib brokenClient exampleEntries exampleOpts exampleState)) \<and>
   run exampleLib brokenClient exampleOpts [0, 1, 0, 1, 0, 1, 0, 0, 1, 1, 0, 0, 0, 0, 0]
     (UploadEntries exampleLib brokenClient exampleEntries exampleOpts exampleState) =
     UploadEntries exampleLib brokenClient exampleEntries exampleOpts exampleState \<and>
   length (published (fst (UploadEntries exampleLib brokenClient exampleEntries exampleOpts exampleState))) = 1 \<and>
   length (published (fst (UploadEntries exampleLib brokenClient exampleEntries exampleOpts exampleState))) \<noteq>
     length exampleEntries"
  by code_simp

text \<open>
  Claim C5. In the goroutine of a group, whatever an entry publishes (the error of the
  issue lookup, of the decoding or of the upload request, or nil), the loop goes on
  with the entries after it: the run over \<open>before @ entry # after\<close> is the run of the loop
  over \<open>after\<close> from the state the entry left behind, every entry of the group is
  attempted, in order, and what is published is what was published up to and including
  \<open>entry\<close>, followed by one value for each entry of \<open>after\<close>, in order: the outcome
  reported for that entry.
\<close>

theorem groupTask_continues:
  "groupTask lib c opts createURL getIssueURL s (before @ entry # after) =
     groupTask lib c opts createURL getIssueURL
       (loopBody lib c opts createURL getIssueURL (groupTask lib c opts createURL getIssueURL s before) entry)
       after \<and>
   attempted (groupTask lib c opts createURL getIssueURL s (before @ entry # after)) =
     attempted s @ before @ entry # after \<and>
   (\<exists>rs. map fst rs = after \<and>
      results (groupTask lib c opts createURL getIssueURL s (before @ entry # after)) =
        results (loopBody lib c opts createURL getIssueURL
                   (groupTask lib c opts createURL getIssueURL s before) entry) @ rs \<and>
      published (groupTask lib c opts createURL getIssueURL s (before @ entry # after)) =
        published (loopBody lib c opts createURL getIssueURL
                     (groupTask lib c opts createURL getIssueURL s before) entry) @ map snd rs) \<and>
   length (published (groupTask lib c opts createURL getIssueURL s (before @ entry # after))) =
     length (published s) + length (before @ entry # after)"
proof (intro conjI)
  let ?failed = "loopBody lib c opts createURL getIssueURL (groupTask lib c opts createURL getIssueURL s before) entry"
  show split: "groupTask lib c opts createURL getIssueURL s (before @ entry # after) =
     groupTask lib c opts createURL getIssueURL ?failed after"
    by (simp add: groupTask_append)
  show "attempted (groupTask lib c opts createURL getIssueURL s (before @ entry # after)) =
     attempted s @ before @ entry # after"
    by (rule groupTask_attempted)
  show "\<exists>rs. map fst rs = after \<and>
      results (groupTask lib c opts createURL getIssueURL s (before @ entry # after)) =
        results ?failed @ rs \<and>
      published (groupTask lib c opts createURL getIssueURL s (before @ entry # after)) =
        published ?failed @ map snd rs"
    unfolding split by (rule groupTask_results)
  show "length (published (groupTask lib c opts createURL getIssueURL s (before @ entry # after))) =
     length (published s) + length (before @ entry # after)"
    by (rule groupTask_length)
qed

text \<open>
  A run of the loop in which the lookup of the second of three entries times out: the
  third entry is processed all the same.
\<close>

theorem groupTask_continues_witness:
  "published (loopBody exampleLib exampleClient exampleOpts ''c'' ''g''
     (groupTask exampleLib exampleClient exampleOpts ''c'' ''g'' exampleState [exampleEntries ! 0])
     (exampleEntries ! 1)) =
     [None, Some (Errorf3 ErrUploadEntries ''CPT-2015'' (ExternalError ''timeout''))] \<and>
   published (groupTask exampleLib exampleClient exampleOpts ''c'' ''g'' exampleState
     ([exampleEntries ! 0] @ exampleEntries ! 1 # [exampleEntries ! 2])) =
     [None, Some (Errorf3 ErrUploadEntries ''CPT-2015'' (ExternalError ''timeout'')), None] \<and>
   attempted (groupTask exampleLib exampleClient exampleOpts ''c'' ''g'' exampleState
     ([exampleEntries ! 0] @ exampleEntries ! 1 # [exampleEntries ! 2])) =
     [exampleEntries ! 0, exampleEntries ! 1, exampleEntries ! 2]"
proof -
  have failed: "published (loopBody exampleLib exampleClient exampleOpts ''c'' ''g''
     (groupTask exampleLib exampleClient exampleOpts ''c'' ''g'' exampleState [exampleEntries ! 0])
     (exampleEntries ! 1)) =
     [None, Some (Errorf3 ErrUploadEntries ''CPT-2015'' (ExternalError ''timeout''))]"
    by code_simp
  have all: "published (groupTask exampleLib exampleClient exampleOpts ''c'' ''g'' exampleState
     ([exampleEntries ! 0] @ exampleEntries ! 1 # [exampleEntries ! 2])) =
     [None, Some (Errorf3 ErrUploadEntries ''CPT-2015'' (ExternalError ''timeout'')), None]"
    by code_simp
  have "attempted exampleState = []"
    by (simp add: attempted_def exampleState_def)
  then show ?thesis
    using groupTask_continues [of exampleLib exampleClient exampleOpts "''c''" "''g''" exampleState
        "[exampleEntries ! 0]" "exampleEntries ! 1" "[exampleEntries ! 2]"] failed all
    by simp
qed

section \<open>The claims about task extraction\<close>

text \<open>
  Claim C6. With the three patterns set and \<open>MultipleTaskMode = "first-only"\<close>,
  \<open>ExtractTasks\<close> returns at most one task, and when the summary pattern matches at all
  the task returned is the first match of the summary, whatever the tags and the
  project would match.
\<close>

theorem ExtractTasks_first_only:
  assumes "IsRegexSet lib (TaskInSummaryRegex opts)"
    and "IsRegexSet lib (TagsAsTasksRegex opts)"
    and "IsRegexSet lib (TaskInProjectRegex opts)"
    and "MultipleTaskMode opts = FirstTaskOnly"
  shows "length (ExtractTasks lib e tags opts) \<le> 1 \<and>
         (TasksFromSummary lib e (TaskInSummaryRegex opts) \<noteq> [] \<longrightarrow>
            ExtractTasks lib e tags opts = [hd (TasksFromSummary lib e (TaskInSummaryRegex opts))])"
  using assms
  by (cases "TasksFromSummary lib e (TaskInSummaryRegex opts)")
     (auto simp: ExtractTasks_def Let_def SplitAcrossTasks_def FirstTaskOnly_def)

theorem ExtractTasks_first_only_witness:
  "IsRegexSet charExtractors (TaskInSummaryRegex (exampleExtraction FirstTaskOnly)) \<and>
   IsRegexSet charExtractors (TagsAsTasksRegex (exampleExtraction FirstTaskOnly)) \<and>
   IsRegexSet charExtractors (TaskInProjectRegex (exampleExtraction FirstTaskOnly)) \<and>
   MultipleTaskMode (exampleExtraction FirstTaskOnly) = FirstTaskOnly \<and>
   TasksFromSummary charExtractors exampleEntry (TaskInSummaryRegex (exampleExtraction FirstTaskOnly))
     = [\<lparr> ID = ''a'', Name = ''a'' \<rparr>, \<lparr> ID = ''a'', Name = ''a'' \<rparr>] \<and>
   TasksFromTags charExtractors exampleEntry exampleTags (TagsAsTasksRegex (exampleExtraction FirstTaskOnly))
     = [\<lparr> ID = ''a'', Name = ''a'' \<rparr>] \<and>
   ExtractTasks charExtractors exampleEntry exampleTags (exampleExtraction FirstTaskOnly)
     = [\<lparr> ID = ''a'', Name = ''a'' \<rparr>]"
  using ExtractTasks_first_only [of charExtractors "exampleExtraction FirstTaskOnly" exampleEntry exampleTags]
  by (simp add: charExtractors_def exampleExtraction_def exampleEntry_def exampleTags_def charTasks_def)

text \<open>
  Claim C7. With \<open>MultipleTaskMode = "split"\<close>, \<open>ExtractTasks\<close> returns the matches of the
  summary, then those of the tags, then those of the project, each source taking part
  as soon as its pattern is set, whatever the sources before it produced.
\<close>

theorem ExtractTasks_split:
  assumes "MultipleTaskMode opts = SplitAcrossTasks"
  shows "ExtractTasks lib e tags opts =
           (if IsRegexSet lib (TaskInSummaryRegex opts)
            then TasksFromSummary lib e (TaskInSummaryRegex opts) else []) @
           (if IsRegexSet lib (TagsAsTasksRegex opts)
            then TasksFromTags lib e tags (TagsAsTasksRegex opts) else []) @
           (if IsRegexSet lib (TaskInProjectRegex opts)
            then TasksFromProject lib e (TaskInProjectRegex opts) else [])"
  using assms by (simp add: ExtractTasks_def Let_def SplitAcrossTasks_def FirstTaskOnly_def)

theorem ExtractTasks_split_witness:
  "MultipleTaskMode (exampleExtraction SplitAcrossTasks) = SplitAcrossTasks \<and>
   ExtractTasks charExtractors exampleEntry exampleTags (exampleExtraction SplitAcrossTasks) =
     [\<lparr> ID = ''a'', Name = ''a'' \<rparr>, \<lparr> ID = ''a'', Name = ''a'' \<rparr>] @
     [\<lparr> ID = ''a'', Name = ''a'' \<rparr>] @ [\<lparr> ID = ''b'', Name = ''b'' \<rparr>]"
  using ExtractTasks_split [of "exampleExtraction SplitAcrossTasks" charExtractors exampleEntry exampleTags]
  by (simp add: charExtractors_def exampleExtraction_def exampleEntry_def exampleTags_def charTasks_def)

text \<open>
  Claim C10. With a \<open>MultipleTaskMode\<close> that is neither \<open>"split"\<close> nor \<open>"first-only"\<close>
  (the empty string, say), the tags are consulted only when the summary gave nothing
  and the project only when summary and tags gave nothing, and the result is never cut
  short: when the summary pattern matches, all of its matches are returned, which can
  be more than one.
\<close>

theorem ExtractTasks_other_mode:
  assumes "MultipleTaskMode opts \<noteq> SplitAcrossTasks" and "MultipleTaskMode opts \<noteq> FirstTaskOnly"
  shows "ExtractTasks lib e tags opts =
           (let fromSummary = (if IsRegexSet lib (TaskInSummaryRegex opts)
                               then TasksFromSummary lib e (TaskInSummaryRegex opts) else []);
                fromTags = (if IsRegexSet lib (TagsAsTasksRegex opts) \<and> fromSummary = []
                            then TasksFromTags lib e tags (TagsAsTasksRegex opts) else []);
                fromProject = (if IsRegexSet lib (TaskInProjectRegex opts) \<and> fromSummary = [] \<and> fromTags = []
                               then TasksFromProject lib e (TaskInProjectRegex opts) else [])
            in fromSummary @ fromTags @ fromProject) \<and>
         (IsRegexSet lib (TaskInSummaryRegex opts) \<and> TasksFromSummary lib e (TaskInSummaryRegex opts) \<noteq> [] \<longrightarrow>
            ExtractTasks lib e tags opts = TasksFromSummary lib e (TaskInSummaryRegex opts))"
  using assms by (auto simp: ExtractTasks_def Let_def)

theorem ExtractTasks_other_mode_witness:
  "MultipleTaskMode (exampleExtraction '''') \<noteq> SplitAcrossTasks \<and>
   MultipleTaskMode (exampleExtraction '''') \<noteq> FirstTaskOnly \<and>
   '''' \<notin> set MultipleTaskModes \<and>
   IsRegexSet charExtractors (TaskInSummaryRegex (exampleExtraction '''')) \<and>
   ExtractTasks charExtractors exampleEntry exampleTags (exampleExtraction '''') =
     TasksFromSummary charExtractors exampleEntry (TaskInSummaryRegex (exampleExtraction '''')) \<and>
   ExtractTasks charExtractors exampleEntry exampleTags (exampleExtraction '''') =
     [\<lparr> ID = ''a'', Name = ''a'' \<rparr>, \<lparr> ID = ''a'', Name = ''a'' \<rparr>] \<and>
   length (ExtractTasks charExtractors exampleEntry exampleTags (exampleExtraction '''')) = 2"
  using ExtractTasks_other_mode [of "exampleExtraction ''''" charExtractors exampleEntry exampleTags]
  by (simp add: charExtractors_def exampleExtraction_def exampleEntry_def exampleTags_def charTasks_def
      SplitAcrossTasks_def FirstTaskOnly_def MultipleTaskModes_def)

section \<open>The claim about the choice of the uploader\<close>

text \<open>
  Claim C9. For a target other than \<open>"tempo"\<close> and \<open>"tempo-cloud"\<close>, \<open>getUploader\<close> returns a
  nil uploader and \<open>ErrNoTargetImplementation\<close>, and all it has done by then is to read
  the key \<open>target\<close> of the configuration: no constructor has been called and the outside
  world is as it was. For \<open>"tempo"\<close> it reads the three options of that provider, calls
  \<open>tempo.NewUploader\<close> with them and returns what that returns; for \<open>"tempo-cloud"\<close> it
  reads the five options of that provider, calls \<open>tempocloud.NewUploader\<close> with them and
  returns what that returns, an uploader that is not nil as an interface value and that
  holds a client whenever no error comes with it. Whatever the target, \<open>getUploader\<close>
  itself issues no HTTP request.
\<close>

theorem getUploader_dispatch:
  "(config ''target'' \<noteq> ''tempo'' \<and> config ''target'' \<noteq> ''tempo-cloud'' \<longrightarrow>
      getUploader tempo lib DefaultRequestTimeout config s =
        ((None, Some ErrNoTargetImplementation), emit (GetString ''target'') s) \<and>
      world (snd (getUploader tempo lib DefaultRequestTimeout config s)) = world s \<and>
      events (snd (getUploader tempo lib DefaultRequestTimeout config s)) =
        events s @ [GetString ''target'']) \<and>
   (config ''target'' = ''tempo'' \<longrightarrow>
      getUploader tempo lib DefaultRequestTimeout config s =
        tempo_NewUploader tempo
          \<lparr> tempo_BaseClientOpts = \<lparr> Timeout = DefaultRequestTimeout \<rparr>,
            tempo_BasicAuth = \<lparr> Username = config ''tempo-username'',
                                Password = config ''tempo-password'' \<rparr>,
            tempo_BaseURL = config ''tempo-url'' \<rparr>
          (s\<lparr> events := events s @
                [GetString ''target'', GetString ''tempo-username'', GetString ''tempo-password'',
                 GetString ''tempo-url''] \<rparr>) \<and>
      fst (getUploader tempo lib DefaultRequestTimeout config s) =
        fst (tempo (world s)
          \<lparr> tempo_BaseClientOpts = \<lparr> Timeout = DefaultRequestTimeout \<rparr>,
            tempo_BasicAuth = \<lparr> Username = config ''tempo-username'',
                                Password = config ''tempo-password'' \<rparr>,
            tempo_BaseURL = config ''tempo-url'' \<rparr>)) \<and>
   (config ''target'' = ''tempo-cloud'' \<longrightarrow>
      getUploader tempo lib DefaultRequestTimeout config s =
        NewUploader lib
          \<lparr> ClientOpts_BaseClientOpts = \<lparr> Timeout = DefaultRequestTimeout \<rparr>,
            TempoAuth = \<lparr> Header = [], TokenName = ''Bearer'', Token = config ''tempo-api-key'' \<rparr>,
            JiraAuth = \<lparr> Username = config ''jira-username'', Password = config ''jira-api-key'' \<rparr>,
            TempoBaseURL = config ''tempo-cloud-url'',
            JiraBaseURL = config ''jira-url'' \<rparr>
          (s\<lparr> events := events s @
                [GetString ''target'', GetString ''tempo-api-key'', GetString ''jira-username'',
                 GetString ''jira-api-key'', GetString ''tempo-cloud-url'', GetString ''jira-url''] \<rparr>) \<and>
      (\<exists>client. fst (fst (getUploader tempo lib DefaultRequestTimeout config s)) =
                  Some (TempoCloudUploader client) \<and>
                (snd (fst (getUploader tempo lib DefaultRequestTimeout config s)) = None \<longrightarrow>
                 client \<noteq> None))) \<and>
   calls (snd (getUploader tempo lib DefaultRequestTimeout config s)) = calls s"
proof (intro conjI impI)
  assume other: "config ''target'' \<noteq> ''tempo'' \<and> config ''target'' \<noteq> ''tempo-cloud''"
  then show none: "getUploader tempo lib DefaultRequestTimeout config s =
        ((None, Some ErrNoTargetImplementation), emit (GetString ''target'') s)"
    by (simp add: getUploader_def viper_GetString_def)
  show "world (snd (getUploader tempo lib DefaultRequestTimeout config s)) = world s"
    unfolding none by (simp add: emit_def)
  show "events (snd (getUploader tempo lib DefaultRequestTimeout config s)) =
        events s @ [GetString ''target'']"
    unfolding none by (simp add: emit_def)
next
  assume t: "config ''target'' = ''tempo''"
  then show "getUploader tempo lib DefaultRequestTimeout config s =
        tempo_NewUploader tempo
          \<lparr> tempo_BaseClientOpts = \<lparr> Timeout = DefaultRequestTimeout \<rparr>,
            tempo_BasicAuth = \<lparr> Username = config ''tempo-username'',
                                Password = config ''tempo-password'' \<rparr>,
            tempo_BaseURL = config ''tempo-url'' \<rparr>
          (s\<lparr> events := events s @
                [GetString ''target'', GetString ''tempo-username'', GetString ''tempo-password'',
                 GetString ''tempo-url''] \<rparr>)"
    by (simp add: getUploader_def viper_GetString_def emit_def)
  then show "fst (getUploader tempo lib DefaultRequestTimeout config s) =
        fst (tempo (world s)
          \<lparr> tempo_BaseClientOpts = \<lparr> Timeout = DefaultRequestTimeout \<rparr>,
            tempo_BasicAuth = \<lparr> Username = config ''tempo-username'',
                                Password = config ''tempo-password'' \<rparr>,
            tempo_BaseURL = config ''tempo-url'' \<rparr>)"
    by (simp add: tempo_NewUploader_def split: prod.splits)
next
  assume t: "config ''target'' = ''tempo-cloud''"
  then show cloud: "getUploader tempo lib DefaultRequestTimeout config s =
        NewUploader lib
          \<lparr> ClientOpts_BaseClientOpts = \<lparr> Timeout = DefaultRequestTimeout \<rparr>,
            TempoAuth = \<lparr> Header = [], TokenName = ''Bearer'', Token = config ''tempo-api-key'' \<rparr>,
            JiraAuth = \<lparr> Username = config ''jira-username'', Password = config ''jira-api-key'' \<rparr>,
            TempoBaseURL = config ''tempo-cloud-url'',
            JiraBaseURL = config ''jira-url'' \<rparr>
          (s\<lparr> events := events s @
                [GetString ''target'', GetString ''tempo-api-key'', GetString ''jira-username'',
                 GetString ''jira-api-key'', GetString ''tempo-cloud-url'', GetString ''jira-url''] \<rparr>)"
    by (simp add: getUploader_def viper_GetString_def emit_def)
  show "\<exists>client. fst (fst (getUploader tempo lib DefaultRequestTimeout config s)) =
                  Some (TempoCloudUploader client) \<and>
                (snd (fst (getUploader tempo lib DefaultRequestTimeout config s)) = None \<longrightarrow>
                 client \<noteq> None)"
    unfolding cloud by (rule NewUploader_not_nil)
next
  show "calls (snd (getUploader tempo lib DefaultRequestTimeout config s)) = calls s"
    by (simp add: getUploader_def viper_GetString_def calls_emit calls_NewUploader calls_tempo_NewUploader)
qed

theorem getUploader_dispatch_witness:
  "exampleConfig ''harvest'' ''target'' \<noteq> ''tempo'' \<and>
   exampleConfig ''harvest'' ''target'' \<noteq> ''tempo-cloud'' \<and>
   getUploader exampleTempoNewUploader exampleLib (30 * Second) (exampleConfig ''harvest'') exampleState =
     ((None, Some ErrNoTargetImplementation), \<lparr> world = 0, events = [GetString ''target''] \<rparr>) \<and>
   getUploader exampleTempoNewUploader exampleLib (30 * Second) (exampleConfig []) exampleState =
     ((None, Some ErrNoTargetImplementation), \<lparr> world = 0, events = [GetString ''target''] \<rparr>) \<and>
   exampleConfig ''tempo'' ''target'' = ''tempo'' \<and>
   getUploader exampleTempoNewUploader exampleLib (30 * Second) (exampleConfig ''tempo'') exampleState =
     ((Some (TempoUploader ''tempo-url''), None),
      \<lparr> world = 1,
        events = [GetString ''target'', GetString ''tempo-username'', GetString ''tempo-password'',
                  GetString ''tempo-url'',
                  TempoNewUploaderCall
                    \<lparr> tempo_BaseClientOpts = \<lparr> Timeout = 30 * Second \<rparr>,
                      tempo_BasicAuth = \<lparr> Username = ''tempo-username'', Password = ''tempo-password'' \<rparr>,
                      tempo_BaseURL = ''tempo-url'' \<rparr>] \<rparr>) \<and>
   exampleConfig ''tempo-cloud'' ''target'' = ''tempo-cloud'' \<and>
   getUploader exampleTempoNewUploader exampleLib (30 * Second) (exampleConfig ''tempo-cloud'') exampleState =
     ((Some (TempoCloudUploader (Some
        \<lparr> tempoClient_BaseClientOpts = \<lparr> Timeout = 30 * Second \<rparr>,
          tempoHttpClient = \<lparr> BaseURL = URL ''tempo-cloud-url'' \<rparr>,
          jiraHttpClient = \<lparr> BaseURL = URL ''jira-url'' \<rparr>,
          tempoAuthenticator = Authenticator ''Bearer tempo-api-key'',
          jiraAuthenticator = Authenticator ''jira-username:jira-api-key'' \<rparr>)), None),
      \<lparr> world = 0,
        events = [GetString ''target'', GetString ''tempo-api-key'', GetString ''jira-username'',
                  GetString ''jira-api-key'', GetString ''tempo-cloud-url'', GetString ''jira-url'',
                  Parse ''tempo-cloud-url'', Parse ''jira-url'',
                  NewTokenAuthCall [] ''Bearer'' ''tempo-api-key'',
                  NewBasicAuthCall ''jira-username'' ''jira-api-key''] \<rparr>)"
  using getUploader_dispatch [of "exampleConfig ''harvest''" exampleTempoNewUploader exampleLib "30 * Second" exampleState]
    getUploader_dispatch [of "exampleConfig []" exampleTempoNewUploader exampleLib "30 * Second" exampleState]
    getUploader_dispatch [of "exampleConfig ''tempo''" exampleTempoNewUploader exampleLib "30 * Second" exampleState]
    getUploader_dispatch [of "exampleConfig ''tempo-cloud''" exampleTempoNewUploader exampleLib "30 * Second" exampleState]
  by (simp add: exampleConfig_def exampleTempoNewUploader_def exampleState_def emit_def
      tempo_NewUploader_def NewUploader_def newClient_def parse_def newTokenAuth_def newBasicAuth_def
      exampleLib_def)

end
